(* ===== verification/Prelude.thy ===== *)
theory Prelude
  imports Main "HOL-Library.Word"
begin

text \<open>
  Shared vocabulary of the development: the outcomes a C++ call can have beside returning
  a value, the state-and-outcome programs every operation is written in, a weakest
  precondition calculus for them, and generic lemmas on lists, maps and machine words.
\<close>

section \<open>Machine types\<close>

type_synonym uint8 = "8 word"
type_synonym uint16 = "16 word"
type_synonym uint32 = "32 word"
type_synonym uint64 = "64 word"

text \<open>Bytes of a \<^verbatim>\<open>std::string\<close> or of a buffer are characters.\<close>

type_synonym bytes = string

abbreviation UINT32_MAX :: uint32 where
  "UINT32_MAX \<equiv> - 1"

abbreviation SIZE_MAX :: uint64 where
  "SIZE_MAX \<equiv> - 1"

abbreviation INT64_MIN :: int where
  "INT64_MIN \<equiv> - (2 ^ 63)"

abbreviation INT64_MAX :: int where
  "INT64_MAX \<equiv> 2 ^ 63 - 1"

section \<open>Outcomes and programs\<close>

text \<open>
  How a call can end other than by returning: a \<^verbatim>\<open>wrapException\<close> with its
  \<^verbatim>\<open>errno\<close> (the only exception the code ever catches), another standard exception,
  \<^verbatim>\<open>std::terminate\<close>, \<^verbatim>\<open>exit\<close>, glog's \<^verbatim>\<open>LOG(FATAL)\<close> abort, a call that
  never returns (a thread waiting for a lock or a thread that cannot make progress), an
  operation whose behaviour C++ leaves undefined, and a model loop stopped by its bound.
\<close>

datatype exn =
    WrapException int
  | StdException string
  | Terminated
  | Exited int
  | Aborted
  | Deadlock
  | Undefined
  | OutOfFuel

type_synonym ('s, 'a) prog = "'s \<Rightarrow> (exn + 'a) \<times> 's"

definition ret :: "'a \<Rightarrow> ('s, 'a) prog" where
  "ret a s = (Inr a, s)"

definition raise :: "exn \<Rightarrow> ('s, 'a) prog" where
  "raise e s = (Inl e, s)"

definition bindE :: "('s, 'a) prog \<Rightarrow> ('a \<Rightarrow> ('s, 'b) prog) \<Rightarrow> ('s, 'b) prog" where
  "bindE m f s = (case m s of (Inl e, s') \<Rightarrow> (Inl e, s') | (Inr a, s') \<Rightarrow> f a s')"

definition thenE :: "('s, 'a) prog \<Rightarrow> ('s, 'b) prog \<Rightarrow> ('s, 'b) prog" where
  "thenE m m' = bindE m (\<lambda>_. m')"

text \<open>\<open>catchWrap\<close> is \<^verbatim>\<open>try { m } catch (wrapException) { h }\<close>.\<close>

definition catchWrap :: "('s, 'a) prog \<Rightarrow> (int \<Rightarrow> ('s, 'a) prog) \<Rightarrow> ('s, 'a) prog" where
  "catchWrap m h s =
     (case m s of (Inl (WrapException e), s') \<Rightarrow> h e s' | (r, s') \<Rightarrow> (r, s'))"

definition gets :: "('s \<Rightarrow> 'a) \<Rightarrow> ('s, 'a) prog" where
  "gets f s = (Inr (f s), s)"

definition modify :: "('s \<Rightarrow> 's) \<Rightarrow> ('s, unit) prog" where
  "modify f s = (Inr (), f s)"

text \<open>
  A component state is paired with the state \<open>'w\<close> of the world outside the program.
  \<open>world\<close> runs a program on the world alone, \<open>obj\<close> and \<open>upd\<close> read and change the
  component, \<open>zoom\<close> runs a program of a part of the component on that part.
\<close>

definition world :: "('w, 'a) prog \<Rightarrow> ('c \<times> 'w, 'a) prog" where
  "world m s = (case m (snd s) of (r, w') \<Rightarrow> (r, (fst s, w')))"

definition obj :: "('c \<Rightarrow> 'a) \<Rightarrow> ('c \<times> 'w, 'a) prog" where
  "obj f s = (Inr (f (fst s)), s)"

definition upd :: "('c \<Rightarrow> 'c) \<Rightarrow> ('c \<times> 'w, unit) prog" where
  "upd f s = (Inr (), (f (fst s), snd s))"

definition zoom :: "('c \<Rightarrow> 'p) \<Rightarrow> ('p \<Rightarrow> 'c \<Rightarrow> 'c) \<Rightarrow> ('p \<times> 'w, 'a) prog \<Rightarrow> ('c \<times> 'w, 'a) prog" where
  "zoom get put m s =
     (case m (get (fst s), snd s) of (r, (p', w')) \<Rightarrow> (r, (put p' (fst s), w')))"

text \<open>\<open>on_object v m\<close> runs \<open>m\<close> on an object \<open>v\<close> of its own and gives back what becomes of it.\<close>

definition on_object :: "'v \<Rightarrow> ('v \<times> 'w, 'a) prog \<Rightarrow> ('c \<times> 'w, 'a \<times> 'v) prog" where
  "on_object v m s =
     (case m (v, snd s) of
        (Inl x, (v', w')) \<Rightarrow> (Inl x, (fst s, w'))
      | (Inr a, (v', w')) \<Rightarrow> (Inr (a, v'), (fst s, w')))"

text \<open>
  \<open>finallyE m d\<close>: the destructors \<open>d\<close> of a scope run when \<open>m\<close> returns or throws an exception,
  not when the program has stopped.
\<close>

definition finallyE :: "('s, 'a) prog \<Rightarrow> ('s, unit) prog \<Rightarrow> ('s, 'a) prog" where
  "finallyE m d s =
     (case m s of
        (Inr a, s') \<Rightarrow> thenE d (ret a) s'
      | (Inl (WrapException n), s') \<Rightarrow> thenE d (raise (WrapException n)) s'
      | (Inl (StdException x), s') \<Rightarrow> thenE d (raise (StdException x)) s'
      | r \<Rightarrow> r)"

text \<open>A range-based loop over a list, in order.\<close>

fun forE :: "'a list \<Rightarrow> ('a \<Rightarrow> ('s, unit) prog) \<Rightarrow> ('s, unit) prog" where
  "forE [] f = ret ()"
| "forE (x # xs) f = thenE (f x) (forE xs f)"

section \<open>Weakest preconditions\<close>

text \<open>
  \<open>wp m Q s\<close>: the outcome and final state of \<open>m\<close> from \<open>s\<close> satisfy \<open>Q\<close>. The rules in
  \<open>wp_simps\<close> push it through the combinators, so that simplification turns a goal about a
  program into a goal about its branches.
\<close>

named_theorems wp_simps
named_theorems wp_rules

definition wp :: "('s, 'a) prog \<Rightarrow> (exn + 'a \<Rightarrow> 's \<Rightarrow> bool) \<Rightarrow> 's \<Rightarrow> bool" where
  "wp m Q s = (case m s of (r, s') \<Rightarrow> Q r s')"

text \<open>The postcondition that only speaks of normal returns.\<close>

definition onReturn :: "('a \<Rightarrow> 's \<Rightarrow> bool) \<Rightarrow> exn + 'a \<Rightarrow> 's \<Rightarrow> bool" where
  "onReturn Q r s = (case r of Inl e \<Rightarrow> True | Inr a \<Rightarrow> Q a s)"

lemma onReturn_simps [simp]:
  "onReturn Q (Inl e) s" "onReturn Q (Inr a) s = Q a s"
  by (simp_all add: onReturn_def)

lemma wp_ret [wp_simps]: "wp (ret a) Q s = Q (Inr a) s"
  by (simp add: wp_def ret_def)

lemma wp_raise [wp_simps]: "wp (raise e) Q s = Q (Inl e) s"
  by (simp add: wp_def raise_def)

lemma wp_bindE [wp_simps]:
  "wp (bindE m f) Q s =
     wp m (\<lambda>r s'. (\<forall>x. r = Inl x \<longrightarrow> Q (Inl x) s') \<and> (\<forall>a. r = Inr a \<longrightarrow> wp (f a) Q s')) s"
  by (simp add: wp_def bindE_def split: prod.split sum.split)

lemma wp_thenE [wp_simps]:
  "wp (thenE m m') Q s =
     wp m (\<lambda>r s'. (\<forall>x. r = Inl x \<longrightarrow> Q (Inl x) s') \<and> (\<forall>a. r = Inr a \<longrightarrow> wp m' Q s')) s"
  by (simp add: thenE_def wp_bindE)

lemma wp_catchWrap [wp_simps]:
  "wp (catchWrap m h) Q s =
     wp m (\<lambda>r s'. (\<forall>x. r = Inl (WrapException x) \<longrightarrow> wp (h x) Q s') \<and>
       ((\<nexists>x. r = Inl (WrapException x)) \<longrightarrow> Q r s')) s"
  by (auto simp add: wp_def catchWrap_def split: prod.split sum.split exn.split)

lemma wp_gets [wp_simps]: "wp (gets f) Q s = Q (Inr (f s)) s"
  by (simp add: wp_def gets_def)

lemma wp_modify [wp_simps]: "wp (modify f) Q s = Q (Inr ()) (f s)"
  by (simp add: wp_def modify_def)

lemma wp_obj [wp_simps]: "wp (obj f) Q s = Q (Inr (f (fst s))) s"
  by (simp add: wp_def obj_def)

lemma wp_upd [wp_simps]: "wp (upd f) Q s = Q (Inr ()) (f (fst s), snd s)"
  by (simp add: wp_def upd_def)

lemma wp_world [wp_simps]:
  "wp (world m) Q s = wp m (\<lambda>r w'. Q r (fst s, w')) (snd s)"
  by (simp add: wp_def world_def split: prod.split)

lemma wp_zoom [wp_simps]:
  "wp (zoom get put m) Q s =
     wp m (\<lambda>r s'. Q r (put (fst s') (fst s), snd s')) (get (fst s), snd s)"
  by (simp add: wp_def zoom_def split: prod.split)

lemma wp_on_object [wp_simps]:
  "wp (on_object v m) Q s =
     wp m (\<lambda>r s'. (\<forall>x. r = Inl x \<longrightarrow> Q (Inl x) (fst s, snd s')) \<and>
       (\<forall>a. r = Inr a \<longrightarrow> Q (Inr (a, fst s')) (fst s, snd s'))) (v, snd s)"
  by (simp add: wp_def on_object_def split: prod.split sum.split)

lemma wp_if [wp_simps]:
  "wp (if b then m else m') Q s = ((b \<longrightarrow> wp m Q s) \<and> (\<not> b \<longrightarrow> wp m' Q s))"
  by simp

lemma wp_let [wp_simps]: "wp (let x = v in f x) Q s = wp (f v) Q s"
  by (simp add: Let_def)

lemma wp_case_option [wp_simps]:
  "wp (case x of None \<Rightarrow> m | Some a \<Rightarrow> f a) Q s =
     ((x = None \<longrightarrow> wp m Q s) \<and> (\<forall>a. x = Some a \<longrightarrow> wp (f a) Q s))"
  by (cases x) simp_all

lemma wp_case_sum [wp_simps]:
  "wp (case x of Inl a \<Rightarrow> g a | Inr b \<Rightarrow> f b) Q s =
     ((\<forall>a. x = Inl a \<longrightarrow> wp (g a) Q s) \<and> (\<forall>b. x = Inr b \<longrightarrow> wp (f b) Q s))"
  by (cases x) simp_all

lemma wp_case_prod [wp_simps]:
  "wp (case x of (a, b) \<Rightarrow> f a b) Q s = (\<forall>a b. x = (a, b) \<longrightarrow> wp (f a b) Q s)"
  by (cases x) simp

lemma wp_mono:
  assumes "wp m P s" and "\<And>r s'. P r s' \<Longrightarrow> Q r s'"
  shows "wp m Q s"
  using assms by (auto simp: wp_def split: prod.splits)

lemma wp_run: "wp m Q s \<Longrightarrow> m s = (r, s') \<Longrightarrow> Q r s'"
  by (simp add: wp_def)

lemma wpI: "(\<And>r s'. m s = (r, s') \<Longrightarrow> Q r s') \<Longrightarrow> wp m Q s"
  by (simp add: wp_def split: prod.split)

lemma wp_any: "(\<And>r s'. Q r s') \<Longrightarrow> wp p Q s"
  by (simp add: wp_def split: prod.split)

lemma wp_conj: "wp p Q s \<Longrightarrow> wp p R s \<Longrightarrow> wp p (\<lambda>r s'. Q r s' \<and> R r s') s"
  by (simp add: wp_def split: prod.splits)

lemma wp_trivial [simp]: "wp m (\<lambda>r s'. True) s"
  by (simp add: wp_def split: prod.split)

text \<open>An invariant every iteration keeps, however it ends, holds after the loop.\<close>

lemma wp_forE:
  assumes "\<And>x s. x \<in> set xs \<Longrightarrow> I s \<Longrightarrow> wp (f x) (\<lambda>r s'. I s') s" and "I s"
  shows "wp (forE xs f) (\<lambda>r s'. I s') s"
  using assms
proof (induction xs arbitrary: s)
  case Nil
  then show ?case by (simp add: wp_ret)
next
  case (Cons x xs)
  have "wp (f x) (\<lambda>r s'. I s') s"
    using Cons.prems by simp
  moreover have "I s' \<Longrightarrow> wp (forE xs f) (\<lambda>r s'. I s') s'" for s'
    using Cons.IH Cons.prems(1) by simp
  ultimately show ?case
    unfolding forE.simps wp_thenE by (elim wp_mono) simp
qed

text \<open>The same for a loop whose invariant is only kept while iterations return.\<close>

lemma wp_forE_return:
  assumes "\<And>x s. x \<in> set xs \<Longrightarrow> I s \<Longrightarrow> wp (f x) (onReturn (\<lambda>_. I)) s" and "I s"
  shows "wp (forE xs f) (onReturn (\<lambda>_. I)) s"
  using assms
proof (induction xs arbitrary: s)
  case Nil
  then show ?case by (simp add: wp_ret)
next
  case (Cons x xs)
  have "wp (f x) (onReturn (\<lambda>_. I)) s"
    using Cons.prems by simp
  moreover have "I s' \<Longrightarrow> wp (forE xs f) (onReturn (\<lambda>_. I)) s'" for s'
    using Cons.IH Cons.prems(1) by simp
  ultimately show ?case
    unfolding forE.simps wp_thenE by (elim wp_mono) auto
qed

section \<open>Invariants\<close>

text \<open>
  \<open>keeps P m\<close>: however \<open>m\<close> ends, it leaves a component that satisfies \<open>P\<close> in a state that
  does. The rules follow the structure of a program; \<open>keeps_read\<close> hands the value read from
  the component to the rest.
\<close>

named_theorems keeps_intros

definition keeps :: "('c \<Rightarrow> bool) \<Rightarrow> ('c \<times> 'w, 'a) prog \<Rightarrow> bool" where
  "keeps P m \<longleftrightarrow> (\<forall>s. P (fst s) \<longrightarrow> wp m (\<lambda>r s'. P (fst s')) s)"

lemma keepsI: "(\<And>c w. P c \<Longrightarrow> wp m (\<lambda>r s'. P (fst s')) (c, w)) \<Longrightarrow> keeps P m"
  by (simp add: keeps_def)

lemma keepsD: "keeps P m \<Longrightarrow> P (fst s) \<Longrightarrow> wp m (\<lambda>r s'. P (fst s')) s"
  unfolding keeps_def by blast

lemma keeps_run: "keeps P m \<Longrightarrow> P c \<Longrightarrow> m (c, w) = (r, (c', w')) \<Longrightarrow> P c'"
  using wp_run [OF keepsD] by fastforce

lemma keeps_atomic [keeps_intros]:
  "keeps P (ret a)" "keeps P (raise x)" "keeps P (obj f)" "keeps P (world p)" "keeps P (on_object v q)"
  by (simp_all add: keeps_def wp_simps)

lemma keeps_bindE [keeps_intros]:
  assumes "keeps P m" and "\<And>a. keeps P (f a)"
  shows "keeps P (bindE m f)"
proof (rule keepsI)
  fix c w assume "P c"
  then have "wp m (\<lambda>r s'. P (fst s')) (c, w)"
    using keepsD [OF assms(1), of "(c, w)"] by simp
  then show "wp (bindE m f) (\<lambda>r s'. P (fst s')) (c, w)"
    unfolding wp_bindE by (rule wp_mono) (blast intro: keepsD [OF assms(2)])
qed

lemma keeps_thenE [keeps_intros]: "keeps P m \<Longrightarrow> keeps P m' \<Longrightarrow> keeps P (thenE m m')"
  unfolding thenE_def by (rule keeps_bindE)

lemma keeps_catchWrap [keeps_intros]:
  assumes "keeps P m" and "\<And>x. keeps P (h x)"
  shows "keeps P (catchWrap m h)"
proof (rule keepsI)
  fix c w assume "P c"
  then have "wp m (\<lambda>r s'. P (fst s')) (c, w)"
    using keepsD [OF assms(1), of "(c, w)"] by simp
  then show "wp (catchWrap m h) (\<lambda>r s'. P (fst s')) (c, w)"
    unfolding wp_catchWrap by (rule wp_mono) (blast intro: keepsD [OF assms(2)])
qed

lemma keeps_finallyE [keeps_intros]:
  assumes "keeps P m" and "keeps P d"
  shows "keeps P (finallyE m d)"
proof (rule keepsI)
  fix c w assume c: "P c"
  obtain r c' w' where m: "m (c, w) = (r, (c', w'))"
    by (metis prod.exhaust)
  have "P c'"
    using keeps_run [OF assms(1) c m] .
  note then_keeps = keeps_run [OF keeps_thenE [OF assms(2) keeps_atomic(1)] this]
    keeps_run [OF keeps_thenE [OF assms(2) keeps_atomic(2)] this]
  show "wp (finallyE m d) (\<lambda>r s'. P (fst s')) (c, w)"
    using \<open>P c'\<close> by (auto simp: wp_def finallyE_def m split: sum.split exn.split dest: then_keeps)
qed

lemma keeps_upd [keeps_intros]: "(\<And>c. P c \<Longrightarrow> P (f c)) \<Longrightarrow> keeps P (upd f)"
  by (simp add: keeps_def wp_simps)

lemma keeps_zoom [keeps_intros]: "(\<And>c p. P c \<Longrightarrow> P (put p c)) \<Longrightarrow> keeps P (zoom get put m)"
  by (simp add: keeps_def wp_simps)

lemma keeps_forE [keeps_intros]: "(\<And>x. x \<in> set xs \<Longrightarrow> keeps P (f x)) \<Longrightarrow> keeps P (forE xs f)"
  by (induction xs) (auto intro!: keeps_atomic keeps_thenE)

lemma keeps_if [keeps_intros]:
  "(b \<Longrightarrow> keeps P m) \<Longrightarrow> (\<not> b \<Longrightarrow> keeps P m') \<Longrightarrow> keeps P (if b then m else m')"
  by simp

lemma keeps_let [keeps_intros]: "keeps P (f v) \<Longrightarrow> keeps P (let x = v in f x)"
  by simp

lemma keeps_case_option [keeps_intros]:
  "(x = None \<Longrightarrow> keeps P m) \<Longrightarrow> (\<And>a. x = Some a \<Longrightarrow> keeps P (f a)) \<Longrightarrow>
   keeps P (case x of None \<Rightarrow> m | Some a \<Rightarrow> f a)"
  by (cases x) simp_all

lemma keeps_case_sum [keeps_intros]:
  "(\<And>a. x = Inl a \<Longrightarrow> keeps P (g a)) \<Longrightarrow> (\<And>a. x = Inr a \<Longrightarrow> keeps P (f a)) \<Longrightarrow>
   keeps P (case x of Inl a \<Rightarrow> g a | Inr a \<Rightarrow> f a)"
  by (cases x) simp_all

lemma keeps_case_prod [keeps_intros]:
  "(\<And>a b. x = (a, b) \<Longrightarrow> keeps P (f a b)) \<Longrightarrow> keeps P (case x of (a, b) \<Rightarrow> f a b)"
  by (cases x) simp

lemma keeps_case_list [keeps_intros]:
  "(xs = [] \<Longrightarrow> keeps P m) \<Longrightarrow> (\<And>y ys. xs = y # ys \<Longrightarrow> keeps P (f y ys)) \<Longrightarrow>
   keeps P (case xs of [] \<Rightarrow> m | y # ys \<Rightarrow> f y ys)"
  by (cases xs) simp_all

lemma keeps_read:
  "(\<And>c w. P c \<Longrightarrow> wp (g (f c)) (\<lambda>r s'. P (fst s')) (c, w)) \<Longrightarrow> keeps P (bindE (obj f) g)"
  by (simp add: keeps_def wp_simps)

section \<open>Outcomes\<close>

text \<open>
  \<open>may E m\<close>: whenever \<open>m\<close> does not return, the way it ends is in \<open>E\<close>. It bounds what a
  program can throw; with \<open>E\<close> everything but \<open>OutOfFuel\<close> it says that the bounds of the loops
  suffice.
\<close>

named_theorems may_intros

definition may :: "exn set \<Rightarrow> ('s, 'a) prog \<Rightarrow> bool" where
  "may E m \<longleftrightarrow> (\<forall>s. wp m (\<lambda>r s'. \<forall>x. r = Inl x \<longrightarrow> x \<in> E) s)"

lemma mayI: "(\<And>s. wp m (\<lambda>r s'. \<forall>x. r = Inl x \<longrightarrow> x \<in> E) s) \<Longrightarrow> may E m"
  by (simp add: may_def)

lemma mayD: "may E m \<Longrightarrow> wp m (\<lambda>r s'. \<forall>x. r = Inl x \<longrightarrow> x \<in> E) s"
  by (simp add: may_def)

lemma may_run: "may E m \<Longrightarrow> m s = (Inl x, s') \<Longrightarrow> x \<in> E"
  using wp_run [OF mayD] by fastforce

lemma may_atomic [may_intros]: "may E (ret a)" "may E (obj f)" "may E (upd g)" "may E (gets f)" "may E (modify h)"
  by (simp_all add: may_def wp_simps)

lemma may_raise [may_intros]: "x \<in> E \<Longrightarrow> may E (raise x)"
  by (simp add: may_def wp_simps)

lemma may_bindE [may_intros]:
  assumes "may E m" and "\<And>a. may E (f a)"
  shows "may E (bindE m f)"
proof (rule mayI)
  fix s
  show "wp (bindE m f) (\<lambda>r s'. \<forall>x. r = Inl x \<longrightarrow> x \<in> E) s"
    unfolding wp_bindE by (rule wp_mono [OF mayD [OF assms(1)]]) (auto intro: mayD [OF assms(2)])
qed

lemma may_thenE [may_intros]: "may E m \<Longrightarrow> may E m' \<Longrightarrow> may E (thenE m m')"
  unfolding thenE_def by (rule may_bindE)

lemma may_catchWrap [may_intros]:
  assumes "may (E \<union> range WrapException) m" and "\<And>x. may E (h x)"
  shows "may E (catchWrap m h)"
proof (rule mayI)
  fix s
  show "wp (catchWrap m h) (\<lambda>r s'. \<forall>x. r = Inl x \<longrightarrow> x \<in> E) s"
    unfolding wp_catchWrap by (rule wp_mono [OF mayD [OF assms(1)]]) (auto intro: mayD [OF assms(2)])
qed

lemma may_world [may_intros]: "may E m \<Longrightarrow> may E (world m)"
  by (simp add: may_def wp_world)

lemma may_zoom [may_intros]: "may E m \<Longrightarrow> may E (zoom get put m)"
  by (simp add: may_def wp_zoom)

lemma may_on_object [may_intros]: "may E m \<Longrightarrow> may E (on_object v m)"
  by (rule mayI) (simp add: wp_on_object, rule wp_mono [OF mayD], simp_all)

lemma may_finallyE [may_intros]:
  assumes "may E m" and "may E d"
  shows "may E (finallyE m d)"
proof (rule mayI)
  fix s
  obtain r s' where m: "m s = (r, s')"
    by (cases "m s")
  note end_ret = mayD [OF may_thenE [OF assms(2) may_atomic(1)]]
  note end_raise = mayD [OF may_thenE [OF assms(2) may_raise]]
  show "wp (finallyE m d) (\<lambda>r s'. \<forall>x. r = Inl x \<longrightarrow> x \<in> E) s"
  proof (cases r)
    case (Inr a)
    then show ?thesis
      using end_ret [of a s'] by (simp add: wp_def finallyE_def m)
  next
    case (Inl x)
    then have x: "x \<in> E"
      using may_run [OF assms(1)] m by simp
    then show ?thesis
      using end_raise [OF x, of s'] Inl by (cases x) (simp_all add: wp_def finallyE_def m)
  qed
qed

lemma may_forE [may_intros]: "(\<And>x. x \<in> set xs \<Longrightarrow> may E (f x)) \<Longrightarrow> may E (forE xs f)"
  by (induction xs) (auto intro!: may_atomic may_thenE)

lemma may_if [may_intros]:
  "(b \<Longrightarrow> may E m) \<Longrightarrow> (\<not> b \<Longrightarrow> may E m') \<Longrightarrow> may E (if b then m else m')"
  by simp

lemma may_let [may_intros]: "may E (f v) \<Longrightarrow> may E (let x = v in f x)"
  by simp

lemma may_case_option [may_intros]:
  "(x = None \<Longrightarrow> may E m) \<Longrightarrow> (\<And>a. x = Some a \<Longrightarrow> may E (f a)) \<Longrightarrow> may E (case x of None \<Rightarrow> m | Some a \<Rightarrow> f a)"
  by (cases x) simp_all

lemma may_case_sum [may_intros]:
  "(\<And>a. x = Inl a \<Longrightarrow> may E (g a)) \<Longrightarrow> (\<And>a. x = Inr a \<Longrightarrow> may E (f a)) \<Longrightarrow>
   may E (case x of Inl a \<Rightarrow> g a | Inr a \<Rightarrow> f a)"
  by (cases x) simp_all

lemma may_case_prod [may_intros]:
  "(\<And>a b. x = (a, b) \<Longrightarrow> may E (f a b)) \<Longrightarrow> may E (case x of (a, b) \<Rightarrow> f a b)"
  by (cases x) simp

lemma may_case_list [may_intros]:
  "(xs = [] \<Longrightarrow> may E m) \<Longrightarrow> (\<And>y ys. xs = y # ys \<Longrightarrow> may E (f y ys)) \<Longrightarrow>
   may E (case xs of [] \<Rightarrow> m | y # ys \<Rightarrow> f y ys)"
  by (cases xs) simp_all

section \<open>Lists\<close>

text \<open>Positions of \<^verbatim>\<open>std::set::lower_bound\<close> and \<^verbatim>\<open>upper_bound\<close> are prefix lengths.\<close>

lemma takeWhile_length_le: "length (takeWhile P xs) \<le> length xs"
  by (induction xs) auto

lemma takeWhile_mono_length:
  "(\<And>x. P x \<Longrightarrow> Q x) \<Longrightarrow> length (takeWhile P xs) \<le> length (takeWhile Q xs)"
  by (induction xs) auto

lemma sum_list_map_filter_le:
  fixes f :: "'a \<Rightarrow> nat"
  shows "sum_list (map f (filter P xs)) \<le> sum_list (map f xs)"
  by (induction xs) auto

section \<open>Words\<close>

lemma unat_plus_one: "w \<noteq> - 1 \<Longrightarrow> unat (w + 1) = unat (w :: 'a :: len word) + 1"
  by (metis Suc_eq_plus1 add.commute add_eq_0_iff unatSuc)

lemma word_less_plus_one: "w \<noteq> - 1 \<Longrightarrow> w < (w + 1 :: 'a :: len word)"
  by (simp add: word_less_nat_alt unat_plus_one)

end
