(* ===== verification/Platform.thy ===== *)
theory Platform
  imports Prelude Complex_Main
begin

text \<open>
  Everything the program calls that is not part of the repository, as parameters: the
  protobuf runtime below the generated message classes (\<open>pb_runtime\<close>) and the operating
  system, the clock, the random source and the rounding of \<^verbatim>\<open>double\<close> arithmetic
  (\<open>env\<close>). Every model definition takes the record of the parameters it uses; a theorem
  that relies on the behaviour of one of them says so in a hypothesis.
\<close>

unbundle bit_operations_syntax

section \<open>Socket addresses\<close>

record sockaddr_in =
  sin_family :: int
  sin_port :: uint16
  sin_addr :: uint32

definition AF_INET :: int where "AF_INET = 2"
definition SOCK_STREAM :: int where "SOCK_STREAM = 1"
definition SOCK_DGRAM :: int where "SOCK_DGRAM = 2"
definition EINPROGRESS :: int where "EINPROGRESS = 115"
definition ETIMEDOUT :: int where "ETIMEDOUT = 110"
definition O_NONBLOCK :: int where "O_NONBLOCK = 2048"
definition O_DIRECT :: int where "O_DIRECT = 16384"

text \<open>Port numbers travel in network byte order; the host is little-endian.\<close>

definition htons :: "uint16 \<Rightarrow> uint16" where
  "htons w = push_bit 8 w OR drop_bit 8 w"

lemma htons_involution: "htons (htons w) = w"
  unfolding htons_def
  by (rule bit_word_eqI) (auto simp: bit_simps)

lemma htons_inj: "htons v = htons w \<longleftrightarrow> v = w"
  using htons_involution by metis

text \<open>A \<^verbatim>\<open>std::string\<close> read through \<^verbatim>\<open>c_str()\<close> ends at its first zero byte.\<close>

definition c_str :: "string \<Rightarrow> string" where
  "c_str s = takeWhile (\<lambda>c. c \<noteq> CHR 0x00) s"

section \<open>The protobuf runtime\<close>

text \<open>
  What \<^verbatim>\<open>msgtype.pb.cc\<close> calls of \<^verbatim>\<open>google::protobuf::internal\<close>: writers append
  the field to the output, sizes count bytes. A reader gives the value it leaves behind and
  the input after it, or \<open>None\<close> where the C++ pointer becomes null; the string reader may
  leave the string untouched. A submessage is given to its writer as its serialised bytes;
  \<open>ReadMessageBytes\<close> is the framing of \<^verbatim>\<open>ParseContext::ParseMessage\<close>, the bytes the submessage's
  parser sees and those after it, and \<open>UnknownFieldParse\<close> gives the bytes it keeps.
\<close>

record pb_runtime =
  WriteUInt32ToArray :: "nat \<Rightarrow> uint32 \<Rightarrow> bytes"
  WriteEnumToArray :: "nat \<Rightarrow> int \<Rightarrow> bytes"
  WriteBoolToArray :: "nat \<Rightarrow> bool \<Rightarrow> bytes"
  WriteStringMaybeAliased :: "nat \<Rightarrow> bytes \<Rightarrow> bytes"
  InternalWriteMessage :: "nat \<Rightarrow> bytes \<Rightarrow> bytes"
  UInt32SizePlusOne :: "uint32 \<Rightarrow> nat"
  EnumSize :: "int \<Rightarrow> nat"
  StringSize :: "bytes \<Rightarrow> nat"
  LengthDelimitedSize :: "nat \<Rightarrow> nat"
  ReadTag :: "bytes \<Rightarrow> uint32 \<times> bytes option"
  ReadVarint32 :: "bytes \<Rightarrow> uint32 \<times> bytes option"
  ReadVarint64 :: "bytes \<Rightarrow> uint64 \<times> bytes option"
  InlineGreedyStringParser :: "bytes \<Rightarrow> bytes option \<times> bytes option"
  ReadMessageBytes :: "bytes \<Rightarrow> bytes \<times> bytes option"
  VerifyUTF8 :: "bytes \<Rightarrow> bool"
  UnknownFieldParse :: "uint32 \<Rightarrow> bytes \<Rightarrow> bytes \<times> bytes option"

section \<open>The operating system, the clock and the random source\<close>

text \<open>
  A system call is a function of the world state \<open>'w\<close>; \<open>sys_errno\<close> reads the thread's
  \<^verbatim>\<open>errno\<close>. A call that may block gives \<open>None\<close> when it never returns. \<open>sys_garbage\<close> is
  the value an uninitialised object happens to hold, \<open>sys_rand\<close> is \<^verbatim>\<open>rand\<close>, and
  \<open>sys_thread\<close> gives the identifier of a newly started thread.
\<close>

record fd_sets =
  readfds :: "int list"
  writefds :: "int list"

record timeval =
  tv_sec :: int
  tv_usec :: int

record 'w env = pb_runtime +
  fp_round :: "real \<Rightarrow> real"
  inet_pton4 :: "string \<Rightarrow> uint32 option"
  inet_ntop4 :: "uint32 \<Rightarrow> string"
  sys_errno :: "'w \<Rightarrow> int"
  sys_set_errno :: "int \<Rightarrow> 'w \<Rightarrow> 'w"
  sys_now :: "'w \<Rightarrow> int \<times> 'w"
  sys_rand :: "'w \<Rightarrow> nat \<times> 'w"
  sys_garbage :: "'w \<Rightarrow> int \<times> 'w"
  sys_thread :: "'w \<Rightarrow> nat \<times> 'w"
  sys_socket :: "int \<Rightarrow> int \<Rightarrow> int \<Rightarrow> 'w \<Rightarrow> int \<times> 'w"
  sys_bind :: "int \<Rightarrow> sockaddr_in \<Rightarrow> 'w \<Rightarrow> int \<times> 'w"
  sys_listen :: "int \<Rightarrow> int \<Rightarrow> 'w \<Rightarrow> int \<times> 'w"
  sys_connect :: "int \<Rightarrow> sockaddr_in \<Rightarrow> 'w \<Rightarrow> int \<times> 'w"
  sys_accept :: "int \<Rightarrow> 'w \<Rightarrow> (int \<times> sockaddr_in) \<times> 'w"
  sys_write :: "int \<Rightarrow> bytes \<Rightarrow> 'w \<Rightarrow> int \<times> 'w"
  sys_read :: "int \<Rightarrow> nat \<Rightarrow> 'w \<Rightarrow> (int \<times> bytes) option \<times> 'w"
  sys_close :: "int \<Rightarrow> 'w \<Rightarrow> int \<times> 'w"
  sys_sendto :: "int \<Rightarrow> bytes \<Rightarrow> sockaddr_in \<Rightarrow> 'w \<Rightarrow> int \<times> 'w"
  sys_recvfrom :: "int \<Rightarrow> nat \<Rightarrow> 'w \<Rightarrow> (int \<times> bytes \<times> sockaddr_in) option \<times> 'w"
  sys_epoll_create :: "int \<Rightarrow> 'w \<Rightarrow> int \<times> 'w"
  sys_epoll_ctl :: "int \<Rightarrow> int \<Rightarrow> int \<Rightarrow> 'w \<Rightarrow> int \<times> 'w"
  sys_epoll_wait :: "int \<Rightarrow> int \<Rightarrow> int \<Rightarrow> 'w \<Rightarrow> int option \<times> 'w"
  sys_pipe :: "int \<Rightarrow> 'w \<Rightarrow> (int \<times> int \<times> int) \<times> 'w"
  sys_select :: "int \<Rightarrow> fd_sets \<Rightarrow> timeval option \<Rightarrow> 'w \<Rightarrow> (int \<times> fd_sets) option \<times> 'w"
  sys_fcntl_getfl :: "int \<Rightarrow> 'w \<Rightarrow> int \<times> 'w"
  sys_fcntl_setfl :: "int \<Rightarrow> int \<Rightarrow> 'w \<Rightarrow> int \<times> 'w"
  sys_so_error :: "int \<Rightarrow> 'w \<Rightarrow> (int \<times> int) \<times> 'w"
  sys_set_timeouts :: "int \<Rightarrow> timeval \<Rightarrow> 'w \<Rightarrow> int \<times> 'w"
  sys_peername :: "int \<Rightarrow> 'w \<Rightarrow> sockaddr_in \<times> 'w"
  sys_hostname :: "'w \<Rightarrow> string \<times> 'w"
  sys_sleep :: "int \<Rightarrow> 'w \<Rightarrow> 'w"

text \<open>A system call that always returns, and one that may not, as programs on the world.\<close>

definition call :: "('w \<Rightarrow> 'a \<times> 'w) \<Rightarrow> ('w, 'a) prog" where
  "call f w = (case f w of (a, w') \<Rightarrow> (Inr a, w'))"

definition call_blocking :: "('w \<Rightarrow> 'a option \<times> 'w) \<Rightarrow> ('w, 'a) prog" where
  "call_blocking f w =
     (case f w of (None, w') \<Rightarrow> (Inl Deadlock, w') | (Some a, w') \<Rightarrow> (Inr a, w'))"

lemma wp_call [wp_simps]:
  "wp (call f) Q w = (\<forall>a w'. f w = (a, w') \<longrightarrow> Q (Inr a) w')"
  by (simp add: wp_def call_def split: prod.split)

lemma wp_call_blocking [wp_simps]:
  "wp (call_blocking f) Q w =
     (\<forall>x w'. f w = (x, w') \<longrightarrow>
       (x = None \<longrightarrow> Q (Inl Deadlock) w') \<and> (\<forall>a. x = Some a \<longrightarrow> Q (Inr a) w'))"
  by (simp add: wp_def call_blocking_def split: prod.split option.split)

section \<open>Double arithmetic\<close>

text \<open>
  A \<^verbatim>\<open>double\<close> operation is the real operation followed by the platform's rounding
  \<open>fp_round\<close>. \<open>ieee_rounding\<close> states what IEEE 754 binary64 promises of it: rounding is
  monotone, leaves integers up to \<open>2 ^ 53\<close> unchanged, and errs by at most half a unit in
  the last place over the normal range.
\<close>

definition ieee_rounding :: "(real \<Rightarrow> real) \<Rightarrow> bool" where
  "ieee_rounding r \<longleftrightarrow>
     mono r \<and>
     (\<forall>i :: int. \<bar>i\<bar> \<le> 2 ^ 53 \<longrightarrow> r (of_int i) = of_int i) \<and>
     (\<forall>x. 1 / 2 ^ 1022 \<le> \<bar>x\<bar> \<and> \<bar>x\<bar> \<le> 2 ^ 1023 \<longrightarrow> \<bar>r x - x\<bar> \<le> \<bar>x\<bar> / 2 ^ 53)"

lemma ieee_roundingD:
  assumes "ieee_rounding r"
  shows ieee_mono: "x \<le> y \<Longrightarrow> r x \<le> r y"
    and ieee_int: "\<bar>i\<bar> \<le> 2 ^ 53 \<Longrightarrow> r (of_int i) = of_int i"
    and ieee_error: "1 / 2 ^ 1022 \<le> \<bar>x\<bar> \<Longrightarrow> \<bar>x\<bar> \<le> 2 ^ 1023 \<Longrightarrow> \<bar>r x - x\<bar> \<le> \<bar>x\<bar> / 2 ^ 53"
  using assms by (auto simp: ieee_rounding_def mono_def)

lemma ieee_rounding_exact: "ieee_rounding (\<lambda>x. x)"
  by (auto simp: ieee_rounding_def mono_def)

lemma ieee_nat:
  assumes "ieee_rounding r" and "n \<le> 2 ^ 53"
  shows "r (real n) = real n"
proof -
  have "\<bar>int n\<bar> \<le> 2 ^ 53"
    using assms(2) by (metis abs_of_nat of_nat_le_iff of_nat_numeral of_nat_power)
  then have "r (of_int (int n)) = of_int (int n)"
    by (rule ieee_int [OF assms(1)])
  then show ?thesis by simp
qed

text \<open>Conversion of a \<^verbatim>\<open>double\<close> to an integer type truncates; out of range it is undefined.\<close>

definition trunc_real :: "real \<Rightarrow> int" where
  "trunc_real x = (if 0 \<le> x then \<lfloor>x\<rfloor> else \<lceil>x\<rceil>)"

definition double_to_int64 :: "real \<Rightarrow> exn + int" where
  "double_to_int64 x =
     (if INT64_MIN \<le> trunc_real x \<and> trunc_real x \<le> INT64_MAX then Inr (trunc_real x) else Inl Undefined)"

definition double_to_uint32 :: "real \<Rightarrow> exn + uint32" where
  "double_to_uint32 x =
     (if 0 \<le> trunc_real x \<and> trunc_real x < 2 ^ 32 then Inr (word_of_int (trunc_real x)) else Inl Undefined)"

lemma trunc_real_mono: "x \<le> y \<Longrightarrow> trunc_real x \<le> trunc_real y"
proof (cases "0 \<le> x \<or> y < 0")
  case True
  then show "x \<le> y \<Longrightarrow> trunc_real x \<le> trunc_real y"
    by (auto simp: trunc_real_def intro: floor_mono ceiling_mono)
next
  case False
  then have "\<lceil>x\<rceil> \<le> 0" and "0 \<le> \<lfloor>y\<rfloor>"
    by simp_all
  then have "\<lceil>x\<rceil> \<le> \<lfloor>y\<rfloor>"
    by (rule order_trans)
  with False show "x \<le> y \<Longrightarrow> trunc_real x \<le> trunc_real y"
    unfolding trunc_real_def by auto
qed

lemma trunc_real_of_int [simp]: "trunc_real (of_int i) = i"
  by (simp add: trunc_real_def)

end
