(* ===== verification/Messages.thy ===== *)
theory Messages
  imports Platform
begin

text \<open>
  The protobuf messages of \<^verbatim>\<open>type/msgtype.proto\<close> as the generated classes of
  \<^verbatim>\<open>msgtype.pb.h\<close> hold them, their \<^verbatim>\<open>oneof\<close> accessors, and the constructors of
  \<^verbatim>\<open>type/genmsg.cpp\<close>. A proto3 enum is open: a field holds any 32-bit number, so enums
  are integers with named values. Every message carries the bytes of the unknown fields
  it was parsed with.
\<close>

section \<open>Enums\<close>

abbreviation pingMsg :: int where "pingMsg \<equiv> 0"
abbreviation indirectPingMsg :: int where "indirectPingMsg \<equiv> 1"
abbreviation ackRespMsg :: int where "ackRespMsg \<equiv> 2"
abbreviation nackRespMsg :: int where "nackRespMsg \<equiv> 3"
abbreviation pushPullMsg :: int where "pushPullMsg \<equiv> 4"
abbreviation compoundBroad :: int where "compoundBroad \<equiv> 5"
abbreviation userMsg :: int where "userMsg \<equiv> 6"
abbreviation errMsg :: int where "errMsg \<equiv> 7"

abbreviation aliveMsg :: int where "aliveMsg \<equiv> 0"
abbreviation deadMsg :: int where "deadMsg \<equiv> 1"
abbreviation suspectMsg :: int where "suspectMsg \<equiv> 2"

abbreviation PushStateAlive :: int where "PushStateAlive \<equiv> 0"
abbreviation PushStateSuspect :: int where "PushStateSuspect \<equiv> 1"
abbreviation PushStateDead :: int where "PushStateDead \<equiv> 2"
abbreviation PushStateLeft :: int where "PushStateLeft \<equiv> 3"

section \<open>Messages\<close>

record pb_message =
  unknown_fields :: bytes

record Ping = pb_message +
  ping_seqno :: uint32
  ping_node :: string
  ping_sourceaddr :: string
  ping_sourceport :: uint32
  ping_sourcenode :: string

record IndirectPing = pb_message +
  iping_seqno :: uint32
  iping_node :: string
  iping_targetaddr :: string
  iping_targetport :: uint32
  iping_nack :: bool
  iping_sourceaddr :: string
  iping_sourceport :: uint32
  iping_sourcenode :: string

record AckResp = pb_message +
  ack_seqno :: uint32

record NackResp = pb_message +
  nack_seqno :: uint32

record ErrResp = pb_message +
  err_error :: string

record Suspect = pb_message +
  suspect_incarnation :: uint32
  suspect_node :: string
  suspect_from :: string

record Alive = pb_message +
  alive_incarnation :: uint32
  alive_node :: string
  alive_addr :: string
  alive_port :: uint32

record Dead = pb_message +
  dead_incarnation :: uint32
  dead_node :: string
  dead_from :: string

record PushNodeState = pb_message +
  pns_name :: string
  pns_addr :: string
  pns_port :: uint32
  pns_incarnation :: uint32
  pns_state :: int

record PushPull = pb_message +
  pp_join :: bool
  pp_states :: "PushNodeState list"

record User = pb_message +
  user_msg :: string

datatype Content = ContentAlive Alive | ContentDead Dead | ContentSuspect Suspect

record Broadcast = pb_message +
  bc_type :: int
  bc_content :: "Content option"

record ComBroadcast = pb_message +
  cbc_bs :: "Broadcast list"

datatype Body =
    BodyPing Ping
  | BodyIndirectPing IndirectPing
  | BodyAckResp AckResp
  | BodyNackResp NackResp
  | BodyPushPull PushPull
  | BodyComBroadcast ComBroadcast
  | BodyUser User
  | BodyErrResp ErrResp

record MessageData = pb_message +
  md_head :: int
  md_body :: "Body option"

record Compound = pb_message +
  cd_mds :: "MessageData list"

section \<open>Default instances\<close>

definition Ping0 :: Ping where
  "Ping0 = \<lparr>unknown_fields = [], ping_seqno = 0, ping_node = [], ping_sourceaddr = [],
     ping_sourceport = 0, ping_sourcenode = []\<rparr>"

definition IndirectPing0 :: IndirectPing where
  "IndirectPing0 = \<lparr>unknown_fields = [], iping_seqno = 0, iping_node = [], iping_targetaddr = [],
     iping_targetport = 0, iping_nack = False, iping_sourceaddr = [], iping_sourceport = 0,
     iping_sourcenode = []\<rparr>"

definition AckResp0 :: AckResp where
  "AckResp0 = \<lparr>unknown_fields = [], ack_seqno = 0\<rparr>"

definition NackResp0 :: NackResp where
  "NackResp0 = \<lparr>unknown_fields = [], nack_seqno = 0\<rparr>"

definition ErrResp0 :: ErrResp where
  "ErrResp0 = \<lparr>unknown_fields = [], err_error = []\<rparr>"

definition Suspect0 :: Suspect where
  "Suspect0 = \<lparr>unknown_fields = [], suspect_incarnation = 0, suspect_node = [], suspect_from = []\<rparr>"

definition Alive0 :: Alive where
  "Alive0 = \<lparr>unknown_fields = [], alive_incarnation = 0, alive_node = [], alive_addr = [], alive_port = 0\<rparr>"

definition Dead0 :: Dead where
  "Dead0 = \<lparr>unknown_fields = [], dead_incarnation = 0, dead_node = [], dead_from = []\<rparr>"

definition PushNodeState0 :: PushNodeState where
  "PushNodeState0 = \<lparr>unknown_fields = [], pns_name = [], pns_addr = [], pns_port = 0,
     pns_incarnation = 0, pns_state = PushStateAlive\<rparr>"

definition PushPull0 :: PushPull where
  "PushPull0 = \<lparr>unknown_fields = [], pp_join = False, pp_states = []\<rparr>"

definition User0 :: User where
  "User0 = \<lparr>unknown_fields = [], user_msg = []\<rparr>"

definition Broadcast0 :: Broadcast where
  "Broadcast0 = \<lparr>unknown_fields = [], bc_type = aliveMsg, bc_content = None\<rparr>"

definition ComBroadcast0 :: ComBroadcast where
  "ComBroadcast0 = \<lparr>unknown_fields = [], cbc_bs = []\<rparr>"

definition MessageData0 :: MessageData where
  "MessageData0 = \<lparr>unknown_fields = [], md_head = pingMsg, md_body = None\<rparr>"

definition Compound0 :: Compound where
  "Compound0 = \<lparr>unknown_fields = [], cd_mds = []\<rparr>"

lemmas default_defs = Ping0_def IndirectPing0_def AckResp0_def NackResp0_def ErrResp0_def
  Suspect0_def Alive0_def Dead0_def PushNodeState0_def PushPull0_def User0_def Broadcast0_def
  ComBroadcast0_def MessageData0_def Compound0_def

section \<open>Reading a \<^verbatim>\<open>oneof\<close>\<close>

text \<open>The accessor of a member that is not the one set returns the default instance.\<close>

definition bc_alive :: "Broadcast \<Rightarrow> Alive" where
  "bc_alive b = (case bc_content b of Some (ContentAlive a) \<Rightarrow> a | _ \<Rightarrow> Alive0)"

definition bc_dead :: "Broadcast \<Rightarrow> Dead" where
  "bc_dead b = (case bc_content b of Some (ContentDead d) \<Rightarrow> d | _ \<Rightarrow> Dead0)"

definition bc_suspect :: "Broadcast \<Rightarrow> Suspect" where
  "bc_suspect b = (case bc_content b of Some (ContentSuspect s) \<Rightarrow> s | _ \<Rightarrow> Suspect0)"

definition md_ping :: "MessageData \<Rightarrow> Ping" where
  "md_ping m = (case md_body m of Some (BodyPing p) \<Rightarrow> p | _ \<Rightarrow> Ping0)"

definition md_indirectping :: "MessageData \<Rightarrow> IndirectPing" where
  "md_indirectping m = (case md_body m of Some (BodyIndirectPing p) \<Rightarrow> p | _ \<Rightarrow> IndirectPing0)"

definition md_ackresp :: "MessageData \<Rightarrow> AckResp" where
  "md_ackresp m = (case md_body m of Some (BodyAckResp p) \<Rightarrow> p | _ \<Rightarrow> AckResp0)"

definition md_nackresp :: "MessageData \<Rightarrow> NackResp" where
  "md_nackresp m = (case md_body m of Some (BodyNackResp p) \<Rightarrow> p | _ \<Rightarrow> NackResp0)"

definition md_pushpull :: "MessageData \<Rightarrow> PushPull" where
  "md_pushpull m = (case md_body m of Some (BodyPushPull p) \<Rightarrow> p | _ \<Rightarrow> PushPull0)"

definition md_combroadcast :: "MessageData \<Rightarrow> ComBroadcast" where
  "md_combroadcast m = (case md_body m of Some (BodyComBroadcast p) \<Rightarrow> p | _ \<Rightarrow> ComBroadcast0)"

definition md_user :: "MessageData \<Rightarrow> User" where
  "md_user m = (case md_body m of Some (BodyUser p) \<Rightarrow> p | _ \<Rightarrow> User0)"

definition md_errresp :: "MessageData \<Rightarrow> ErrResp" where
  "md_errresp m = (case md_body m of Some (BodyErrResp p) \<Rightarrow> p | _ \<Rightarrow> ErrResp0)"

lemmas oneof_defs = bc_alive_def bc_dead_def bc_suspect_def md_ping_def md_indirectping_def
  md_ackresp_def md_nackresp_def md_pushpull_def md_combroadcast_def md_user_def md_errresp_def

section \<open>Building messages: \<^verbatim>\<open>genmsg.cpp\<close>\<close>

definition addMessage :: "Compound \<Rightarrow> MessageData \<Rightarrow> Compound" where
  "addMessage cd md = cd\<lparr>cd_mds := cd_mds cd @ [md]\<rparr>"

definition genPing :: "uint32 \<Rightarrow> string \<Rightarrow> string \<Rightarrow> uint32 \<Rightarrow> string \<Rightarrow> MessageData" where
  "genPing seqno node sourceaddr sourceport sourcenode =
     MessageData0\<lparr>md_head := pingMsg,
       md_body := Some (BodyPing (Ping0\<lparr>ping_seqno := seqno, ping_node := node,
         ping_sourceaddr := sourceaddr, ping_sourceport := sourceport,
         ping_sourcenode := sourcenode\<rparr>))\<rparr>"

definition genIndirectPing ::
  "uint32 \<Rightarrow> string \<Rightarrow> string \<Rightarrow> uint32 \<Rightarrow> bool \<Rightarrow> string \<Rightarrow> uint32 \<Rightarrow> string \<Rightarrow> MessageData" where
  "genIndirectPing seqno node targetaddr targetport nack sourceaddr sourceport sourcenode =
     MessageData0\<lparr>md_head := indirectPingMsg,
       md_body := Some (BodyIndirectPing (IndirectPing0\<lparr>iping_seqno := seqno, iping_node := node,
         iping_targetaddr := targetaddr, iping_targetport := targetport, iping_nack := nack,
         iping_sourceaddr := sourceaddr, iping_sourceport := sourceport,
         iping_sourcenode := sourcenode\<rparr>))\<rparr>"

definition genAckResp :: "uint32 \<Rightarrow> MessageData" where
  "genAckResp seqno = MessageData0\<lparr>md_head := ackRespMsg,
     md_body := Some (BodyAckResp (AckResp0\<lparr>ack_seqno := seqno\<rparr>))\<rparr>"

definition genNackResp :: "uint32 \<Rightarrow> MessageData" where
  "genNackResp seqno = MessageData0\<lparr>md_head := nackRespMsg,
     md_body := Some (BodyNackResp (NackResp0\<lparr>nack_seqno := seqno\<rparr>))\<rparr>"

definition genErrResp :: "string \<Rightarrow> MessageData" where
  "genErrResp error = MessageData0\<lparr>md_head := errMsg,
     md_body := Some (BodyErrResp (ErrResp0\<lparr>err_error := error\<rparr>))\<rparr>"

definition genUser :: "string \<Rightarrow> MessageData" where
  "genUser msg = MessageData0\<lparr>md_head := userMsg,
     md_body := Some (BodyUser (User0\<lparr>user_msg := msg\<rparr>))\<rparr>"

definition genComMsg :: "ComBroadcast \<Rightarrow> MessageData" where
  "genComMsg cbc = MessageData0\<lparr>md_head := compoundBroad, md_body := Some (BodyComBroadcast cbc)\<rparr>"

definition addBroadCast :: "ComBroadcast \<Rightarrow> Broadcast \<Rightarrow> ComBroadcast" where
  "addBroadCast cbc bc = cbc\<lparr>cbc_bs := cbc_bs cbc @ [bc]\<rparr>"

definition getSuspect :: "uint32 \<Rightarrow> string \<Rightarrow> string \<Rightarrow> Suspect" where
  "getSuspect incarnation node from =
     Suspect0\<lparr>suspect_incarnation := incarnation, suspect_node := node, suspect_from := from\<rparr>"

definition getAlive :: "uint32 \<Rightarrow> string \<Rightarrow> string \<Rightarrow> uint32 \<Rightarrow> Alive" where
  "getAlive incarnation node addr port =
     Alive0\<lparr>alive_incarnation := incarnation, alive_node := node, alive_addr := addr, alive_port := port\<rparr>"

definition getDead :: "uint32 \<Rightarrow> string \<Rightarrow> string \<Rightarrow> Dead" where
  "getDead incarnation node from =
     Dead0\<lparr>dead_incarnation := incarnation, dead_node := node, dead_from := from\<rparr>"

text \<open>The two overloads: from the fields, and from a message (suffix \<open>'\<close>).\<close>

definition genSuspectBroadcast' :: "Suspect \<Rightarrow> Broadcast" where
  "genSuspectBroadcast' s = Broadcast0\<lparr>bc_type := suspectMsg, bc_content := Some (ContentSuspect s)\<rparr>"

definition genSuspectBroadcast :: "uint32 \<Rightarrow> string \<Rightarrow> string \<Rightarrow> Broadcast" where
  "genSuspectBroadcast incarnation node from =
     Broadcast0\<lparr>bc_type := suspectMsg, bc_content := Some (ContentSuspect
       (Suspect0\<lparr>suspect_incarnation := incarnation, suspect_node := node, suspect_from := from\<rparr>))\<rparr>"

definition genAliveBroadcast' :: "Alive \<Rightarrow> Broadcast" where
  "genAliveBroadcast' a = Broadcast0\<lparr>bc_type := aliveMsg, bc_content := Some (ContentAlive a)\<rparr>"

definition genAliveBroadcast :: "uint32 \<Rightarrow> string \<Rightarrow> string \<Rightarrow> uint32 \<Rightarrow> Broadcast" where
  "genAliveBroadcast incarnation node addr port =
     Broadcast0\<lparr>bc_type := aliveMsg, bc_content := Some (ContentAlive
       (Alive0\<lparr>alive_incarnation := incarnation, alive_node := node, alive_addr := addr,
         alive_port := port\<rparr>))\<rparr>"

definition genDeadBroadcast' :: "Dead \<Rightarrow> Broadcast" where
  "genDeadBroadcast' d = Broadcast0\<lparr>bc_type := deadMsg, bc_content := Some (ContentDead d)\<rparr>"

definition genDeadBroadcast :: "uint32 \<Rightarrow> string \<Rightarrow> string \<Rightarrow> Broadcast" where
  "genDeadBroadcast incarnation node from =
     Broadcast0\<lparr>bc_type := deadMsg, bc_content := Some (ContentDead
       (Dead0\<lparr>dead_incarnation := incarnation, dead_node := node, dead_from := from\<rparr>))\<rparr>"

definition genSuspectMsg :: "uint32 \<Rightarrow> string \<Rightarrow> string \<Rightarrow> MessageData" where
  "genSuspectMsg incarnation node from =
     genComMsg (addBroadCast ComBroadcast0 (genSuspectBroadcast incarnation node from))"

definition genSuspectMsg' :: "Suspect \<Rightarrow> MessageData" where
  "genSuspectMsg' s = genComMsg (addBroadCast ComBroadcast0 (genSuspectBroadcast' s))"

definition genDeadMsg :: "uint32 \<Rightarrow> string \<Rightarrow> string \<Rightarrow> MessageData" where
  "genDeadMsg incarnation node from =
     genComMsg (addBroadCast ComBroadcast0 (genDeadBroadcast incarnation node from))"

definition genDeadMsg' :: "Dead \<Rightarrow> MessageData" where
  "genDeadMsg' d = genComMsg (addBroadCast ComBroadcast0 (genDeadBroadcast' d))"

definition genAliveMsg :: "uint32 \<Rightarrow> string \<Rightarrow> string \<Rightarrow> uint32 \<Rightarrow> MessageData" where
  "genAliveMsg incarnation node addr port =
     genComMsg (addBroadCast ComBroadcast0 (genAliveBroadcast incarnation node addr port))"

definition genAliveMsg' :: "Alive \<Rightarrow> MessageData" where
  "genAliveMsg' a = genComMsg (addBroadCast ComBroadcast0 (genAliveBroadcast' a))"

definition genPushPull :: "bool \<Rightarrow> MessageData" where
  "genPushPull join = MessageData0\<lparr>md_head := pushPullMsg,
     md_body := Some (BodyPushPull (PushPull0\<lparr>pp_join := join\<rparr>))\<rparr>"

text \<open>
  \<^verbatim>\<open>md.mutable_pushpull()\<close> keeps a push-pull body and replaces any other by a default one.
\<close>

definition addPushNodeState ::
  "MessageData \<Rightarrow> string \<Rightarrow> string \<Rightarrow> uint32 \<Rightarrow> uint32 \<Rightarrow> int \<Rightarrow> MessageData" where
  "addPushNodeState md name addr port incarnation state =
     (let p = md_pushpull md;
          nd = PushNodeState0\<lparr>pns_name := name, pns_addr := addr, pns_port := port,
            pns_incarnation := incarnation, pns_state := state\<rparr>
      in md\<lparr>md_body := Some (BodyPushPull (p\<lparr>pp_states := pp_states p @ [nd]\<rparr>))\<rparr>)"

lemmas gen_broadcast_defs = genSuspectBroadcast_def genSuspectBroadcast'_def genAliveBroadcast_def
  genAliveBroadcast'_def genDeadBroadcast_def genDeadBroadcast'_def

text \<open>Reading back what was built.\<close>

lemma gen_broadcast_content [simp]:
  "bc_suspect (genSuspectBroadcast' s) = s"
  "bc_alive (genAliveBroadcast' a) = a"
  "bc_dead (genDeadBroadcast' d) = d"
  "bc_suspect (genSuspectBroadcast i n f) = getSuspect i n f"
  "bc_alive (genAliveBroadcast i n ad p) = getAlive i n ad p"
  "bc_dead (genDeadBroadcast i n f) = getDead i n f"
  by (simp_all add: gen_broadcast_defs oneof_defs Broadcast0_def getSuspect_def getAlive_def getDead_def)

lemma gen_broadcast_type [simp]:
  "bc_type (genSuspectBroadcast' s) = suspectMsg"
  "bc_type (genAliveBroadcast' a) = aliveMsg"
  "bc_type (genDeadBroadcast' d) = deadMsg"
  "bc_type (genSuspectBroadcast i n f) = suspectMsg"
  "bc_type (genAliveBroadcast i n ad p) = aliveMsg"
  "bc_type (genDeadBroadcast i n f) = deadMsg"
  by (simp_all add: gen_broadcast_defs Broadcast0_def)

lemma get_sel [simp]:
  "suspect_incarnation (getSuspect i n f) = i" "suspect_node (getSuspect i n f) = n"
  "suspect_from (getSuspect i n f) = f"
  "alive_incarnation (getAlive i n a p) = i" "alive_node (getAlive i n a p) = n"
  "alive_addr (getAlive i n a p) = a" "alive_port (getAlive i n a p) = p"
  "dead_incarnation (getDead i n f) = i" "dead_node (getDead i n f) = n"
  "dead_from (getDead i n f) = f"
  by (simp_all add: getSuspect_def getAlive_def getDead_def)

end
