(* ===== verification/Wire.thy ===== *)
theory Wire
  imports Messages
begin

text \<open>
  The wire format: \<^verbatim>\<open>_InternalSerialize\<close> and \<^verbatim>\<open>ByteSizeLong\<close> of every generated class of
  \<^verbatim>\<open>type/msgtype.pb.cc\<close>, over the writers and sizes of the protobuf runtime. The locale
  \<open>pb_encoding\<close> states what the protocol buffer encoding documents of that runtime, the
  base-128 varint among it, and its interpretation is the encoding itself. Under it a
  message's computed size is the length of its serialisation.
\<close>

section \<open>The documented encoding\<close>

text \<open>A varint holds seven bits per byte, least significant first; the high bit says more follow.\<close>

fun varint :: "nat \<Rightarrow> bytes" where
  "varint n = (if n < 128 then [char_of n] else char_of (128 + n mod 128) # varint (n div 128))"

declare varint.simps [simp del]

text \<open>A negative enum number is sign-extended to 64 bits.\<close>

definition enum64 :: "int \<Rightarrow> nat" where
  "enum64 v = nat (v mod 2 ^ 64)"

definition field_tag :: "nat \<Rightarrow> nat \<Rightarrow> bytes" where
  "field_tag field wire_type = varint (8 * field + wire_type)"

definition delimited :: "bytes \<Rightarrow> bytes" where
  "delimited s = varint (length s) @ s"

locale pb_encoding =
  fixes rt :: "'r pb_runtime_scheme"
  assumes write_uint32: "WriteUInt32ToArray rt f v = field_tag f 0 @ varint (unat v)"
    and write_enum: "WriteEnumToArray rt f k = field_tag f 0 @ varint (enum64 k)"
    and write_bool: "WriteBoolToArray rt f b = field_tag f 0 @ varint (of_bool b)"
    and write_string: "WriteStringMaybeAliased rt f s = field_tag f 2 @ delimited s"
    and write_message: "InternalWriteMessage rt f s = field_tag f 2 @ delimited s"
    and size_uint32: "UInt32SizePlusOne rt v = 1 + length (varint (unat v))"
    and size_enum: "EnumSize rt k = length (varint (enum64 k))"
    and size_string: "StringSize rt s = length (delimited s)"
    and size_delimited: "LengthDelimitedSize rt len = length (varint len) + len"

lemma length_varint_small [simp]: "n < 128 \<Longrightarrow> length (varint n) = 1"
  by (simp add: varint.simps)

lemma length_field_tag [simp]: "8 * f + t < 128 \<Longrightarrow> length (field_tag f t) = 1"
  by (simp add: field_tag_def)

lemma length_delimited [simp]: "length (delimited s) = length (varint (length s)) + length s"
  by (simp add: delimited_def)

section \<open>Serialisation and sizes\<close>

text \<open>proto3 leaves out a scalar field that holds its default.\<close>

definition ser_uint32 :: "'r pb_runtime_scheme \<Rightarrow> nat \<Rightarrow> uint32 \<Rightarrow> bytes" where
  "ser_uint32 rt f v = (if v \<noteq> 0 then WriteUInt32ToArray rt f v else [])"

definition ser_string :: "'r pb_runtime_scheme \<Rightarrow> nat \<Rightarrow> string \<Rightarrow> bytes" where
  "ser_string rt f s = (if s \<noteq> [] then WriteStringMaybeAliased rt f s else [])"

definition ser_bool :: "'r pb_runtime_scheme \<Rightarrow> nat \<Rightarrow> bool \<Rightarrow> bytes" where
  "ser_bool rt f b = (if b then WriteBoolToArray rt f b else [])"

definition ser_enum :: "'r pb_runtime_scheme \<Rightarrow> nat \<Rightarrow> int \<Rightarrow> bytes" where
  "ser_enum rt f n = (if n \<noteq> 0 then WriteEnumToArray rt f n else [])"

definition size_field_uint32 :: "'r pb_runtime_scheme \<Rightarrow> uint32 \<Rightarrow> nat" where
  "size_field_uint32 rt v = (if v \<noteq> 0 then UInt32SizePlusOne rt v else 0)"

definition size_field_string :: "'r pb_runtime_scheme \<Rightarrow> string \<Rightarrow> nat" where
  "size_field_string rt s = (if s \<noteq> [] then 1 + StringSize rt s else 0)"

definition size_field_bool :: "bool \<Rightarrow> nat" where
  "size_field_bool b = (if b then 1 + 1 else 0)"

definition size_field_enum :: "'r pb_runtime_scheme \<Rightarrow> int \<Rightarrow> nat" where
  "size_field_enum rt n = (if n \<noteq> 0 then 1 + EnumSize rt n else 0)"

definition MessageSize :: "'r pb_runtime_scheme \<Rightarrow> nat \<Rightarrow> nat" where
  "MessageSize rt n = 1 + LengthDelimitedSize rt n"

definition Ping_InternalSerialize :: "'r pb_runtime_scheme \<Rightarrow> Ping \<Rightarrow> bytes" where
  "Ping_InternalSerialize rt p =
     ser_uint32 rt 1 (ping_seqno p) @ ser_string rt 2 (ping_node p) @
     ser_string rt 3 (ping_sourceaddr p) @ ser_uint32 rt 4 (ping_sourceport p) @
     ser_string rt 5 (ping_sourcenode p) @ unknown_fields p"

definition Ping_ByteSizeLong :: "'r pb_runtime_scheme \<Rightarrow> Ping \<Rightarrow> nat" where
  "Ping_ByteSizeLong rt p =
     size_field_string rt (ping_node p) + size_field_string rt (ping_sourceaddr p) +
     size_field_string rt (ping_sourcenode p) + size_field_uint32 rt (ping_seqno p) +
     size_field_uint32 rt (ping_sourceport p) + length (unknown_fields p)"

definition IndirectPing_InternalSerialize :: "'r pb_runtime_scheme \<Rightarrow> IndirectPing \<Rightarrow> bytes" where
  "IndirectPing_InternalSerialize rt p =
     ser_uint32 rt 1 (iping_seqno p) @ ser_string rt 2 (iping_node p) @
     ser_string rt 3 (iping_targetaddr p) @ ser_uint32 rt 4 (iping_targetport p) @
     ser_bool rt 5 (iping_nack p) @ ser_string rt 6 (iping_sourceaddr p) @
     ser_uint32 rt 7 (iping_sourceport p) @ ser_string rt 8 (iping_sourcenode p) @ unknown_fields p"

definition IndirectPing_ByteSizeLong :: "'r pb_runtime_scheme \<Rightarrow> IndirectPing \<Rightarrow> nat" where
  "IndirectPing_ByteSizeLong rt p =
     size_field_string rt (iping_node p) + size_field_string rt (iping_targetaddr p) +
     size_field_string rt (iping_sourceaddr p) + size_field_string rt (iping_sourcenode p) +
     size_field_uint32 rt (iping_seqno p) + size_field_uint32 rt (iping_targetport p) +
     size_field_bool (iping_nack p) + size_field_uint32 rt (iping_sourceport p) +
     length (unknown_fields p)"

definition AckResp_InternalSerialize :: "'r pb_runtime_scheme \<Rightarrow> AckResp \<Rightarrow> bytes" where
  "AckResp_InternalSerialize rt p = ser_uint32 rt 1 (ack_seqno p) @ unknown_fields p"

definition AckResp_ByteSizeLong :: "'r pb_runtime_scheme \<Rightarrow> AckResp \<Rightarrow> nat" where
  "AckResp_ByteSizeLong rt p = size_field_uint32 rt (ack_seqno p) + length (unknown_fields p)"

definition NackResp_InternalSerialize :: "'r pb_runtime_scheme \<Rightarrow> NackResp \<Rightarrow> bytes" where
  "NackResp_InternalSerialize rt p = ser_uint32 rt 1 (nack_seqno p) @ unknown_fields p"

definition NackResp_ByteSizeLong :: "'r pb_runtime_scheme \<Rightarrow> NackResp \<Rightarrow> nat" where
  "NackResp_ByteSizeLong rt p = size_field_uint32 rt (nack_seqno p) + length (unknown_fields p)"

definition ErrResp_InternalSerialize :: "'r pb_runtime_scheme \<Rightarrow> ErrResp \<Rightarrow> bytes" where
  "ErrResp_InternalSerialize rt p = ser_string rt 1 (err_error p) @ unknown_fields p"

definition ErrResp_ByteSizeLong :: "'r pb_runtime_scheme \<Rightarrow> ErrResp \<Rightarrow> nat" where
  "ErrResp_ByteSizeLong rt p = size_field_string rt (err_error p) + length (unknown_fields p)"

definition Suspect_InternalSerialize :: "'r pb_runtime_scheme \<Rightarrow> Suspect \<Rightarrow> bytes" where
  "Suspect_InternalSerialize rt p =
     ser_uint32 rt 1 (suspect_incarnation p) @ ser_string rt 2 (suspect_node p) @
     ser_string rt 3 (suspect_from p) @ unknown_fields p"

definition Suspect_ByteSizeLong :: "'r pb_runtime_scheme \<Rightarrow> Suspect \<Rightarrow> nat" where
  "Suspect_ByteSizeLong rt p =
     size_field_string rt (suspect_node p) + size_field_string rt (suspect_from p) +
     size_field_uint32 rt (suspect_incarnation p) + length (unknown_fields p)"

definition Alive_InternalSerialize :: "'r pb_runtime_scheme \<Rightarrow> Alive \<Rightarrow> bytes" where
  "Alive_InternalSerialize rt p =
     ser_uint32 rt 1 (alive_incarnation p) @ ser_string rt 2 (alive_node p) @
     ser_string rt 3 (alive_addr p) @ ser_uint32 rt 4 (alive_port p) @ unknown_fields p"

definition Alive_ByteSizeLong :: "'r pb_runtime_scheme \<Rightarrow> Alive \<Rightarrow> nat" where
  "Alive_ByteSizeLong rt p =
     size_field_string rt (alive_node p) + size_field_string rt (alive_addr p) +
     size_field_uint32 rt (alive_incarnation p) + size_field_uint32 rt (alive_port p) +
     length (unknown_fields p)"

definition Dead_InternalSerialize :: "'r pb_runtime_scheme \<Rightarrow> Dead \<Rightarrow> bytes" where
  "Dead_InternalSerialize rt p =
     ser_uint32 rt 1 (dead_incarnation p) @ ser_string rt 2 (dead_node p) @
     ser_string rt 3 (dead_from p) @ unknown_fields p"

definition Dead_ByteSizeLong :: "'r pb_runtime_scheme \<Rightarrow> Dead \<Rightarrow> nat" where
  "Dead_ByteSizeLong rt p =
     size_field_string rt (dead_node p) + size_field_string rt (dead_from p) +
     size_field_uint32 rt (dead_incarnation p) + length (unknown_fields p)"

definition PushNodeState_InternalSerialize :: "'r pb_runtime_scheme \<Rightarrow> PushNodeState \<Rightarrow> bytes" where
  "PushNodeState_InternalSerialize rt p =
     ser_string rt 1 (pns_name p) @ ser_string rt 2 (pns_addr p) @ ser_uint32 rt 3 (pns_port p) @
     ser_uint32 rt 4 (pns_incarnation p) @ ser_enum rt 5 (pns_state p) @ unknown_fields p"

definition PushNodeState_ByteSizeLong :: "'r pb_runtime_scheme \<Rightarrow> PushNodeState \<Rightarrow> nat" where
  "PushNodeState_ByteSizeLong rt p =
     size_field_string rt (pns_name p) + size_field_string rt (pns_addr p) +
     size_field_uint32 rt (pns_port p) + size_field_uint32 rt (pns_incarnation p) +
     size_field_enum rt (pns_state p) + length (unknown_fields p)"

definition PushPull_InternalSerialize :: "'r pb_runtime_scheme \<Rightarrow> PushPull \<Rightarrow> bytes" where
  "PushPull_InternalSerialize rt p =
     ser_bool rt 1 (pp_join p) @
     concat (map (\<lambda>s. InternalWriteMessage rt 2 (PushNodeState_InternalSerialize rt s)) (pp_states p)) @
     unknown_fields p"

definition PushPull_ByteSizeLong :: "'r pb_runtime_scheme \<Rightarrow> PushPull \<Rightarrow> nat" where
  "PushPull_ByteSizeLong rt p =
     sum_list (map (\<lambda>s. MessageSize rt (PushNodeState_ByteSizeLong rt s)) (pp_states p)) +
     size_field_bool (pp_join p) + length (unknown_fields p)"

definition User_InternalSerialize :: "'r pb_runtime_scheme \<Rightarrow> User \<Rightarrow> bytes" where
  "User_InternalSerialize rt p = ser_string rt 1 (user_msg p) @ unknown_fields p"

definition User_ByteSizeLong :: "'r pb_runtime_scheme \<Rightarrow> User \<Rightarrow> nat" where
  "User_ByteSizeLong rt p = size_field_string rt (user_msg p) + length (unknown_fields p)"

definition Broadcast_InternalSerialize :: "'r pb_runtime_scheme \<Rightarrow> Broadcast \<Rightarrow> bytes" where
  "Broadcast_InternalSerialize rt b =
     ser_enum rt 1 (bc_type b) @
     (case bc_content b of
        None \<Rightarrow> []
      | Some (ContentAlive a) \<Rightarrow> InternalWriteMessage rt 2 (Alive_InternalSerialize rt a)
      | Some (ContentDead d) \<Rightarrow> InternalWriteMessage rt 3 (Dead_InternalSerialize rt d)
      | Some (ContentSuspect s) \<Rightarrow> InternalWriteMessage rt 4 (Suspect_InternalSerialize rt s)) @
     unknown_fields b"

definition Broadcast_ByteSizeLong :: "'r pb_runtime_scheme \<Rightarrow> Broadcast \<Rightarrow> nat" where
  "Broadcast_ByteSizeLong rt b =
     size_field_enum rt (bc_type b) +
     (case bc_content b of
        None \<Rightarrow> 0
      | Some (ContentAlive a) \<Rightarrow> MessageSize rt (Alive_ByteSizeLong rt a)
      | Some (ContentDead d) \<Rightarrow> MessageSize rt (Dead_ByteSizeLong rt d)
      | Some (ContentSuspect s) \<Rightarrow> MessageSize rt (Suspect_ByteSizeLong rt s)) +
     length (unknown_fields b)"

definition ComBroadcast_InternalSerialize :: "'r pb_runtime_scheme \<Rightarrow> ComBroadcast \<Rightarrow> bytes" where
  "ComBroadcast_InternalSerialize rt c =
     concat (map (\<lambda>b. InternalWriteMessage rt 1 (Broadcast_InternalSerialize rt b)) (cbc_bs c)) @
     unknown_fields c"

definition ComBroadcast_ByteSizeLong :: "'r pb_runtime_scheme \<Rightarrow> ComBroadcast \<Rightarrow> nat" where
  "ComBroadcast_ByteSizeLong rt c =
     sum_list (map (\<lambda>b. MessageSize rt (Broadcast_ByteSizeLong rt b)) (cbc_bs c)) +
     length (unknown_fields c)"

definition MessageData_InternalSerialize :: "'r pb_runtime_scheme \<Rightarrow> MessageData \<Rightarrow> bytes" where
  "MessageData_InternalSerialize rt m =
     ser_enum rt 1 (md_head m) @
     (case md_body m of
        None \<Rightarrow> []
      | Some (BodyPing p) \<Rightarrow> InternalWriteMessage rt 2 (Ping_InternalSerialize rt p)
      | Some (BodyIndirectPing p) \<Rightarrow> InternalWriteMessage rt 3 (IndirectPing_InternalSerialize rt p)
      | Some (BodyAckResp p) \<Rightarrow> InternalWriteMessage rt 4 (AckResp_InternalSerialize rt p)
      | Some (BodyNackResp p) \<Rightarrow> InternalWriteMessage rt 5 (NackResp_InternalSerialize rt p)
      | Some (BodyPushPull p) \<Rightarrow> InternalWriteMessage rt 6 (PushPull_InternalSerialize rt p)
      | Some (BodyComBroadcast p) \<Rightarrow> InternalWriteMessage rt 7 (ComBroadcast_InternalSerialize rt p)
      | Some (BodyUser p) \<Rightarrow> InternalWriteMessage rt 8 (User_InternalSerialize rt p)
      | Some (BodyErrResp p) \<Rightarrow> InternalWriteMessage rt 9 (ErrResp_InternalSerialize rt p)) @
     unknown_fields m"

definition MessageData_ByteSizeLong :: "'r pb_runtime_scheme \<Rightarrow> MessageData \<Rightarrow> nat" where
  "MessageData_ByteSizeLong rt m =
     size_field_enum rt (md_head m) +
     (case md_body m of
        None \<Rightarrow> 0
      | Some (BodyPing p) \<Rightarrow> MessageSize rt (Ping_ByteSizeLong rt p)
      | Some (BodyIndirectPing p) \<Rightarrow> MessageSize rt (IndirectPing_ByteSizeLong rt p)
      | Some (BodyAckResp p) \<Rightarrow> MessageSize rt (AckResp_ByteSizeLong rt p)
      | Some (BodyNackResp p) \<Rightarrow> MessageSize rt (NackResp_ByteSizeLong rt p)
      | Some (BodyPushPull p) \<Rightarrow> MessageSize rt (PushPull_ByteSizeLong rt p)
      | Some (BodyComBroadcast p) \<Rightarrow> MessageSize rt (ComBroadcast_ByteSizeLong rt p)
      | Some (BodyUser p) \<Rightarrow> MessageSize rt (User_ByteSizeLong rt p)
      | Some (BodyErrResp p) \<Rightarrow> MessageSize rt (ErrResp_ByteSizeLong rt p)) +
     length (unknown_fields m)"

definition Compound_InternalSerialize :: "'r pb_runtime_scheme \<Rightarrow> Compound \<Rightarrow> bytes" where
  "Compound_InternalSerialize rt c =
     concat (map (\<lambda>m. InternalWriteMessage rt 1 (MessageData_InternalSerialize rt m)) (cd_mds c)) @
     unknown_fields c"

definition Compound_ByteSizeLong :: "'r pb_runtime_scheme \<Rightarrow> Compound \<Rightarrow> nat" where
  "Compound_ByteSizeLong rt c =
     sum_list (map (\<lambda>m. MessageSize rt (MessageData_ByteSizeLong rt m)) (cd_mds c)) +
     length (unknown_fields c)"

lemmas field_defs = ser_uint32_def ser_string_def ser_bool_def ser_enum_def size_field_uint32_def
  size_field_string_def size_field_bool_def size_field_enum_def

section \<open>A message's size is the length of its serialisation\<close>

context pb_encoding
begin

lemmas writes = write_uint32 write_enum write_bool write_string write_message

lemma length_ser_fields [simp]:
  "f < 15 \<Longrightarrow> length (ser_uint32 rt f v) = size_field_uint32 rt v"
  "f < 15 \<Longrightarrow> length (ser_string rt f s) = size_field_string rt s"
  "f < 15 \<Longrightarrow> length (ser_bool rt f b) = size_field_bool b"
  "f < 15 \<Longrightarrow> length (ser_enum rt f n) = size_field_enum rt n"
  by (simp_all add: field_defs writes size_uint32 size_enum size_string)

lemma length_write_message [simp]:
  "f < 15 \<Longrightarrow> length (InternalWriteMessage rt f s) = MessageSize rt (length s)"
  by (simp add: writes MessageSize_def size_delimited)

lemma length_write_repeated:
  "f < 15 \<Longrightarrow> (\<And>x. x \<in> set xs \<Longrightarrow> length (ser x) = sz x) \<Longrightarrow>
   length (concat (map (\<lambda>x. InternalWriteMessage rt f (ser x)) xs)) =
   sum_list (map (\<lambda>x. MessageSize rt (sz x)) xs)"
  by (induction xs) simp_all

lemma length_leaf [simp]:
  "length (Ping_InternalSerialize rt p1) = Ping_ByteSizeLong rt p1"
  "length (IndirectPing_InternalSerialize rt p2) = IndirectPing_ByteSizeLong rt p2"
  "length (AckResp_InternalSerialize rt p3) = AckResp_ByteSizeLong rt p3"
  "length (NackResp_InternalSerialize rt p4) = NackResp_ByteSizeLong rt p4"
  "length (ErrResp_InternalSerialize rt p5) = ErrResp_ByteSizeLong rt p5"
  "length (Suspect_InternalSerialize rt p6) = Suspect_ByteSizeLong rt p6"
  "length (Alive_InternalSerialize rt p7) = Alive_ByteSizeLong rt p7"
  "length (Dead_InternalSerialize rt p8) = Dead_ByteSizeLong rt p8"
  "length (PushNodeState_InternalSerialize rt p9) = PushNodeState_ByteSizeLong rt p9"
  "length (User_InternalSerialize rt p10) = User_ByteSizeLong rt p10"
  by (simp_all add: Ping_InternalSerialize_def Ping_ByteSizeLong_def
      IndirectPing_InternalSerialize_def IndirectPing_ByteSizeLong_def
      AckResp_InternalSerialize_def AckResp_ByteSizeLong_def
      NackResp_InternalSerialize_def NackResp_ByteSizeLong_def
      ErrResp_InternalSerialize_def ErrResp_ByteSizeLong_def
      Suspect_InternalSerialize_def Suspect_ByteSizeLong_def
      Alive_InternalSerialize_def Alive_ByteSizeLong_def
      Dead_InternalSerialize_def Dead_ByteSizeLong_def
      PushNodeState_InternalSerialize_def PushNodeState_ByteSizeLong_def
      User_InternalSerialize_def User_ByteSizeLong_def)

lemma length_PushPull [simp]:
  "length (PushPull_InternalSerialize rt p) = PushPull_ByteSizeLong rt p"
  by (simp add: PushPull_InternalSerialize_def PushPull_ByteSizeLong_def length_write_repeated)

lemma length_Broadcast [simp]:
  "length (Broadcast_InternalSerialize rt b) = Broadcast_ByteSizeLong rt b"
  by (simp add: Broadcast_InternalSerialize_def Broadcast_ByteSizeLong_def
      split: option.split Content.split)

lemma length_ComBroadcast [simp]:
  "length (ComBroadcast_InternalSerialize rt c) = ComBroadcast_ByteSizeLong rt c"
  by (simp add: ComBroadcast_InternalSerialize_def ComBroadcast_ByteSizeLong_def length_write_repeated)

lemma length_MessageData [simp]:
  "length (MessageData_InternalSerialize rt m) = MessageData_ByteSizeLong rt m"
  by (simp add: MessageData_InternalSerialize_def MessageData_ByteSizeLong_def
      split: option.split Body.split)

lemma length_Compound [simp]:
  "length (Compound_InternalSerialize rt c) = Compound_ByteSizeLong rt c"
  by (simp add: Compound_InternalSerialize_def Compound_ByteSizeLong_def length_write_repeated)

end

section \<open>The encoding as a runtime\<close>

text \<open>
  The documented encoding, written out: it satisfies the laws above and is what concrete
  examples are evaluated with. Readers accept varints of at most ten bytes.
\<close>

fun read_varint :: "nat \<Rightarrow> bytes \<Rightarrow> (nat \<times> bytes) option" where
  "read_varint 0 bs = None"
| "read_varint (Suc k) [] = None"
| "read_varint (Suc k) (c # bs) =
     (let b = of_char c :: nat
      in if b < 128 then Some (b, bs)
         else map_option (\<lambda>(v, r). (b - 128 + 128 * v, r)) (read_varint k bs))"

lemma read_varint_varint:
  "n < 128 ^ k \<Longrightarrow> 0 < k \<Longrightarrow> read_varint k (varint n @ rest) = Some (n, rest)"
proof (induction k arbitrary: n)
  case 0
  then show ?case by simp
next
  case (Suc k)
  show ?case
  proof (cases "n < 128")
    case True
    then show ?thesis by (subst varint.simps) simp
  next
    case False
    then have "n div 128 < 128 ^ k"
      using Suc.prems by (simp add: less_mult_imp_div_less mult.commute)
    moreover from this False have "0 < k"
      using Suc.prems by (cases k) auto
    ultimately have "read_varint k (varint (n div 128) @ rest) = Some (n div 128, rest)"
      by (rule Suc.IH)
    moreover have "of_char (char_of (128 + n mod 128) :: char) = 128 + n mod 128"
      by simp
    ultimately show ?thesis
      using False by (subst varint.simps) (simp add: Let_def)
  qed
qed

definition read_delimited :: "bytes \<Rightarrow> (bytes \<times> bytes) option" where
  "read_delimited bs =
     (case read_varint 5 bs of
        None \<Rightarrow> None
      | Some (n, r) \<Rightarrow> if n \<le> length r then Some (take n r, drop n r) else None)"

lemma read_delimited_delimited:
  "length s < 2 ^ 31 \<Longrightarrow> read_delimited (delimited s @ rest) = Some (s, rest)"
  by (simp add: read_delimited_def delimited_def read_varint_varint)

fun utf8_valid :: "nat list \<Rightarrow> bool" where
  "utf8_valid [] = True"
| "utf8_valid (a # s) =
     (if a < 128 then utf8_valid s
      else case s of [] \<Rightarrow> False | b # s1 \<Rightarrow>
        if 194 \<le> a \<and> a < 224 then 128 \<le> b \<and> b < 192 \<and> utf8_valid s1
        else case s1 of [] \<Rightarrow> False | c # s2 \<Rightarrow>
          if 224 \<le> a \<and> a < 240 then
            128 \<le> b \<and> b < 192 \<and> (a = 224 \<longrightarrow> 160 \<le> b) \<and> (a = 237 \<longrightarrow> b < 160) \<and>
            128 \<le> c \<and> c < 192 \<and> utf8_valid s2
          else case s2 of [] \<Rightarrow> False | d # s3 \<Rightarrow>
            240 \<le> a \<and> a < 245 \<and> 128 \<le> b \<and> b < 192 \<and> (a = 240 \<longrightarrow> 144 \<le> b) \<and>
            (a = 244 \<longrightarrow> b < 144) \<and> 128 \<le> c \<and> c < 192 \<and> 128 \<le> d \<and> d < 192 \<and> utf8_valid s3)"

definition read_fail :: "'v \<Rightarrow> ('v \<times> bytes) option \<Rightarrow> 'v \<times> bytes option" where
  "read_fail d x = (case x of None \<Rightarrow> (d, None) | Some (v, r) \<Rightarrow> (v, Some r))"

text \<open>A length beyond the end of the input lets the reader see what there is and then fail.\<close>

definition read_string :: "bytes \<Rightarrow> bytes option \<times> bytes option" where
  "read_string bs =
     (case read_varint 5 bs of
        None \<Rightarrow> (None, None)
      | Some (n, r) \<Rightarrow> (Some (take n r), if n \<le> length r then Some (drop n r) else None))"

definition read_frame :: "bytes \<Rightarrow> bytes \<times> bytes option" where
  "read_frame bs =
     (case read_varint 5 bs of
        None \<Rightarrow> ([], None)
      | Some (n, r) \<Rightarrow> (take n r, if n \<le> length r then Some (drop n r) else None))"

definition skip_field :: "uint32 \<Rightarrow> bytes \<Rightarrow> bytes \<times> bytes option" where
  "skip_field tag bs =
     (let wt = unat tag mod 8; tg = varint (unat tag);
          upto = (\<lambda>r. (tg @ take (length bs - length r) bs, Some r))
      in if wt = 0 then (case read_varint 10 bs of None \<Rightarrow> ([], None) | Some (_, r) \<Rightarrow> upto r)
         else if wt = 1 \<and> 8 \<le> length bs then upto (drop 8 bs)
         else if wt = 2 then (case read_delimited bs of None \<Rightarrow> ([], None) | Some (_, r) \<Rightarrow> upto r)
         else if wt = 5 \<and> 4 \<le> length bs then upto (drop 4 bs)
         else ([], None))"

definition std_runtime :: pb_runtime where
  "std_runtime =
     \<lparr>WriteUInt32ToArray = (\<lambda>f v. field_tag f 0 @ varint (unat v)),
      WriteEnumToArray = (\<lambda>f n. field_tag f 0 @ varint (enum64 n)),
      WriteBoolToArray = (\<lambda>f b. field_tag f 0 @ varint (of_bool b)),
      WriteStringMaybeAliased = (\<lambda>f s. field_tag f 2 @ delimited s),
      InternalWriteMessage = (\<lambda>f s. field_tag f 2 @ delimited s),
      UInt32SizePlusOne = (\<lambda>v. 1 + length (varint (unat v))),
      EnumSize = (\<lambda>n. length (varint (enum64 n))),
      StringSize = (\<lambda>s. length (delimited s)),
      LengthDelimitedSize = (\<lambda>n. length (varint n) + n),
      ReadTag = (\<lambda>bs. read_fail 0 (map_option (\<lambda>(v, r). (of_nat v, r)) (read_varint 5 bs))),
      ReadVarint32 = (\<lambda>bs. read_fail 0 (map_option (\<lambda>(v, r). (of_nat v, r)) (read_varint 10 bs))),
      ReadVarint64 = (\<lambda>bs. read_fail 0 (map_option (\<lambda>(v, r). (of_nat v, r)) (read_varint 10 bs))),
      InlineGreedyStringParser = read_string,
      ReadMessageBytes = read_frame,
      VerifyUTF8 = (\<lambda>s. utf8_valid (map of_char s)),
      UnknownFieldParse = skip_field\<rparr>"

interpretation std: pb_encoding std_runtime
  by unfold_locales (simp_all add: std_runtime_def)

text \<open>
  C39. The size a broadcast is queued with is the number of bytes it serialises to, and
  the same holds for whole packets: for every message and every runtime that follows the
  protobuf encoding, \<^verbatim>\<open>ByteSizeLong\<close> is the length of \<^verbatim>\<open>_InternalSerialize\<close>.
\<close>

theorem ByteSizeLong_is_length:
  assumes "pb_encoding rt"
  shows "length (Broadcast_InternalSerialize rt b) = Broadcast_ByteSizeLong rt b \<and>
     length (MessageData_InternalSerialize rt m) = MessageData_ByteSizeLong rt m \<and>
     length (Compound_InternalSerialize rt c) = Compound_ByteSizeLong rt c"
  using assms by (simp add: pb_encoding.length_Broadcast pb_encoding.length_MessageData
      pb_encoding.length_Compound)

theorem ByteSizeLong_is_length_witness:
  "length (Broadcast_InternalSerialize std_runtime Broadcast0) = Broadcast_ByteSizeLong std_runtime Broadcast0 \<and>
   length (MessageData_InternalSerialize std_runtime (genAckResp 300)) =
     MessageData_ByteSizeLong std_runtime (genAckResp 300) \<and>
   length (Compound_InternalSerialize std_runtime Compound0) = Compound_ByteSizeLong std_runtime Compound0"
  by (rule ByteSizeLong_is_length) (rule std.pb_encoding_axioms)

end
