(* ===== verification/Wrapped.thy ===== *)
theory Wrapped
  imports Platform
begin

text \<open>
  The system-call wrappers of \<^verbatim>\<open>mynet/wrapped.cpp\<close>: each calls the operating system and
  turns a negative result into a \<^verbatim>\<open>wrapException\<close> carrying \<^verbatim>\<open>errno\<close> (the macro
  \<^verbatim>\<open>TRACE\<close> is always defined). \<^verbatim>\<open>ConnectTimeout\<close> is the only one with logic of its own.
\<close>

section \<open>Throwing on a negative result\<close>

definition throwErrno :: "('w, 'e) env_scheme \<Rightarrow> ('w, 'a) prog" where
  "throwErrno e = bindE (gets (sys_errno e)) (\<lambda>n. raise (WrapException n))"

definition checked :: "('w, 'e) env_scheme \<Rightarrow> ('a \<Rightarrow> int) \<Rightarrow> ('w, 'a) prog \<Rightarrow> ('w, 'a) prog" where
  "checked e code m = bindE m (\<lambda>a. if code a < 0 then throwErrno e else ret a)"

lemma wp_throwErrno [wp_simps]:
  "wp (throwErrno e) Q w = Q (Inl (WrapException (sys_errno e w))) w"
  by (simp add: throwErrno_def wp_simps)

lemma wp_checked [wp_simps]:
  "wp (checked e code m) Q w =
     wp m (\<lambda>r w'. (\<forall>x. r = Inl x \<longrightarrow> Q (Inl x) w') \<and>
       (\<forall>a. r = Inr a \<longrightarrow> (code a < 0 \<longrightarrow> Q (Inl (WrapException (sys_errno e w'))) w') \<and>
         (\<not> code a < 0 \<longrightarrow> Q (Inr a) w'))) w"
  by (simp add: checked_def wp_simps)

section \<open>The wrappers\<close>

definition Socket :: "('w, 'e) env_scheme \<Rightarrow> int \<Rightarrow> int \<Rightarrow> int \<Rightarrow> ('w, int) prog" where
  "Socket e domain type protocol = checked e id (call (sys_socket e domain type protocol))"

definition Bind :: "('w, 'e) env_scheme \<Rightarrow> int \<Rightarrow> sockaddr_in \<Rightarrow> ('w, int) prog" where
  "Bind e fd addr = checked e id (call (sys_bind e fd addr))"

definition Listen :: "('w, 'e) env_scheme \<Rightarrow> int \<Rightarrow> int \<Rightarrow> ('w, int) prog" where
  "Listen e fd n = checked e id (call (sys_listen e fd n))"

definition Connect :: "('w, 'e) env_scheme \<Rightarrow> int \<Rightarrow> sockaddr_in \<Rightarrow> ('w, int) prog" where
  "Connect e fd addr = checked e id (call (sys_connect e fd addr))"

definition Accept :: "('w, 'e) env_scheme \<Rightarrow> int \<Rightarrow> ('w, int \<times> sockaddr_in) prog" where
  "Accept e fd = checked e fst (call (sys_accept e fd))"

definition Write :: "('w, 'e) env_scheme \<Rightarrow> int \<Rightarrow> bytes \<Rightarrow> ('w, int) prog" where
  "Write e fd buf = checked e id (call (sys_write e fd buf))"

definition Read :: "('w, 'e) env_scheme \<Rightarrow> int \<Rightarrow> nat \<Rightarrow> ('w, int \<times> bytes) prog" where
  "Read e fd n = checked e fst (call_blocking (sys_read e fd n))"

definition Close :: "('w, 'e) env_scheme \<Rightarrow> int \<Rightarrow> ('w, int) prog" where
  "Close e fd = checked e id (call (sys_close e fd))"

definition Sendto :: "('w, 'e) env_scheme \<Rightarrow> int \<Rightarrow> bytes \<Rightarrow> sockaddr_in \<Rightarrow> ('w, int) prog" where
  "Sendto e fd buf addr = checked e id (call (sys_sendto e fd buf addr))"

definition Recvfrom :: "('w, 'e) env_scheme \<Rightarrow> int \<Rightarrow> nat \<Rightarrow> ('w, int \<times> bytes \<times> sockaddr_in) prog" where
  "Recvfrom e fd n = checked e fst (call_blocking (sys_recvfrom e fd n))"

definition Epoll_create :: "('w, 'e) env_scheme \<Rightarrow> int \<Rightarrow> ('w, int) prog" where
  "Epoll_create e n = checked e id (call (sys_epoll_create e n))"

definition Epoll_ctl :: "('w, 'e) env_scheme \<Rightarrow> int \<Rightarrow> int \<Rightarrow> int \<Rightarrow> ('w, int) prog" where
  "Epoll_ctl e epfd op fd = checked e id (call (sys_epoll_ctl e epfd op fd))"

definition Epoll_wait :: "('w, 'e) env_scheme \<Rightarrow> int \<Rightarrow> int \<Rightarrow> int \<Rightarrow> ('w, int) prog" where
  "Epoll_wait e epfd maxevents timeout = checked e id (call_blocking (sys_epoll_wait e epfd maxevents timeout))"

text \<open>A pipe is its read end and its write end.\<close>

definition Pipe2 :: "('w, 'e) env_scheme \<Rightarrow> int \<Rightarrow> ('w, int \<times> int) prog" where
  "Pipe2 e flags = bindE (checked e fst (call (sys_pipe e flags))) (\<lambda>r. ret (snd r))"

definition Pipe :: "('w, 'e) env_scheme \<Rightarrow> ('w, int \<times> int) prog" where
  "Pipe e = bindE (checked e fst (call (sys_pipe e 0))) (\<lambda>r. ret (snd r))"

definition Select :: "('w, 'e) env_scheme \<Rightarrow> int \<Rightarrow> fd_sets \<Rightarrow> timeval option \<Rightarrow> ('w, int \<times> fd_sets) prog" where
  "Select e nfds fds timeout = checked e fst (call_blocking (sys_select e nfds fds timeout))"

lemmas wrapper_defs = Socket_def Bind_def Listen_def Connect_def Accept_def Write_def Read_def
  Close_def Sendto_def Recvfrom_def Pipe_def Pipe2_def Select_def

text \<open>
  \<^verbatim>\<open>struct timeval t; t.tv_usec = x;\<close>: the seconds keep the value the stack slot held.
\<close>

definition timeval_usec :: "('w, 'e) env_scheme \<Rightarrow> int \<Rightarrow> ('w, timeval) prog" where
  "timeval_usec e us = bindE (call (sys_garbage e)) (\<lambda>g. ret \<lparr>tv_sec = g, tv_usec = us\<rparr>)"

section \<open>Connecting with a timeout\<close>

text \<open>
  \<^verbatim>\<open>ConnectTimeout\<close>: connect in non-blocking mode, wait for the socket to become ready,
  read \<^verbatim>\<open>SO_ERROR\<close> and restore the flags. When \<^verbatim>\<open>connect\<close> succeeds at once the code
  jumps to \<^verbatim>\<open>done\<close> before \<^verbatim>\<open>error\<close> is assigned, so the test there reads garbage.
\<close>

definition connect_done :: "('w, 'e) env_scheme \<Rightarrow> int \<Rightarrow> int \<Rightarrow> int \<Rightarrow> ('w, unit) prog" where
  "connect_done e fd flags error =
     bindE (call (sys_fcntl_setfl e fd flags)) (\<lambda>_.
     if error \<noteq> 0 then
       bindE (call (sys_close e fd)) (\<lambda>_.
       thenE (modify (sys_set_errno e error)) (throwErrno e))
     else ret ())"

definition connect_wait :: "('w, 'e) env_scheme \<Rightarrow> int \<Rightarrow> int \<Rightarrow> uint32 \<Rightarrow> ('w, unit) prog" where
  "connect_wait e fd flags timeout =
     bindE (timeval_usec e (uint timeout)) (\<lambda>connecttimeout.
     bindE (Select e (fd + 1) \<lparr>readfds = [fd], writefds = [fd]\<rparr> (Some connecttimeout)) (\<lambda>(n, sets).
     if n = 0 then
       bindE (Close e fd) (\<lambda>_.
       thenE (modify (sys_set_errno e ETIMEDOUT)) (throwErrno e))
     else if fd \<in> set (readfds sets) \<or> fd \<in> set (writefds sets) then
       bindE (checked e fst (call (sys_so_error e fd))) (\<lambda>(_, error).
       connect_done e fd flags error)
     else connect_done e fd flags 0))"

definition ConnectTimeout ::
  "('w, 'e) env_scheme \<Rightarrow> int \<Rightarrow> sockaddr_in \<Rightarrow> uint32 \<Rightarrow> ('w, unit) prog" where
  "ConnectTimeout e fd addr timeout =
     bindE (call (sys_garbage e)) (\<lambda>error.
     bindE (call (sys_fcntl_getfl e fd)) (\<lambda>flags.
     bindE (call (sys_fcntl_setfl e fd (or flags O_NONBLOCK))) (\<lambda>_.
     bindE (call (sys_connect e fd addr)) (\<lambda>n.
     bindE (gets (sys_errno e)) (\<lambda>err.
     if n < 0 \<and> err \<noteq> EINPROGRESS then throwErrno e
     else if n = 0 then connect_done e fd flags error
     else connect_wait e fd flags timeout)))))"

section \<open>What the wrappers guarantee\<close>

text \<open>
  The contract the callers rely on: a wrapper either returns a non-negative result, or
  throws exactly a \<^verbatim>\<open>wrapException\<close> with the world's \<^verbatim>\<open>errno\<close>.
\<close>

locale throwing_call =
  fixes e :: "('w, 'e) env_scheme" and code :: "'a \<Rightarrow> int" and m :: "('w, 'a) prog"
  assumes outcome: "m w = (r, w') \<Longrightarrow>
     (case r of Inl x \<Rightarrow> x = WrapException (sys_errno e w') | Inr a \<Rightarrow> 0 \<le> code a)"
begin

lemma returns_nonneg: "m w = (Inr a, w') \<Longrightarrow> 0 \<le> code a"
  using outcome by fastforce

lemma throws_wrap: "m w = (Inl x, w') \<Longrightarrow> x = WrapException (sys_errno e w')"
  using outcome by fastforce

lemma caught: "\<exists>a w'. catchWrap m (\<lambda>_. ret d) w = (Inr a, w')"
  using throws_wrap by (cases "m w"; cases "fst (m w)") (fastforce simp: catchWrap_def ret_def)+

end

lemma checked_call_throwing: "throwing_call e code (checked e code (call f))"
  by unfold_locales
    (auto simp: checked_def bindE_def throwErrno_def gets_def raise_def ret_def call_def
      split: prod.splits if_splits)

interpretation os_sendto: throwing_call e id "Sendto e fd buf addr" for e fd buf addr
  unfolding Sendto_def by (rule checked_call_throwing)

interpretation os_write: throwing_call e id "Write e fd buf" for e fd buf
  unfolding Write_def by (rule checked_call_throwing)

interpretation os_close: throwing_call e id "Close e fd" for e fd
  unfolding Close_def by (rule checked_call_throwing)

interpretation os_socket: throwing_call e id "Socket e d t p" for e d t p
  unfolding Socket_def by (rule checked_call_throwing)

end
