(* ===== verification/Reference.thy ===== *)
theory Reference
  imports Wire Wrapped
begin

text \<open>
  One concrete platform, for evaluating the model on concrete inputs: the documented
  protobuf encoding, exact arithmetic, dotted-quad addresses, and a small operating system
  whose state is a clock, a supply of random numbers, the descriptors that are closed, the
  bytes waiting to be read from each descriptor, and a log of what was written and sent.
\<close>

record ref_world =
  rw_clock :: int
  rw_rands :: "nat list"
  rw_garbage :: int
  rw_errno :: int
  rw_next :: nat
  rw_closed :: "int list"
  rw_inbox :: "(int \<times> bytes) list"
  rw_log :: "(int \<times> bytes) list"
  rw_sent :: "(sockaddr_in \<times> bytes) list"

definition world0 :: ref_world where
  "world0 = \<lparr>rw_clock = 1000000, rw_rands = [], rw_garbage = 0, rw_errno = 0, rw_next = 10,
     rw_closed = [], rw_inbox = [], rw_log = [], rw_sent = []\<rparr>"

fun decimal_value :: "nat \<Rightarrow> string \<Rightarrow> nat option" where
  "decimal_value acc [] = Some acc"
| "decimal_value acc (c # cs) =
     (let d = of_char c :: nat
      in if 48 \<le> d \<and> d \<le> 57 then decimal_value (10 * acc + (d - 48)) cs else None)"

fun split_on :: "char \<Rightarrow> string \<Rightarrow> string list" where
  "split_on c [] = [[]]"
| "split_on c (x # xs) =
     (if x = c then [] # split_on c xs
      else case split_on c xs of [] \<Rightarrow> [[x]] | y # ys \<Rightarrow> (x # y) # ys)"

definition quad_octet :: "string \<Rightarrow> nat option" where
  "quad_octet s =
     (if s = [] \<or> 3 < length s then None
      else case decimal_value 0 s of None \<Rightarrow> None | Some v \<Rightarrow> if v < 256 then Some v else None)"

definition ref_inet_pton :: "string \<Rightarrow> uint32 option" where
  "ref_inet_pton s =
     (case map quad_octet (split_on (CHR ''.'') s) of
        [Some a, Some b, Some c, Some d] \<Rightarrow> Some (of_nat (((d * 256 + c) * 256 + b) * 256 + a))
      | _ \<Rightarrow> None)"

definition ref_write :: "int \<Rightarrow> bytes \<Rightarrow> ref_world \<Rightarrow> int \<times> ref_world" where
  "ref_write fd buf w =
     (if fd < 0 \<or> fd \<in> set (rw_closed w) then (-1, w\<lparr>rw_errno := 9\<rparr>)
      else (int (length buf), w\<lparr>rw_log := rw_log w @ [(fd, buf)]\<rparr>))"

definition ref_close :: "int \<Rightarrow> ref_world \<Rightarrow> int \<times> ref_world" where
  "ref_close fd w =
     (if fd < 0 \<or> fd \<in> set (rw_closed w) then (-1, w\<lparr>rw_errno := 9\<rparr>)
      else (0, w\<lparr>rw_closed := fd # rw_closed w\<rparr>))"

definition ref_read :: "int \<Rightarrow> nat \<Rightarrow> ref_world \<Rightarrow> (int \<times> bytes) option \<times> ref_world" where
  "ref_read fd n w =
     (case find (\<lambda>x. fst x = fd) (rw_inbox w) of
        None \<Rightarrow> (None, w)
      | Some (i, bs) \<Rightarrow> (Some (int (min n (length bs)), take n bs),
          w\<lparr>rw_inbox := remove1 (i, bs) (rw_inbox w)\<rparr>))"

definition ref_sendto :: "int \<Rightarrow> bytes \<Rightarrow> sockaddr_in \<Rightarrow> ref_world \<Rightarrow> int \<times> ref_world" where
  "ref_sendto fd buf addr w = (int (length buf), w\<lparr>rw_sent := rw_sent w @ [(addr, buf)]\<rparr>)"

definition ref_pipe :: "int \<Rightarrow> ref_world \<Rightarrow> (int \<times> int \<times> int) \<times> ref_world" where
  "ref_pipe flags w = ((0, int (rw_next w), int (rw_next w) + 1), w\<lparr>rw_next := rw_next w + 2\<rparr>)"

definition ref_rand :: "ref_world \<Rightarrow> nat \<times> ref_world" where
  "ref_rand w = (case rw_rands w of [] \<Rightarrow> (0, w) | n # ns \<Rightarrow> (n, w\<lparr>rw_rands := ns\<rparr>))"

definition addr0 :: sockaddr_in where
  "addr0 = \<lparr>sin_family = AF_INET, sin_port = 0, sin_addr = 0\<rparr>"

definition ref_env :: "ref_world env" where
  "ref_env =
     \<lparr>WriteUInt32ToArray = WriteUInt32ToArray std_runtime,
      WriteEnumToArray = WriteEnumToArray std_runtime,
      WriteBoolToArray = WriteBoolToArray std_runtime,
      WriteStringMaybeAliased = WriteStringMaybeAliased std_runtime,
      InternalWriteMessage = InternalWriteMessage std_runtime,
      UInt32SizePlusOne = UInt32SizePlusOne std_runtime,
      EnumSize = EnumSize std_runtime,
      StringSize = StringSize std_runtime,
      LengthDelimitedSize = LengthDelimitedSize std_runtime,
      ReadTag = ReadTag std_runtime,
      ReadVarint32 = ReadVarint32 std_runtime,
      ReadVarint64 = ReadVarint64 std_runtime,
      InlineGreedyStringParser = InlineGreedyStringParser std_runtime,
      ReadMessageBytes = ReadMessageBytes std_runtime,
      VerifyUTF8 = VerifyUTF8 std_runtime,
      UnknownFieldParse = UnknownFieldParse std_runtime,
      fp_round = (\<lambda>x. x),
      inet_pton4 = ref_inet_pton,
      inet_ntop4 = (\<lambda>_. ''0.0.0.0''),
      sys_errno = rw_errno,
      sys_set_errno = (\<lambda>n w. w\<lparr>rw_errno := n\<rparr>),
      sys_now = (\<lambda>w. (rw_clock w, w)),
      sys_rand = ref_rand,
      sys_garbage = (\<lambda>w. (rw_garbage w, w)),
      sys_thread = (\<lambda>w. (rw_next w, w\<lparr>rw_next := Suc (rw_next w)\<rparr>)),
      sys_socket = (\<lambda>d t p w. (int (rw_next w), w\<lparr>rw_next := Suc (rw_next w)\<rparr>)),
      sys_bind = (\<lambda>fd a w. (0, w)),
      sys_listen = (\<lambda>fd n w. (0, w)),
      sys_connect = (\<lambda>fd a w. (0, w)),
      sys_accept = (\<lambda>fd w. ((int (rw_next w), addr0), w\<lparr>rw_next := Suc (rw_next w)\<rparr>)),
      sys_write = ref_write,
      sys_read = ref_read,
      sys_close = ref_close,
      sys_sendto = ref_sendto,
      sys_recvfrom = (\<lambda>fd n w. (case ref_read fd n w of (x, w') \<Rightarrow>
        (map_option (\<lambda>(k, bs). (k, bs, addr0)) x, w'))),
      sys_epoll_create = (\<lambda>n w. (int (rw_next w), w\<lparr>rw_next := Suc (rw_next w)\<rparr>)),
      sys_epoll_ctl = (\<lambda>a b c w. (0, w)),
      sys_epoll_wait = (\<lambda>a b c w. (Some 0, w)),
      sys_pipe = ref_pipe,
      sys_select = (\<lambda>n fds t w.
        let ready = filter (\<lambda>fd. fd \<in> set (map fst (rw_inbox w))) (readfds fds)
        in if ready = [] \<and> t = None then (None, w)
           else (Some (int (length ready), \<lparr>readfds = ready, writefds = []\<rparr>), w)),
      sys_fcntl_getfl = (\<lambda>fd w. (0, w)),
      sys_fcntl_setfl = (\<lambda>fd n w. (0, w)),
      sys_so_error = (\<lambda>fd w. ((0, 0), w)),
      sys_set_timeouts = (\<lambda>fd t w. (0, w)),
      sys_peername = (\<lambda>fd w. (addr0, w)),
      sys_hostname = (\<lambda>w. (''localhost'', w)),
      sys_sleep = (\<lambda>t w. w\<lparr>rw_clock := rw_clock w + t\<rparr>)\<rparr>"

lemmas ref_defs = ref_env_def std_runtime_def world0_def ref_write_def ref_close_def ref_read_def
  ref_sendto_def ref_pipe_def ref_rand_def addr0_def

interpretation ref: pb_encoding ref_env
  by unfold_locales (simp_all add: ref_env_def std_runtime_def)

lemma ref_ieee: "ieee_rounding (fp_round ref_env)"
  by (simp add: ref_env_def ieee_rounding_exact)

lemma ref_inet_pton_localhost: "ref_inet_pton ''127.0.0.1'' = Some 16777343"
  by (simp add: ref_inet_pton_def quad_octet_def)

end
