(* ===== verification/Scaling.thy ===== *)
theory Scaling
  imports Platform Reference
begin

text \<open>
  The cluster-size dependent limits: \<^verbatim>\<open>retransmitLimit\<close> and \<^verbatim>\<open>suspicionTimeout\<close> of
  \<^verbatim>\<open>misc/util.cpp\<close> and \<^verbatim>\<open>pushPullScale\<close> of \<^verbatim>\<open>misc/timer.cpp\<close>. They are computed in
  \<^verbatim>\<open>double\<close>; every operation is followed by the platform's rounding, and a conversion out
  of range or a signed overflow is an undefined outcome.
\<close>

section \<open>Definitions\<close>

definition retransmitLimit :: "('w, 'e) env_scheme \<Rightarrow> uint8 \<Rightarrow> uint32 \<Rightarrow> exn + uint32" where
  "retransmitLimit e retransmitMult n =
     (if n + 1 = 0 then Inl Undefined
      else case double_to_uint32 (of_int \<lceil>fp_round e (log 10 (real (unat (n + 1))))\<rceil>) of
        Inl x \<Rightarrow> Inl x
      | Inr nodeScale \<Rightarrow> Inr (ucast retransmitMult * nodeScale))"

definition suspicionTimeout :: "('w, 'e) env_scheme \<Rightarrow> uint32 \<Rightarrow> uint32 \<Rightarrow> int \<Rightarrow> exn + int" where
  "suspicionTimeout e suspicionMult n interval =
     (let r = fp_round e;
          nodeScale = max 1 (r (log 10 (r (1 + real (unat n)))))
      in double_to_int64 (r (r (real (unat suspicionMult) * nodeScale) * r (of_int interval))))"

abbreviation pushPullScaleThreshold :: int where
  "pushPullScaleThreshold \<equiv> 32"

definition pushPullScale :: "('w, 'e) env_scheme \<Rightarrow> int \<Rightarrow> int \<Rightarrow> exn + int" where
  "pushPullScale e timeinterval n =
     (if n \<le> pushPullScaleThreshold then Inr timeinterval
      else
        let r = fp_round e;
            x = r (of_int \<lceil>r (r (log 2 (r (of_int n))) - r (log 2 (of_int pushPullScaleThreshold)))\<rceil> + 1)
        in case double_to_uint32 x of
          Inl u \<Rightarrow> Inl u
        | Inr multiplier \<Rightarrow>
            (let t = timeinterval * uint multiplier
             in if INT64_MIN \<le> t \<and> t \<le> INT64_MAX then Inr t else Inl Undefined))"

text \<open>The number of decimal digits of a number; zero has none.\<close>

fun decimal_digits :: "nat \<Rightarrow> nat" where
  "decimal_digits n = (if n = 0 then 0 else Suc (decimal_digits (n div 10)))"

declare decimal_digits.simps [simp del]

section \<open>The retransmission limit\<close>

lemma decimal_digits_bounds:
  "0 < n \<Longrightarrow> 10 ^ (decimal_digits n - 1) \<le> n \<and> n < 10 ^ decimal_digits n"
proof (induction n rule: decimal_digits.induct)
  case (1 n)
  show ?case
  proof (cases "n < 10")
    case True
    with 1(2) show ?thesis
      by (simp add: decimal_digits.simps [of n] decimal_digits.simps [of 0])
  next
    case False
    let ?m = "n div 10"
    have "0 < ?m" using False by simp
    with 1 have IH: "10 ^ (decimal_digits ?m - 1) \<le> ?m" "?m < 10 ^ decimal_digits ?m"
      by simp_all
    have d: "decimal_digits n = Suc (decimal_digits ?m)"
      using 1(2) by (simp add: decimal_digits.simps [of n])
    have "0 < decimal_digits ?m"
      using \<open>0 < ?m\<close> by (simp add: decimal_digits.simps [of ?m])
    then obtain k where k: "decimal_digits ?m = Suc k"
      using gr0_implies_Suc by blast
    then have p: "10 ^ decimal_digits ?m = 10 * (10::nat) ^ (decimal_digits ?m - 1)"
      unfolding k by (simp only: power_Suc diff_Suc_1)
    have "10 * 10 ^ (decimal_digits ?m - 1) \<le> n"
      using mult_le_mono2 [OF IH(1), of 10] times_div_less_eq_dividend [of 10 n] by (rule order_trans)
    moreover have "n < 10 * 10 ^ decimal_digits ?m"
      using IH(2) by (simp only: div_less_iff_less_mult zero_less_numeral mult.commute)
    ultimately show ?thesis
      unfolding d using p by (simp only: diff_Suc_1 power_Suc)
  qed
qed

lemma decimal_digits_le:
  assumes "n < 10 ^ k" shows "decimal_digits n \<le> k"
proof (cases "n = 0")
  case True
  then show ?thesis by (simp add: decimal_digits.simps)
next
  case False
  then have "10 ^ (decimal_digits n - 1) < (10::nat) ^ k"
    using decimal_digits_bounds [of n] assms by linarith
  then show ?thesis
    using power_less_imp_less_exp [of "10::nat" "decimal_digits n - 1" k] by simp
qed

lemma ln_lower: "0 \<le> x \<Longrightarrow> x \<le> 1 \<Longrightarrow> x / 2 \<le> ln (1 + x)" for x :: real
proof -
  assume x: "0 \<le> x" "x \<le> 1"
  have "ln (1 / (1 + x)) \<le> 1 / (1 + x) - 1"
    using x by (intro ln_le_minus_one) simp
  also have "1 / (1 + x) - 1 = - (x / (1 + x))"
    using x by (simp add: field_simps)
  finally have "x / (1 + x) \<le> ln (1 + x)"
    using x by (simp add: ln_div)
  moreover have "x / 2 \<le> x / (1 + x)"
    using x by (intro divide_left_mono) simp_all
  ultimately show ?thesis by linarith
qed

text \<open>Just above a power of ten the logarithm exceeds the exponent by more than the rounding error.\<close>

lemma log10_gap:
  assumes "(10::nat) ^ j + 1 \<le> m"
  shows "real j + 1 / (18 * 10 ^ j) \<le> log 10 (real m)"
proof -
  let ?x = "1 / (10::real) ^ j"
  have x: "0 \<le> ?x" "?x \<le> 1" by simp_all
  have pos: "1 + ?x \<noteq> 0" using x(1) by linarith
  have ln10: "0 < ln (10::real)" "ln (10::real) \<le> 9"
    using ln_le_minus_one [of "10::real"] by simp_all
  have "real (10 ^ j + 1) \<le> real m"
    using assms by (rule of_nat_mono)
  then have "(10::real) ^ j + 1 \<le> real m"
    by simp
  then have "log 10 (10 ^ j * (1 + ?x)) \<le> log 10 (real m)"
    by (intro log_mono) (simp_all add: algebra_simps add_pos_nonneg)
  moreover have "log 10 (10 ^ j * (1 + ?x)) = real j + ln (1 + ?x) / ln 10"
    using pos by (subst log_mult) (simp_all add: log_def ln_realpow)
  moreover have "1 / (18 * 10 ^ j) \<le> ln (1 + ?x) / ln 10"
  proof -
    have "1 / (18 * 10 ^ j) = (?x / 2) / 9" by simp
    also have "\<dots> \<le> (?x / 2) / ln 10"
      using ln10 x by (intro divide_left_mono) simp_all
    also have "\<dots> \<le> ln (1 + ?x) / ln 10"
      using ln10 ln_lower [OF x] by (intro divide_right_mono) simp_all
    finally show ?thesis .
  qed
  ultimately show ?thesis by linarith
qed

lemma rounded_log10_above:
  assumes r: "ieee_rounding r" and m: "(10::nat) ^ j + 1 \<le> m" "m < 2 ^ 32" and j: "j \<le> 9"
  shows "real j < r (log 10 (real m))"
proof -
  let ?L = "log 10 (real m)"
  have gap: "real j + 1 / (18 * 10 ^ j) \<le> ?L"
    using m(1) by (rule log10_gap)
  have d: "1 / (18 * 10 ^ 9) \<le> 1 / (18 * (10::real) ^ j)"
    using j by (intro divide_left_mono mult_left_mono power_increasing) simp_all
  have L0: "1 / (18 * 10 ^ 9) \<le> ?L"
    using gap d by linarith
  have "real m \<le> 10 ^ 10"
    using m(2) by simp
  then have "?L \<le> log 10 (10 ^ 10)"
    using m(1) by (intro log_mono) simp_all
  also have "log 10 ((10::real) ^ 10) = real 10"
    by (rule log_pow_cancel) simp_all
  finally have L10: "?L \<le> 10" by simp
  have "(1::real) / 2 ^ 1022 \<le> 1 / 2 ^ 40"
    by (intro divide_left_mono power_increasing) simp_all
  also have "\<dots> \<le> 1 / (18 * 10 ^ 9)" by simp
  finally have lo: "1 / 2 ^ 1022 \<le> \<bar>?L\<bar>" using L0 by linarith
  have "(10::real) \<le> 2 ^ 4" by simp
  also have "\<dots> \<le> 2 ^ 1023" by (intro power_increasing) simp_all
  finally have big: "(10::real) \<le> 2 ^ 1023" .
  have "0 \<le> ?L" using L0 by (rule order_trans [rotated]) simp
  then have "\<bar>?L\<bar> \<le> 10" using L10 by simp
  then have hi: "\<bar>?L\<bar> \<le> 2 ^ 1023" using big by (rule order_trans)
  have "\<bar>r ?L - ?L\<bar> \<le> \<bar>?L\<bar> / 2 ^ 53"
    using r lo hi by (rule ieee_error)
  also have "\<bar>?L\<bar> / 2 ^ 53 \<le> 10 / 2 ^ 53"
    using \<open>\<bar>?L\<bar> \<le> 10\<close> by (intro divide_right_mono) simp_all
  finally have "- (r ?L - ?L) \<le> 10 / 2 ^ 53"
    by (rule abs_le_D2)
  moreover have "10 / 2 ^ 53 < 1 / (18 * (10::real) ^ 9)"
    by simp
  ultimately show ?thesis
    using gap d by linarith
qed

lemma rounded_log10_ceiling:
  assumes r: "ieee_rounding r" and m: "n + 1 < 2 ^ 32"
  shows "\<lceil>r (log 10 (real (n + 1)))\<rceil> = int (decimal_digits n)"
proof (cases "n = 0")
  case True
  then show ?thesis
    using ieee_int [OF r, of 0] by (simp add: decimal_digits.simps)
next
  case False
  define d where "d = decimal_digits n"
  have b: "10 ^ (d - 1) \<le> n" "n < 10 ^ d"
    using decimal_digits_bounds False by (simp_all add: d_def)
  have d10: "d \<le> 10"
    unfolding d_def using m by (intro decimal_digits_le) simp
  have d0: "0 < d"
    using False by (simp add: d_def decimal_digits.simps)
  have "real (n + 1) \<le> real (10 ^ d)"
    using b(2) by (intro of_nat_mono) simp
  then have "log 10 (real (n + 1)) \<le> log 10 (10 ^ d)"
    by (intro log_mono) simp_all
  also have "log 10 ((10::real) ^ d) = real d"
    by (rule log_pow_cancel) simp_all
  finally have "r (log 10 (real (n + 1))) \<le> r (real d)"
    by (rule ieee_mono [OF r])
  also have "r (real d) = real d"
    using r d10 by (intro ieee_nat) simp_all
  finally have up: "r (log 10 (real (n + 1))) \<le> real d" .
  have "real (d - 1) < r (log 10 (real (n + 1)))"
    using r b(1) m d10 by (intro rounded_log10_above) simp_all
  with up d0 show ?thesis
    unfolding d_def [symmetric] by (intro ceiling_unique) simp_all
qed

lemma retransmitLimit_eq:
  assumes "ieee_rounding (fp_round e)" and "n \<noteq> UINT32_MAX"
  shows "retransmitLimit e mult n = Inr (ucast mult * of_nat (decimal_digits (unat n)))"
proof -
  have n1: "n + 1 \<noteq> 0"
    using assms(2) by (metis add_eq_0_iff minus_minus add.commute)
  have u: "unat (n + 1) = unat n + 1"
    using assms(2) by (rule unat_plus_one)
  have "unat (n + 1) < 2 ^ LENGTH(32)"
    by (rule unsigned_less)
  then have lt: "unat n + 1 < 2 ^ 32"
    using u by simp
  have "\<lceil>fp_round e (log 10 (real (unat n + 1)))\<rceil> = int (decimal_digits (unat n))"
    using assms(1) lt by (rule rounded_log10_ceiling)
  moreover have "decimal_digits (unat n) \<le> 10"
    using lt by (intro decimal_digits_le) simp
  moreover have "trunc_real (real (decimal_digits (unat n))) = int (decimal_digits (unat n))"
    using trunc_real_of_int [of "int (decimal_digits (unat n))"] by simp
  ultimately show ?thesis
    using n1 by (simp add: retransmitLimit_def u double_to_uint32_def del: of_nat_add of_nat_Suc)
qed

lemma retransmit_product:
  assumes "d \<le> 10"
  shows "unat (ucast (mult :: uint8) * of_nat d :: uint32) = unat mult * d"
proof -
  have m: "unat mult < 256"
    using unsigned_less [of mult, where ?'a = nat] by simp
  have "unat mult * d \<le> 255 * 10"
    using m assms by (intro mult_le_mono) simp_all
  moreover have "ucast mult * of_nat d = (of_nat (unat mult * d) :: uint32)"
    by simp
  ultimately show ?thesis
    by (simp only: unat_of_nat) simp
qed

text \<open>
  C37. For every cluster size but the one whose successor wraps to zero, the
  retransmission limit is the multiplier times the number of decimal digits of the
  cluster size, whatever IEEE rounding the logarithm goes through, and the 32-bit product
  does not wrap.
\<close>

theorem retransmitLimit_digits:
  assumes "ieee_rounding (fp_round e)" and "n \<noteq> UINT32_MAX"
  shows "\<exists>limit. retransmitLimit e mult n = Inr limit \<and> unat limit = unat mult * decimal_digits (unat n)"
proof -
  have "unat n < 10 ^ 10"
    using unsigned_less [of n, where ?'a = nat] by simp
  then have "decimal_digits (unat n) \<le> 10"
    by (rule decimal_digits_le)
  then show ?thesis
    using retransmitLimit_eq [OF assms, of mult] retransmit_product [of "decimal_digits (unat n)" mult] by simp
qed

theorem retransmitLimit_digits_witness:
  "\<exists>limit. retransmitLimit ref_env 4 120 = Inr limit \<and> unat limit = unat (4 :: uint8) * decimal_digits (unat (120 :: uint32))"
  by (rule retransmitLimit_digits) (simp_all add: ref_ieee)

section \<open>The suspicion timeout\<close>

definition node_scale :: "(real \<Rightarrow> real) \<Rightarrow> nat \<Rightarrow> real" where
  "node_scale r n = max 1 (r (log 10 (r (1 + real n))))"

lemma suspicionTimeout_scale:
  "suspicionTimeout e m n i =
     double_to_int64 (fp_round e (fp_round e (real (unat m) * node_scale (fp_round e) (unat n)) *
       fp_round e (of_int i)))"
  by (simp only: suspicionTimeout_def node_scale_def Let_def)

lemma unat32_less: "unat (n :: uint32) < 2 ^ 32"
proof -
  have "unat n < 2 ^ LENGTH(32)" by (rule unsigned_less)
  then show ?thesis by simp
qed

lemma rounded_size:
  assumes "ieee_rounding r" and "n < 2 ^ 32" shows "r (1 + real n) = 1 + real n"
  using ieee_nat [OF assms(1), of "1 + n"] assms(2) by simp

lemma node_scale_le:
  assumes r: "ieee_rounding r" and n: "n < 2 ^ 32" and k: "n < 10 ^ k" "k \<le> 10"
  shows "node_scale r n \<le> max 1 (real k)"
proof -
  have "real (1 + n) \<le> real (10 ^ k)"
    using k(1) by (intro of_nat_mono) simp
  then have "log 10 (1 + real n) \<le> log 10 (10 ^ k)"
    by (intro log_mono) simp_all
  also have "log 10 ((10::real) ^ k) = real k"
    by (rule log_pow_cancel) simp_all
  finally have "r (log 10 (1 + real n)) \<le> r (real k)"
    by (rule ieee_mono [OF r])
  also have "r (real k) = real k"
    using r k(2) by (intro ieee_nat) simp_all
  finally show ?thesis
    by (simp add: node_scale_def rounded_size [OF r n])
qed

lemma node_scale_bounds:
  assumes r: "ieee_rounding r" and n: "n < 2 ^ 32"
  shows "1 \<le> node_scale r n" and "node_scale r n \<le> 10"
    and "n < 10 \<Longrightarrow> node_scale r n = 1"
proof -
  show ge: "1 \<le> node_scale r n" by (simp add: node_scale_def)
  show "node_scale r n \<le> 10"
    using node_scale_le [OF r n, of 10] n by simp
  show "n < 10 \<Longrightarrow> node_scale r n = 1"
    using node_scale_le [OF r n, of 1] ge by simp
qed

lemma node_scale_mono:
  assumes r: "ieee_rounding r" and "n \<le> n'" "n' < 2 ^ 32"
  shows "node_scale r n \<le> node_scale r n'"
proof -
  have "log 10 (1 + real n) \<le> log 10 (1 + real n')"
    using assms(2) by (intro log_mono) simp_all
  then have "r (log 10 (1 + real n)) \<le> r (log 10 (1 + real n'))"
    by (rule ieee_mono [OF r])
  moreover have "n < 2 ^ 32"
    using assms(2,3) by simp
  ultimately show ?thesis
    using assms(3) by (simp add: node_scale_def rounded_size [OF r] max.coboundedI2)
qed

text \<open>The rounded product of the multiplier, a scale and the interval, sandwiched by integers.\<close>

lemma rounded_product_mono:
  assumes r: "ieee_rounding r" and i: "0 \<le> i" "i \<le> 2 ^ 53" and "x \<le> y" "0 \<le> m"
  shows "r (r (m * x) * r (of_int i)) \<le> r (r (m * y) * r (of_int i))"
proof -
  have "m * x \<le> m * y"
    using assms(4,5) by (rule mult_left_mono)
  then have "r (m * x) \<le> r (m * y)"
    by (rule ieee_mono [OF r])
  moreover have "r (of_int i) = of_int i"
    using i by (intro ieee_int [OF r]) simp
  ultimately show ?thesis
    using i(1) by (intro ieee_mono [OF r]) (simp add: mult_right_mono)
qed

lemma rounded_product_exact:
  assumes r: "ieee_rounding r" and "0 \<le> i" "int m * int k * i \<le> 2 ^ 53" "i \<le> 2 ^ 53" "m * k \<le> 2 ^ 53"
  shows "r (r (real m * real k) * r (of_int i)) = of_int (int m * int k * i)"
proof -
  have "r (real m * real k) = real (m * k)"
    using ieee_nat [OF r assms(5)] by simp
  moreover have "r (of_int i) = of_int i"
    using assms by (intro ieee_int [OF r]) simp
  moreover have "r (of_int (int m * int k * i)) = of_int (int m * int k * i)"
    using assms by (intro ieee_int [OF r]) simp
  ultimately show ?thesis by simp
qed

definition scaled :: "(real \<Rightarrow> real) \<Rightarrow> nat \<Rightarrow> nat \<Rightarrow> int \<Rightarrow> real" where
  "scaled r m n i = r (r (real m * node_scale r n) * r (of_int i))"

lemma scaled_mono:
  assumes "ieee_rounding r" "n' < 2 ^ 32" "0 \<le> i" "i \<le> 2 ^ 53" "n \<le> n'"
  shows "scaled r m n i \<le> scaled r m n' i"
  unfolding scaled_def using assms
  by (intro rounded_product_mono node_scale_mono) simp_all

lemma scaled_bounds:
  assumes r: "ieee_rounding r" and n: "n < 2 ^ 32" and m: "m < 2 ^ 32"
    and i: "0 \<le> i" "int m * 10 * i \<le> 2 ^ 53" "i \<le> 2 ^ 53"
  shows "of_int (int m * i) \<le> scaled r m n i" "scaled r m n i \<le> of_int (int m * 10 * i)"
    and "n < 10 \<Longrightarrow> scaled r m n i = of_int (int m * i)"
proof -
  have "0 \<le> int m * i" using i(1) by simp
  then have "int m * int 1 * i \<le> 2 ^ 53" using i(2) by linarith
  then have one: "r (r (real m * real 1) * r (of_int i)) = of_int (int m * int 1 * i)"
    using i m by (intro rounded_product_exact [OF r]) simp_all
  have ten: "r (r (real m * real 10) * r (of_int i)) = of_int (int m * int 10 * i)"
    using i m by (intro rounded_product_exact [OF r]) simp_all
  show "of_int (int m * i) \<le> scaled r m n i"
    using rounded_product_mono [OF r i(1) i(3), of 1 "node_scale r n" "real m"]
      node_scale_bounds(1) [OF r n] one by (simp add: scaled_def)
  show "scaled r m n i \<le> of_int (int m * 10 * i)"
    using rounded_product_mono [OF r i(1) i(3), of "node_scale r n" 10 "real m"]
      node_scale_bounds(2) [OF r n] ten by (simp add: scaled_def)
  show "n < 10 \<Longrightarrow> scaled r m n i = of_int (int m * i)"
    using node_scale_bounds(3) [OF r n] one by (simp add: scaled_def)
qed

lemma suspicionTimeout_eq:
  fixes n :: uint32
  assumes r: "ieee_rounding (fp_round e)"
    and i: "0 \<le> interval" "int (unat m) * 10 * interval \<le> 2 ^ 53" "interval \<le> 2 ^ 53"
  defines "T \<equiv> trunc_real (scaled (fp_round e) (unat m) (unat n) interval)"
  shows "suspicionTimeout e m n interval = Inr T"
    and "int (unat m) * interval \<le> T" and "T \<le> int (unat m) * 10 * interval"
    and "unat n < 10 \<Longrightarrow> T = int (unat m) * interval"
proof -
  note b = scaled_bounds [OF r unat32_less unat32_less i, of n]
  show lo: "int (unat m) * interval \<le> T" and hi: "T \<le> int (unat m) * 10 * interval"
    unfolding T_def using trunc_real_mono [OF b(1)] trunc_real_mono [OF b(2)] by (simp_all only: trunc_real_of_int)
  have "0 \<le> int (unat m) * interval"
    using i(1) by simp
  then have "T \<le> 2 ^ 53" and "0 \<le> T"
    using order_trans [OF hi i(2)] order_trans [OF _ lo] by auto
  then have "INT64_MIN \<le> T" "T \<le> INT64_MAX"
    by simp_all
  then show "suspicionTimeout e m n interval = Inr T"
    by (simp add: suspicionTimeout_scale double_to_int64_def T_def scaled_def del: of_nat_unat)
  show "unat n < 10 \<Longrightarrow> T = int (unat m) * interval"
    using b(3) trunc_real_of_int [of "int (unat m) * interval"] by (simp add: T_def)
qed

text \<open>How far the value is from the real product: half a unit in the last place at each of three roundings.\<close>

lemma scaled_near:
  assumes r: "ieee_rounding r" and n: "9 \<le> n" "n < 2 ^ 32" and m: "m < 2 ^ 32"
    and i: "0 \<le> i" "int m * 10 * i \<le> 2 ^ 53" "i \<le> 2 ^ 53"
  shows "\<bar>scaled r m n i - real m * log 10 (1 + real n) * of_int i\<bar> \<le> 3"
proof (cases "m = 0 \<or> i = 0")
  case True
  have "r 0 = 0"
    using ieee_int [OF r, of 0] by simp
  then show ?thesis
    using True by (auto simp: scaled_def)
next
  case False
  define L where "L = log 10 (1 + real n)"
  define a where "a = node_scale r n"
  define b where "b = r (real m * a)"
  have pos: "1 \<le> real m" "1 \<le> real_of_int i"
    using False i(1) by simp_all
  have err: "\<bar>r x - x\<bar> \<le> x / 2 ^ 53" if "1 \<le> x" "x \<le> 2 ^ 53 * 10" for x
  proof -
    have "1 / 2 ^ 1022 \<le> (1 :: real)" "(2 :: real) ^ 53 * 10 \<le> 2 ^ 1023"
      by simp_all
    then have "1 / 2 ^ 1022 \<le> \<bar>x\<bar>" "\<bar>x\<bar> \<le> 2 ^ 1023"
      using that by linarith+
    then have "\<bar>r x - x\<bar> \<le> \<bar>x\<bar> / 2 ^ 53"
      by (rule ieee_error [OF r])
    then show ?thesis
      using that(1) by simp
  qed
  have L: "1 \<le> L" "L \<le> 10"
  proof -
    have "log 10 10 \<le> L"
      unfolding L_def using n by (intro log_mono) simp_all
    then show "1 \<le> L" by simp
    have "1 + real n \<le> 10 ^ 10"
      using n by simp
    then have "L \<le> log 10 (10 ^ 10)"
      unfolding L_def by (intro log_mono) simp_all
    then show "L \<le> 10"
      using log_pow_cancel [of 10 10] by simp
  qed
  have "1 \<le> r L"
    using ieee_mono [OF r L(1)] ieee_int [OF r, of 1] by simp
  then have a: "a = r L"
    unfolding a_def node_scale_def rounded_size [OF r n(2)] L_def by simp
  have a_range: "1 \<le> a" "a \<le> 10"
    unfolding a_def using node_scale_bounds [OF r n(2)] by simp_all
  have top: "real m * 10 * of_int i \<le> 2 ^ 53"
  proof -
    have "real_of_int (int m * 10 * i) \<le> real_of_int (2 ^ 53)"
      using i(2) by (simp only: of_int_le_iff)
    then show ?thesis by simp
  qed
  have ma: "1 \<le> real m * a" "real m * a \<le> real m * 10"
    using pos(1) a_range mult_mono [of 1 "real m" 1 a] mult_left_mono [of a 10 "real m"] by simp_all
  have "r (real m * 10) = real m * 10"
    using ieee_nat [OF r, of "m * 10"] m by simp
  then have b: "1 \<le> b" "b \<le> real m * 10"
    unfolding b_def using ieee_mono [OF r ma(1)] ieee_mono [OF r ma(2)] ieee_int [OF r, of 1] by simp_all
  have "b * of_int i \<le> real m * 10 * of_int i"
    using b(2) pos(2) by (intro mult_right_mono) simp_all
  then have bi: "1 \<le> b * of_int i" "b * of_int i \<le> 2 ^ 53"
    using b(1) pos(2) mult_mono [of 1 b 1 "of_int i"] order_trans [OF _ top] by simp_all
  have c: "scaled r m n i = r (b * of_int i)"
    using ieee_int [OF r, of i] i by (simp add: scaled_def b_def a_def)
  have "\<bar>r (b * of_int i) - b * of_int i\<bar> \<le> 1"
    using err [OF bi(1)] bi(2) by simp
  moreover have "\<bar>b * of_int i - real m * a * of_int i\<bar> \<le> 1"
  proof -
    have "\<bar>b - real m * a\<bar> \<le> real m * 10 / 2 ^ 53"
      unfolding b_def using err [OF ma(1)] ma(2) m by simp
    then have "\<bar>b - real m * a\<bar> * of_int i \<le> real m * 10 / 2 ^ 53 * of_int i"
      using pos(2) by (intro mult_right_mono) simp_all
    moreover have "b * of_int i - real m * a * of_int i = (b - real m * a) * of_int i"
      by (simp add: algebra_simps)
    then have "\<bar>b * of_int i - real m * a * of_int i\<bar> = \<bar>b - real m * a\<bar> * of_int i"
      using pos(2) by (simp add: abs_mult)
    ultimately show ?thesis
      using top by (simp add: divide_simps mult.commute mult.left_commute)
  qed
  moreover have "\<bar>real m * a * of_int i - real m * L * of_int i\<bar> \<le> 1"
  proof -
    have "\<bar>a - L\<bar> \<le> 10 / 2 ^ 53"
      unfolding a using err [OF L(1)] L(2) by simp
    then have "real m * of_int i * \<bar>a - L\<bar> \<le> real m * of_int i * (10 / 2 ^ 53)"
      using pos by (intro mult_left_mono) simp_all
    moreover have "real m * a * of_int i - real m * L * of_int i = (real m * of_int i) * (a - L)"
      by (simp add: algebra_simps)
    then have "\<bar>real m * a * of_int i - real m * L * of_int i\<bar> = real m * of_int i * \<bar>a - L\<bar>"
      using pos by (simp add: abs_mult)
    ultimately show ?thesis
      using top by (simp add: divide_simps mult.commute mult.left_commute)
  qed
  ultimately show ?thesis
    unfolding c L_def [symmetric] by linarith
qed

lemma trunc_real_near: "\<bar>real_of_int (trunc_real x) - x\<bar> \<le> 1"
  by (simp add: trunc_real_def) linarith

lemma below_ten:
  assumes "n < 9"
  shows "log 10 (1 + real n) < 1"
proof -
  have "log 10 (1 + real n) < log 10 10"
    using assms by (intro log_less) simp_all
  then show ?thesis by simp
qed

text \<open>The formula in the comment on \<^verbatim>\<open>SuspicionMult\<close>, with the logarithm to base ten.\<close>

definition documented_timeout :: "uint32 \<Rightarrow> uint32 \<Rightarrow> int \<Rightarrow> real" where
  "documented_timeout suspicionMult n interval =
     real (unat suspicionMult) * log 10 (1 + real (unat n)) * real_of_int interval"

text \<open>
  C38. \<^verbatim>\<open>config.h\<close> documents the timeout as \<open>SuspicionMult * log(N+1) * ProbeInterval\<close>. The code agrees
  with that, for the logarithm to base ten, from nine nodes on; for fewer it uses the factor
  one, which the comment does not mention, and the timeout is longer than documented. For a non-negative probe
  interval that is, times ten and the multiplier, within the exact range of \<^verbatim>\<open>double\<close>, the suspicion timeout is defined and lies between
  one and ten times \<open>SuspicionMult * ProbeInterval\<close>; it is within four microseconds of the documented
  product from nine nodes on, and below ten nodes it is exactly \<open>SuspicionMult * ProbeInterval\<close>,
  above the documented product for fewer than nine when multiplier and interval are positive; and it never shrinks when the cluster grows.
\<close>

theorem suspicionTimeout_bounds:
  assumes r: "ieee_rounding (fp_round e)"
    and i: "0 \<le> interval" "int (unat m) * 10 * interval \<le> 2 ^ 53" "interval \<le> 2 ^ 53"
  shows "\<exists>t. suspicionTimeout e m n interval = Inr t \<and>
           int (unat m) * interval \<le> t \<and> t \<le> int (unat m) * 10 * interval \<and>
           (unat n < 10 \<longrightarrow> t = int (unat m) * interval) \<and>
           (9 \<le> unat n \<longrightarrow> \<bar>of_int t - documented_timeout m n interval\<bar> \<le> 4) \<and>
           (unat n < 9 \<longrightarrow> 0 < unat m \<longrightarrow> 0 < interval \<longrightarrow> documented_timeout m n interval < of_int t) \<and>
           (\<forall>n'. n' \<le> n \<longrightarrow> (\<exists>t'. suspicionTimeout e m n' interval = Inr t' \<and> t' \<le> t))"
proof -
  note t = suspicionTimeout_eq [OF assms]
  have "trunc_real (scaled (fp_round e) (unat m) (unat n') interval) \<le>
      trunc_real (scaled (fp_round e) (unat m) (unat n) interval)" if "n' \<le> n" for n'
    using that by (intro trunc_real_mono scaled_mono [OF r unat32_less i(1,3)]) (simp add: word_le_nat_alt)
  moreover have "\<bar>of_int (trunc_real (scaled (fp_round e) (unat m) (unat n) interval)) - documented_timeout m n interval\<bar> \<le> 4" if "9 \<le> unat n"
    using scaled_near [OF r that unat32_less unat32_less i] trunc_real_near [of "scaled (fp_round e) (unat m) (unat n) interval"]
    unfolding documented_timeout_def by linarith
  moreover have "documented_timeout m n interval < of_int (int (unat m) * interval)" if "unat n < 9" "0 < unat m" "0 < interval"
  proof -
    have "log 10 (1 + real (unat n)) * (real (unat m) * of_int interval) < 1 * (real (unat m) * of_int interval)"
      using below_ten [OF that(1)] that(2,3) by (intro mult_strict_right_mono mult_pos_pos) (simp_all del: of_nat_unat)
    then show ?thesis
      by (simp add: documented_timeout_def mult.commute mult.left_commute)
  qed
  ultimately show ?thesis
    using t(1) [of n] t(2) [of n] t(3) [of n] t(4) [of n] t(1) by (intro exI [of _ "trunc_real (scaled (fp_round e) (unat m) (unat n) interval)"]) auto
qed

theorem suspicionTimeout_bounds_witness:
  "\<exists>t. suspicionTimeout ref_env 4 100 1000000 = Inr t \<and>
     int (unat (4 :: uint32)) * 1000000 \<le> t \<and> t \<le> int (unat (4 :: uint32)) * 10 * 1000000 \<and>
     (unat (100 :: uint32) < 10 \<longrightarrow> t = int (unat (4 :: uint32)) * 1000000) \<and>
     (9 \<le> unat (100 :: uint32) \<longrightarrow>
        \<bar>of_int t - documented_timeout 4 100 1000000\<bar> \<le> 4) \<and>
     (unat (100 :: uint32) < 9 \<longrightarrow> 0 < unat (4 :: uint32) \<longrightarrow> 0 < (1000000 :: int) \<longrightarrow>
        documented_timeout 4 100 1000000 < of_int t) \<and>
     (\<forall>n'. n' \<le> 100 \<longrightarrow> (\<exists>t'. suspicionTimeout ref_env 4 n' 1000000 = Inr t' \<and> t' \<le> t))"
  by (rule suspicionTimeout_bounds) (simp_all add: ref_ieee)

section \<open>The push/pull interval\<close>

text \<open>
  Up to 32 nodes the interval is unchanged; above, it is multiplied by a
  factor between 1 and 28, and the result is defined as long as 28 intervals fit in 64 bits.
\<close>

lemma pushPullScale_bounds:
  assumes r: "ieee_rounding (fp_round e)" and n: "n < 2 ^ 32"
    and t: "0 \<le> t" "28 * t \<le> INT64_MAX"
  shows "\<exists>t'. pushPullScale e t n = Inr t' \<and> t \<le> t' \<and> t' \<le> 28 * t \<and> (n \<le> 32 \<longrightarrow> t' = t)"
proof (cases "n \<le> 32")
  case True
  with t show ?thesis by (simp add: pushPullScale_def)
next
  case False
  let ?r = "fp_round e"
  have five: "log 2 (32::real) = 5"
    using log_pow_cancel [of 2 5] by simp
  have thirtytwo: "log 2 (4294967296::real) = 32"
    using log_pow_cancel [of 2 32] by simp
  have rn: "?r (of_int n) = of_int n"
    using False n by (intro ieee_int [OF r]) simp
  have int: "?r 5 = 5" "?r 32 = 32" "?r 0 = 0" "?r 27 = 27"
    using ieee_int [OF r, of 5] ieee_int [OF r, of 32] ieee_int [OF r, of 0] ieee_int [OF r, of 27]
    by simp_all
  have "log 2 32 \<le> log 2 (of_int n)" "log 2 (of_int n) \<le> log 2 4294967296"
    using False n by (auto intro!: log_mono)
  then have "5 \<le> ?r (log 2 (of_int n))" "?r (log 2 (of_int n)) \<le> 32"
    using ieee_mono [OF r, of 5] ieee_mono [OF r, of _ 32] int by (fastforce simp: five thirtytwo)+
  then have "0 \<le> ?r (?r (log 2 (of_int n)) - 5)" "?r (?r (log 2 (of_int n)) - 5) \<le> 27"
    using ieee_mono [OF r, of 0 "?r (log 2 (of_int n)) - 5"]
      ieee_mono [OF r, of "?r (log 2 (of_int n)) - 5" 27] int by simp_all
  then obtain c where c: "\<lceil>?r (?r (log 2 (of_int n)) - 5)\<rceil> = c" "0 \<le> c" "c \<le> 27"
    by (simp add: ceiling_le_iff)
  have "?r (of_int c + 1) = of_int (c + 1)"
    using c ieee_int [OF r, of "c + 1"] by simp
  then have "double_to_uint32 (?r (of_int c + 1)) = Inr (word_of_int (c + 1))"
    using c trunc_real_of_int [of "c + 1"] by (simp add: double_to_uint32_def)
  moreover have "uint (word_of_int (c + 1) :: uint32) = c + 1"
    using c unfolding uint_word_of_int by (intro mod_pos_pos_trivial) simp_all
  moreover have "t \<le> t * (c + 1)" "t * (c + 1) \<le> 28 * t"
    using t(1) c mult_left_mono [of 1 "c + 1" t] mult_left_mono [of "c + 1" 28 t] by (simp_all add: mult.commute)
  moreover have "INT64_MIN \<le> t * (c + 1) \<and> t * (c + 1) \<le> INT64_MAX"
    using calculation(3,4) t by linarith
  ultimately show ?thesis
    using False by (simp add: pushPullScale_def rn five int(1) c(1) Let_def)
qed

end
