(* ===== verification/Ordered_Set.thy ===== *)
theory Ordered_Set
  imports Prelude
begin

text \<open>
  \<^verbatim>\<open>std::set\<close> with a comparison function, as the list of its elements in order: insertion
  keeps an equivalent element that is already there, and \<^verbatim>\<open>lower_bound\<close> and
  \<^verbatim>\<open>upper_bound\<close> give positions. The locale is what the C++ standard asks of the
  comparison, a strict weak order.
\<close>

fun set_insert :: "('a \<Rightarrow> 'a \<Rightarrow> bool) \<Rightarrow> 'a \<Rightarrow> 'a list \<Rightarrow> 'a list" where
  "set_insert lt x [] = [x]"
| "set_insert lt x (y # ys) =
     (if lt y x then y # set_insert lt x ys
      else if lt x y then x # y # ys
      else y # ys)"

definition lower_bound :: "('a \<Rightarrow> 'a \<Rightarrow> bool) \<Rightarrow> 'a \<Rightarrow> 'a list \<Rightarrow> nat" where
  "lower_bound lt x xs = length (takeWhile (\<lambda>y. lt y x) xs)"

definition upper_bound :: "('a \<Rightarrow> 'a \<Rightarrow> bool) \<Rightarrow> 'a \<Rightarrow> 'a list \<Rightarrow> nat" where
  "upper_bound lt x xs = length (takeWhile (\<lambda>y. \<not> lt x y) xs)"

locale strict_weak_order =
  fixes lt :: "'a \<Rightarrow> 'a \<Rightarrow> bool"
  assumes irrefl: "\<not> lt x x"
    and trans: "lt x y \<Longrightarrow> lt y z \<Longrightarrow> lt x z"
    and incomparable_trans: "\<not> lt x y \<Longrightarrow> \<not> lt y z \<Longrightarrow> \<not> lt x z"
begin

lemma asym: "lt x y \<Longrightarrow> \<not> lt y x"
  using irrefl trans by blast

lemma set_insert_subset: "set (set_insert lt x xs) \<subseteq> insert x (set xs)"
  by (induction xs) auto

lemma set_insert_superset: "set xs \<subseteq> set (set_insert lt x xs)"
  by (induction xs) auto

text \<open>Without an equivalent element the new one is inserted; with one, nothing changes.\<close>

lemma set_insert_new:
  "(\<And>y. y \<in> set xs \<Longrightarrow> lt x y \<or> lt y x) \<Longrightarrow> set (set_insert lt x xs) = insert x (set xs)"
  by (induction xs) auto

lemma length_set_insert_new:
  "(\<And>y. y \<in> set xs \<Longrightarrow> lt x y \<or> lt y x) \<Longrightarrow> length (set_insert lt x xs) = Suc (length xs)"
  by (induction xs) auto

lemma sorted_set_insert:
  "sorted_wrt lt xs \<Longrightarrow> sorted_wrt lt (set_insert lt x xs)"
proof (induction xs)
  case Nil
  then show ?case by simp
next
  case (Cons y ys)
  have "lt y z" if "lt y x" "z \<in> set (set_insert lt x ys)" for z
    using that Cons.prems set_insert_subset [of x ys] by auto
  with Cons show ?case by (auto intro: trans)
qed

lemma sorted_distinct: "sorted_wrt lt xs \<Longrightarrow> distinct xs"
  using irrefl by (induction xs) auto

lemma sorted_remove1: "sorted_wrt lt xs \<Longrightarrow> sorted_wrt lt (remove1 x xs)"
  using set_remove1_subset by (induction xs) fastforce+

lemma sorted_filter: "sorted_wrt lt xs \<Longrightarrow> sorted_wrt lt (filter P xs)"
  by (rule sorted_wrt_filter)

text \<open>In a sorted list everything from the lower bound on is not less than the key.\<close>

lemma lower_bound_le: "lower_bound lt x xs \<le> length xs"
  by (simp add: lower_bound_def takeWhile_length_le)

lemma lower_bound_before: "i < lower_bound lt x xs \<Longrightarrow> lt (xs ! i) x"
  unfolding lower_bound_def by (metis nth_mem set_takeWhileD takeWhile_nth)

lemma lower_bound_from:
  assumes "sorted_wrt lt xs" "lower_bound lt x xs \<le> i" "i < length xs"
  shows "\<not> lt (xs ! i) x"
proof -
  let ?k = "lower_bound lt x xs"
  have "\<not> lt (xs ! ?k) x"
    using assms(2,3) unfolding lower_bound_def by (intro nth_length_takeWhile) simp
  moreover have "?k = i \<or> lt (xs ! ?k) (xs ! i)"
    using assms by (cases "?k = i") (auto simp: sorted_wrt_iff_nth_less)
  ultimately show ?thesis using trans by metis
qed

lemma upper_bound_before: "i < upper_bound lt x xs \<Longrightarrow> \<not> lt x (xs ! i)"
  unfolding upper_bound_def by (metis nth_mem set_takeWhileD takeWhile_nth)

lemma upper_bound_from:
  assumes "sorted_wrt lt xs" "upper_bound lt x xs \<le> i" "i < length xs"
  shows "lt x (xs ! i)"
proof -
  let ?k = "upper_bound lt x xs"
  have "lt x (xs ! ?k)"
    using assms(2,3) nth_length_takeWhile [of "\<lambda>y. \<not> lt x y" xs] by (simp add: upper_bound_def)
  moreover have "?k = i \<or> lt (xs ! ?k) (xs ! i)"
    using assms by (cases "?k = i") (auto simp: sorted_wrt_iff_nth_less)
  ultimately show ?thesis using trans by metis
qed

lemma bounds_order: "lt x y \<Longrightarrow> lower_bound lt x xs \<le> upper_bound lt y xs"
  unfolding lower_bound_def upper_bound_def
  by (rule takeWhile_mono_length) (metis asym trans)

text \<open>The half-open range between two bounds is empty exactly when nothing lies between the keys.\<close>

lemma range_nonempty:
  assumes "sorted_wrt lt xs" "lt x y" "lower_bound lt x xs \<noteq> upper_bound lt y xs"
  shows "lower_bound lt x xs < length xs"
    and "\<not> lt (xs ! lower_bound lt x xs) x" and "\<not> lt y (xs ! lower_bound lt x xs)"
proof -
  have below: "lower_bound lt x xs < upper_bound lt y xs"
    using bounds_order [OF assms(2), of xs] assms(3) by simp
  then show len: "lower_bound lt x xs < length xs"
    using takeWhile_length_le [of "\<lambda>z. \<not> lt y z" xs] by (simp add: upper_bound_def)
  show "\<not> lt (xs ! lower_bound lt x xs) x"
    using assms(1) len by (intro lower_bound_from) simp_all
  show "\<not> lt y (xs ! lower_bound lt x xs)"
    using below by (rule upper_bound_before)
qed

lemma range_empty:
  assumes "sorted_wrt lt xs" "lower_bound lt x xs = upper_bound lt y xs" "z \<in> set xs"
  shows "lt z x \<or> lt y z"
proof -
  obtain i where i: "i < length xs" "z = xs ! i"
    using assms(3) by (auto simp: in_set_conv_nth)
  then show ?thesis
    using lower_bound_before [of i x xs] upper_bound_from [OF assms(1), of y i] assms(2)
    by (cases "i < lower_bound lt x xs") auto
qed

end

end
