(* ===== verification/BroadcastQueue.thy ===== *)
theory BroadcastQueue
  imports Wire Wrapped Scaling Ordered_Set Reference
begin

text \<open>
  The transmit-limited broadcast queue: \<^verbatim>\<open>memberlistBroadcast\<close> of
  \<^verbatim>\<open>mynet/broadcast.cpp\<close> and \<^verbatim>\<open>broadcastQueue\<close> of \<^verbatim>\<open>misc/broadcastQueue.cpp\<close>. The
  queue holds its items twice, ordered by retransmissions in \<^verbatim>\<open>tq\<close> and by node name in
  \<^verbatim>\<open>tm\<close>. Its invariant \<open>bq_inv\<close> says the two agree, with one item per node; every
  operation that returns keeps it.
\<close>

section \<open>Broadcasts\<close>

record memberlistBroadcast =
  mb_node :: string
  mb_msg :: Broadcast
  mb_notifyFd :: int

definition Invaidate :: "memberlistBroadcast \<Rightarrow> memberlistBroadcast \<Rightarrow> bool" where
  "Invaidate b m = (mb_node b = mb_node m)"

text \<open>\<^verbatim>\<open>Write(notifyFd, "", 1)\<close> sends one zero byte.\<close>

definition Finished :: "('w, 'e) env_scheme \<Rightarrow> memberlistBroadcast \<Rightarrow> ('w, unit) prog" where
  "Finished e b =
     (if mb_notifyFd b \<noteq> -1 then bindE (Write e (mb_notifyFd b) [CHR 0x00]) (\<lambda>_. ret ()) else ret ())"

record limitedBroadcast =
  transmits :: uint32
  msgLen :: uint64
  lb_id :: uint32
  lb_b :: memberlistBroadcast

abbreviation lb_name :: "limitedBroadcast \<Rightarrow> string" where
  "lb_name lb \<equiv> mb_node (lb_b lb)"

text \<open>\<^verbatim>\<open>operator<\<close>: fewer transmissions first, then longer messages, then newer ones.\<close>

definition lb_less :: "limitedBroadcast \<Rightarrow> limitedBroadcast \<Rightarrow> bool" where
  "lb_less lb1 lb2 =
     (if transmits lb1 \<noteq> transmits lb2 then transmits lb1 < transmits lb2
      else if msgLen lb1 \<noteq> msgLen lb2 then msgLen lb1 > msgLen lb2
      else lb_id lb1 > lb_id lb2)"

interpretation lb: strict_weak_order lb_less
  by unfold_locales (auto simp: lb_less_def split: if_splits)

section \<open>The queue\<close>

record broadcastQueue =
  RetransmitMult :: uint8
  idGen :: uint32
  tq :: "limitedBroadcast list"
  tm :: "string \<rightharpoonup> limitedBroadcast"

definition new_broadcastQueue :: "uint8 \<Rightarrow> broadcastQueue" where
  "new_broadcastQueue mult = \<lparr>RetransmitMult = mult, idGen = 0, tq = [], tm = Map.empty\<rparr>"

definition bq_size :: "broadcastQueue \<Rightarrow> nat" where
  "bq_size q = length (tq q)"

definition bq_clear :: "('w, 'e) env_scheme \<Rightarrow> (broadcastQueue \<times> 'w, unit) prog" where
  "bq_clear e =
     thenE (upd (\<lambda>q. q\<lparr>idGen := 0\<rparr>))
     (bindE (obj tq) (\<lambda>items.
     thenE (forE items (\<lambda>i. world (Finished e (lb_b i))))
     (upd (\<lambda>q. q\<lparr>tq := [], tm := Map.empty\<rparr>))))"

text \<open>
  \<^verbatim>\<open>deleteItem\<close>: when \<^verbatim>\<open>tm\<close> knows the name, forget it there and drop every item of
  \<^verbatim>\<open>tq\<close> with that name, telling each that it is finished. The last statement of the
  function, \<^verbatim>\<open>idGen == 0;\<close>, compares and has no effect.
\<close>

definition deleteItem :: "('w, 'e) env_scheme \<Rightarrow> limitedBroadcast \<Rightarrow> (broadcastQueue \<times> 'w, unit) prog" where
  "deleteItem e x =
     bindE (obj tm) (\<lambda>m.
     if m (lb_name x) \<noteq> None then
       thenE (upd (\<lambda>q. q\<lparr>tm := (tm q)(lb_name x := None)\<rparr>))
       (bindE (obj tq) (\<lambda>items.
       forE items (\<lambda>i.
         if Invaidate (lb_b i) (lb_b x) then
           thenE (world (Finished e (lb_b i))) (upd (\<lambda>q. q\<lparr>tq := remove1 i (tq q)\<rparr>))
         else ret ())))
     else ret ())"

definition addItem :: "limitedBroadcast \<Rightarrow> broadcastQueue \<Rightarrow> broadcastQueue" where
  "addItem x q = q\<lparr>tm := (tm q)(lb_name x \<mapsto> x), tq := set_insert lb_less x (tq q)\<rparr>"

definition next_id :: "broadcastQueue \<Rightarrow> broadcastQueue" where
  "next_id q = q\<lparr>idGen := (if idGen q = UINT32_MAX then 1 else idGen q + 1)\<rparr>"

definition queueBroadcast ::
  "('w, 'e) env_scheme \<Rightarrow> memberlistBroadcast \<Rightarrow> uint32 \<Rightarrow> (broadcastQueue \<times> 'w, unit) prog" where
  "queueBroadcast e b initialTransmits =
     thenE (upd next_id)
     (bindE (obj idGen) (\<lambda>newid.
     let lb = \<lparr>transmits = initialTransmits, msgLen = of_nat (Broadcast_ByteSizeLong e (mb_msg b)),
               lb_id = newid, lb_b = b\<rparr>
     in thenE (deleteItem e lb) (upd (addItem lb))))"

definition QueueBroadcast ::
  "('w, 'e) env_scheme \<Rightarrow> memberlistBroadcast \<Rightarrow> (broadcastQueue \<times> 'w, unit) prog" where
  "QueueBroadcast e b = queueBroadcast e b 0"

text \<open>
  \<^verbatim>\<open>GetBroadcasts\<close>. The local variables of its loops are a record; \<^verbatim>\<open>haveMsg\<close> is declared
  without a value. \<open>tier_loop\<close> is the inner \<^verbatim>\<open>while (true)\<close>, whose result says whether it
  left by \<^verbatim>\<open>goto finish\<close>; \<open>tiers_loop\<close> is the loop over the transmission counts. The inner
  loop is bounded by the number of queued items, which suffices (\<open>GetBroadcasts_total\<close>). The
  counter is a C \<^verbatim>\<open>int\<close>, so counts beyond its range are undefined behaviour.
\<close>

record gb_locals =
  bytesUsed :: uint64
  gb_cbc :: ComBroadcast
  reinsert :: "limitedBroadcast list"
  haveMsg :: bool

definition search_lo :: "uint32 \<Rightarrow> uint64 \<Rightarrow> limitedBroadcast" where
  "search_lo i free = \<lparr>transmits = i, msgLen = free, lb_id = UINT32_MAX,
     lb_b = \<lparr>mb_node = [], mb_msg = Broadcast0, mb_notifyFd = 0\<rparr>\<rparr>"

definition search_up :: "uint32 \<Rightarrow> limitedBroadcast" where
  "search_up i = \<lparr>transmits = i + 1, msgLen = SIZE_MAX, lb_id = UINT32_MAX,
     lb_b = \<lparr>mb_node = [], mb_msg = Broadcast0, mb_notifyFd = 0\<rparr>\<rparr>"

fun tier_loop ::
  "nat \<Rightarrow> ('w, 'e) env_scheme \<Rightarrow> uint64 \<Rightarrow> uint64 \<Rightarrow> uint32 \<Rightarrow> uint32 \<Rightarrow> gb_locals \<Rightarrow>
   (broadcastQueue \<times> 'w, bool \<times> gb_locals) prog" where
  "tier_loop 0 e overhead limit transmitLimit i l = raise OutOfFuel"
| "tier_loop (Suc fuel) e overhead limit transmitLimit i l =
     (let free = limit - overhead - bytesUsed l
      in if free \<le> 0 then ret (True, l)
         else bindE (obj tq) (\<lambda>items.
           let it_low = lower_bound lb_less (search_lo i free) items;
               it_up = upper_bound lb_less (search_up i) items
           in if it_low = it_up then ret (False, l)
              else
                let cur = items ! it_low
                in thenE (deleteItem e cur)
                  (let l1 = l\<lparr>haveMsg := True, gb_cbc := addBroadCast (gb_cbc l) (mb_msg (lb_b cur)),
                            bytesUsed := bytesUsed l + msgLen cur\<rparr>;
                       cur1 = cur\<lparr>transmits := transmits cur + 1\<rparr>
                   in if transmits cur1 \<ge> transmitLimit then
                        thenE (world (Finished e (lb_b cur1))) (tier_loop fuel e overhead limit transmitLimit i l1)
                      else tier_loop fuel e overhead limit transmitLimit i
                             (l1\<lparr>reinsert := reinsert l1 @ [cur1]\<rparr>))))"

fun tiers_loop ::
  "uint32 list \<Rightarrow> nat \<Rightarrow> ('w, 'e) env_scheme \<Rightarrow> uint64 \<Rightarrow> uint64 \<Rightarrow> uint32 \<Rightarrow> gb_locals \<Rightarrow>
   (broadcastQueue \<times> 'w, gb_locals) prog" where
  "tiers_loop [] fuel e overhead limit transmitLimit l = ret l"
| "tiers_loop (i # is) fuel e overhead limit transmitLimit l =
     bindE (tier_loop fuel e overhead limit transmitLimit i l) (\<lambda>(finish, l1).
     if finish then ret l1 else tiers_loop is fuel e overhead limit transmitLimit l1)"

definition tier_range :: "uint32 \<Rightarrow> uint32 \<Rightarrow> uint32 list" where
  "tier_range minTr maxTr = map of_nat [unat minTr ..< Suc (unat maxTr)]"

definition GetBroadcasts ::
  "('w, 'e) env_scheme \<Rightarrow> uint32 \<Rightarrow> uint64 \<Rightarrow> uint64 \<Rightarrow> ComBroadcast \<Rightarrow>
   (broadcastQueue \<times> 'w, bool \<times> ComBroadcast) prog" where
  "GetBroadcasts e estNumNodes overhead limit cbc =
     bindE (obj id) (\<lambda>q.
     if tq q = [] then ret (False, cbc)
     else case retransmitLimit e (RetransmitMult q) estNumNodes of
       Inl x \<Rightarrow> raise x
     | Inr transmitLimit \<Rightarrow>
         bindE (world (call (sys_garbage e))) (\<lambda>g.
         let minTr = transmits (hd (tq q)); maxTr = transmits (last (tq q))
         in if 2 ^ 31 - 1 \<le> unat maxTr then raise Undefined
            else bindE (tiers_loop (tier_range minTr maxTr) (Suc (length (tq q))) e overhead limit transmitLimit
                   \<lparr>bytesUsed = 0, gb_cbc = cbc, reinsert = [], haveMsg = (g \<noteq> 0)\<rparr>) (\<lambda>l.
                 thenE (forE (reinsert l) (\<lambda>x. upd (addItem x)))
                 (ret (haveMsg l, gb_cbc l)))))"

text \<open>
  \<^verbatim>\<open>Prune\<close> walks from the end of \<^verbatim>\<open>tq\<close>, erasing one item per step until at most
  \<^verbatim>\<open>maxRetain\<close> are left.
\<close>

fun prune_loop :: "nat \<Rightarrow> ('w, 'e) env_scheme \<Rightarrow> uint32 \<Rightarrow> (broadcastQueue \<times> 'w, unit) prog" where
  "prune_loop 0 e maxRetain = ret ()"
| "prune_loop (Suc s) e maxRetain =
     (if unat maxRetain < Suc s then
        bindE (obj tq) (\<lambda>items.
        if items = [] then ret ()
        else
          let i = last items
          in thenE (upd (\<lambda>q. q\<lparr>tm := (tm q)(lb_name i := None)\<rparr>))
            (thenE (world (Finished e (lb_b i)))
            (thenE (upd (\<lambda>q. q\<lparr>tq := butlast (tq q)\<rparr>))
            (prune_loop s e maxRetain))))
      else ret ())"

definition Prune :: "('w, 'e) env_scheme \<Rightarrow> uint32 \<Rightarrow> (broadcastQueue \<times> 'w, unit) prog" where
  "Prune e maxRetain = bindE (obj tq) (\<lambda>items. prune_loop (length items) e maxRetain)"

section \<open>The invariant\<close>

text \<open>
  \<^verbatim>\<open>tq\<close> is in order, \<^verbatim>\<open>tm\<close> is its index by node name (so there is one item per node),
  and the identifiers are distinct and not newer than the generator.
\<close>

definition bq_inv :: "broadcastQueue \<Rightarrow> bool" where
  "bq_inv q \<longleftrightarrow>
     sorted_wrt lb_less (tq q) \<and>
     (\<forall>n x. tm q n = Some x \<longleftrightarrow> x \<in> set (tq q) \<and> lb_name x = n) \<and>
     inj_on lb_id (set (tq q)) \<and>
     (\<forall>x \<in> set (tq q). lb_id x \<le> idGen q)"

lemma bq_invD:
  assumes "bq_inv q"
  shows bq_sorted: "sorted_wrt lb_less (tq q)"
    and bq_index: "tm q n = Some x \<longleftrightarrow> x \<in> set (tq q) \<and> lb_name x = n"
    and bq_ids: "inj_on lb_id (set (tq q))"
    and bq_id_le: "x \<in> set (tq q) \<Longrightarrow> lb_id x \<le> idGen q"
    and bq_distinct: "distinct (tq q)"
  using assms lb.sorted_distinct by (auto simp: bq_inv_def)

lemma bq_name_unique:
  "bq_inv q \<Longrightarrow> x \<in> set (tq q) \<Longrightarrow> y \<in> set (tq q) \<Longrightarrow> lb_name x = lb_name y \<Longrightarrow> x = y"
  by (metis bq_index option.inject)

lemma bq_inv_new: "bq_inv (new_broadcastQueue mult)"
  by (simp add: bq_inv_def new_broadcastQueue_def)

section \<open>What each operation does to the queue\<close>

lemma wp_Finished [wp_rules]:
  "(\<And>w'. Q (Inr ()) w') \<Longrightarrow> (\<And>n w'. mb_notifyFd b \<noteq> -1 \<Longrightarrow> Q (Inl (WrapException n)) w') \<Longrightarrow>
   wp (Finished e b) Q w"
  by (simp add: Finished_def Write_def wp_simps)

text \<open>Something queued for this node is waiting to be told that it is finished.\<close>

definition notifies :: "string \<Rightarrow> limitedBroadcast list \<Rightarrow> bool" where
  "notifies n items \<longleftrightarrow> (\<exists>i \<in> set items. lb_name i = n \<and> mb_notifyFd (lb_b i) \<noteq> -1)"

definition deleted :: "limitedBroadcast \<Rightarrow> broadcastQueue \<Rightarrow> broadcastQueue" where
  "deleted x q =
     (if tm q (lb_name x) \<noteq> None then
        q\<lparr>tm := (tm q)(lb_name x := None), tq := filter (\<lambda>i. lb_name i \<noteq> lb_name x) (tq q)\<rparr>
      else q)"

lemma wp_erase_loop:
  assumes "\<And>y. y \<in> set kept \<Longrightarrow> lb_name y \<noteq> lb_name x"
    and "\<And>w'. Q (Inr ()) (q\<lparr>tq := kept @ filter (\<lambda>i. lb_name i \<noteq> lb_name x) items\<rparr>, w')"
    and "\<And>n q' w'. notifies (lb_name x) items \<Longrightarrow> Q (Inl (WrapException n)) (q', w')"
  shows "wp (forE items (\<lambda>i. if Invaidate (lb_b i) (lb_b x) then
           thenE (world (Finished e (lb_b i))) (upd (\<lambda>q. q\<lparr>tq := remove1 i (tq q)\<rparr>)) else ret ())) Q
         (q\<lparr>tq := kept @ items\<rparr>, w)"
  using assms
proof (induction items arbitrary: kept w)
  case Nil
  then show ?case by (simp add: wp_simps)
next
  case (Cons i items)
  show ?case
  proof (cases "lb_name i = lb_name x")
    case True
    have "i \<notin> set kept"
      using True Cons.prems(1) by blast
    then have "remove1 i (kept @ i # items) = kept @ items"
      by (simp add: remove1_append)
    moreover have "wp (forE items (\<lambda>i. if Invaidate (lb_b i) (lb_b x) then
           thenE (world (Finished e (lb_b i))) (upd (\<lambda>q. q\<lparr>tq := remove1 i (tq q)\<rparr>)) else ret ())) Q
         (q\<lparr>tq := kept @ items\<rparr>, w')" for w'
      using Cons.prems True by (intro Cons.IH) (auto simp: notifies_def)
    ultimately show ?thesis
      using True Cons.prems(3) by (auto simp: Invaidate_def notifies_def wp_simps intro!: wp_rules)
  next
    case False
    have "wp (forE items (\<lambda>i. if Invaidate (lb_b i) (lb_b x) then
           thenE (world (Finished e (lb_b i))) (upd (\<lambda>q. q\<lparr>tq := remove1 i (tq q)\<rparr>)) else ret ())) Q
         (q\<lparr>tq := (kept @ [i]) @ items\<rparr>, w)"
      using Cons.prems False by (intro Cons.IH) (auto simp: notifies_def)
    then show ?thesis
      using False by (simp add: Invaidate_def wp_simps)
  qed
qed

lemma wp_deleteItem [wp_rules]:
  assumes "\<And>w'. Q (Inr ()) (deleted x q, w')"
    and "\<And>n q' w'. notifies (lb_name x) (tq q) \<Longrightarrow> Q (Inl (WrapException n)) (q', w')"
  shows "wp (deleteItem e x) Q (q, w)"
proof (cases "tm q (lb_name x)")
  case None
  with assms(1) show ?thesis
    by (simp add: deleteItem_def deleted_def wp_simps)
next
  case (Some y)
  have "wp (forE (tq q) (\<lambda>i. if Invaidate (lb_b i) (lb_b x) then
           thenE (world (Finished e (lb_b i))) (upd (\<lambda>q. q\<lparr>tq := remove1 i (tq q)\<rparr>)) else ret ())) Q
         ((q\<lparr>tm := (tm q)(lb_name x := None)\<rparr>)\<lparr>tq := [] @ tq q\<rparr>, w)"
    using assms Some by (intro wp_erase_loop) (simp_all add: deleted_def)
  then show ?thesis
    using Some by (simp add: deleteItem_def wp_simps)
qed

lemma deleted_inv:
  assumes "bq_inv q"
  shows "bq_inv (deleted x q)"
    and "set (tq (deleted x q)) = {y \<in> set (tq q). lb_name y \<noteq> lb_name x}"
    and "idGen (deleted x q) = idGen q" and "RetransmitMult (deleted x q) = RetransmitMult q"
    and "tm (deleted x q) (lb_name x) = None"
proof -
  have none: "tm q (lb_name x) = None \<longleftrightarrow> (\<forall>y \<in> set (tq q). lb_name y \<noteq> lb_name x)"
    using bq_index [OF assms] by (metis not_Some_eq)
  show "set (tq (deleted x q)) = {y \<in> set (tq q). lb_name y \<noteq> lb_name x}"
    using none by (auto simp: deleted_def)
  show "bq_inv (deleted x q)"
    using assms lb.sorted_filter [of "tq q"]
    by (auto simp: bq_inv_def deleted_def inj_on_def)
qed (auto simp: deleted_def)

text \<open>An item with a fresh name and identifier is inserted in its place.\<close>

lemma addItem_inv:
  assumes "bq_inv q" and name: "\<And>y. y \<in> set (tq q) \<Longrightarrow> lb_name y \<noteq> lb_name x"
    and id: "\<And>y. y \<in> set (tq q) \<Longrightarrow> lb_id y \<noteq> lb_id x" and le: "lb_id x \<le> idGen q"
  shows "bq_inv (addItem x q)" and "set (tq (addItem x q)) = insert x (set (tq q))"
    and "idGen (addItem x q) = idGen q" and "RetransmitMult (addItem x q) = RetransmitMult q"
    and "length (tq (addItem x q)) = Suc (length (tq q))"
proof -
  have new: "lb_less x y \<or> lb_less y x" if "y \<in> set (tq q)" for y
    using id [OF that] by (auto simp: lb_less_def)
  show s: "set (tq (addItem x q)) = insert x (set (tq q))"
    using new by (simp add: addItem_def lb.set_insert_new)
  show "length (tq (addItem x q)) = Suc (length (tq q))"
    using new by (simp add: addItem_def lb.length_set_insert_new)
  have "tm (addItem x q) n = Some y \<longleftrightarrow> y \<in> set (tq (addItem x q)) \<and> lb_name y = n" for n y
    unfolding s using name bq_index [OF assms(1)] by (auto simp: addItem_def)
  moreover have "inj_on lb_id (set (tq (addItem x q)))"
    unfolding s using id bq_ids [OF assms(1)] by (force simp: inj_on_def)
  ultimately show "bq_inv (addItem x q)"
    using bq_sorted [OF assms(1)] lb.sorted_set_insert bq_id_le [OF assms(1)] le s
    by (auto simp: bq_inv_def addItem_def)
qed (simp_all add: addItem_def)

section \<open>Queueing\<close>

lemma next_id_fresh:
  assumes "bq_inv q" and "idGen q \<noteq> UINT32_MAX"
  shows "bq_inv (next_id q)" and "tq (next_id q) = tq q" and "tm (next_id q) = tm q"
    and "RetransmitMult (next_id q) = RetransmitMult q" and "idGen (next_id q) = idGen q + 1"
    and "y \<in> set (tq q) \<Longrightarrow> lb_id y < idGen (next_id q)"
proof -
  have "idGen q < idGen q + 1"
    using assms(2) by (rule word_less_plus_one)
  then have below: "lb_id y < idGen (next_id q)" if "y \<in> set (tq q)" for y
    using bq_id_le [OF assms(1) that] assms(2) by (simp add: next_id_def)
  then show "y \<in> set (tq q) \<Longrightarrow> lb_id y < idGen (next_id q)" .
  have "\<forall>x \<in> set (tq q). lb_id x \<le> idGen (next_id q)"
    using below by (blast intro: less_imp_le)
  then show "bq_inv (next_id q)"
    using assms by (simp add: bq_inv_def next_id_def)
qed (use assms(2) in \<open>simp_all add: next_id_def\<close>)

definition queued_item :: "('w, 'e) env_scheme \<Rightarrow> memberlistBroadcast \<Rightarrow> broadcastQueue \<Rightarrow> limitedBroadcast" where
  "queued_item e b q = \<lparr>transmits = 0, msgLen = of_nat (Broadcast_ByteSizeLong e (mb_msg b)),
     lb_id = idGen q + 1, lb_b = b\<rparr>"

lemma wp_QueueBroadcast:
  assumes "\<And>q' w'. q' = addItem ((queued_item e b q)\<lparr>lb_id := idGen (next_id q)\<rparr>)
        (deleted ((queued_item e b q)\<lparr>lb_id := idGen (next_id q)\<rparr>) (next_id q)) \<Longrightarrow> Q (Inr ()) (q', w')"
    and "\<And>n q' w'. notifies (mb_node b) (tq q) \<Longrightarrow> Q (Inl (WrapException n)) (q', w')"
  shows "wp (QueueBroadcast e b) Q (q, w)"
  unfolding QueueBroadcast_def queueBroadcast_def Let_def
  using assms by (auto simp: wp_simps queued_item_def next_id_def intro!: wp_rules)

lemma QueueBroadcast_result:
  assumes inv: "bq_inv q" and id: "idGen q \<noteq> UINT32_MAX"
    and q': "q' = addItem (queued_item e b q) (deleted (queued_item e b q) (next_id q))"
  shows "bq_inv q'"
    and "set (tq q') = insert (queued_item e b q) {y \<in> set (tq q). lb_name y \<noteq> mb_node b}"
    and "idGen q' = idGen q + 1" and "RetransmitMult q' = RetransmitMult q"
proof -
  let ?x = "queued_item e b q" and ?q = "deleted (queued_item e b q) (next_id q)"
  note n = next_id_fresh [OF inv id]
  note d = deleted_inv [OF n(1), of ?x]
  have nm: "lb_name ?x = mb_node b" and xid: "lb_id ?x = idGen (next_id q)"
    by (simp_all add: queued_item_def n(5))
  have name: "lb_name y \<noteq> lb_name ?x" if "y \<in> set (tq ?q)" for y
    using that d(2) by auto
  have fresh: "lb_id y \<noteq> lb_id ?x" if "y \<in> set (tq ?q)" for y
    using that d(2) n(2,6) xid by fastforce
  have le: "lb_id ?x \<le> idGen ?q"
    using d(3) xid by simp
  note a = addItem_inv [OF d(1) name fresh le]
  show "bq_inv q'" using a(1) q' by simp
  show "set (tq q') = insert ?x {y \<in> set (tq q). lb_name y \<noteq> mb_node b}"
    using a(2) d(2) n(2) nm q' by simp
  show "idGen q' = idGen q + 1" using a(3) d(3) n(5) q' by simp
  show "RetransmitMult q' = RetransmitMult q" using a(4) d(4) n(4) q' by simp
qed

text \<open>
  Queueing a broadcast replaces whatever was queued for the same node by an item
  with no transmission yet and a fresh identifier, leaves the items of other nodes as they
  were and keeps the invariant, as long as the identifier generator does not wrap around.
  It only throws when the replaced item has a descriptor to notify.
\<close>

lemma QueueBroadcast_replaces:
  assumes "bq_inv q" and "idGen q \<noteq> UINT32_MAX"
  shows "wp (QueueBroadcast e b)
     (\<lambda>r s. ((\<exists>n. r = Inl (WrapException n)) \<and> notifies (mb_node b) (tq q)) \<or>
        (r = Inr () \<and> bq_inv (fst s) \<and>
         set (tq (fst s)) = insert (queued_item e b q) {y \<in> set (tq q). lb_name y \<noteq> mb_node b} \<and>
         tm (fst s) (mb_node b) = Some (queued_item e b q))) (q, w)"
proof (rule wp_QueueBroadcast)
  fix q' w'
  have "(queued_item e b q)\<lparr>lb_id := idGen (next_id q)\<rparr> = queued_item e b q"
    using next_id_fresh(5) [OF assms] by (simp add: queued_item_def)
  moreover assume "q' = addItem ((queued_item e b q)\<lparr>lb_id := idGen (next_id q)\<rparr>)
        (deleted ((queued_item e b q)\<lparr>lb_id := idGen (next_id q)\<rparr>) (next_id q))"
  ultimately have q': "q' = addItem (queued_item e b q) (deleted (queued_item e b q) (next_id q))"
    by simp
  note r = QueueBroadcast_result [OF assms q']
  have "lb_name (queued_item e b q) = mb_node b"
    by (simp add: queued_item_def)
  then have "tm q' (mb_node b) = Some (queued_item e b q)"
    using bq_index [OF r(1)] r(2) by auto
  then show "((\<exists>n. Inr () = Inl (WrapException n)) \<and> notifies (mb_node b) (tq q)) \<or>
        (Inr () = Inr () \<and> bq_inv (fst (q', w')) \<and>
         set (tq (fst (q', w'))) = insert (queued_item e b q) {y \<in> set (tq q). lb_name y \<noteq> mb_node b} \<and>
         tm (fst (q', w')) (mb_node b) = Some (queued_item e b q))"
    using r by simp
qed simp

section \<open>Selecting broadcasts\<close>

text \<open>An item after one more transmission.\<close>

definition bumped :: "limitedBroadcast \<Rightarrow> limitedBroadcast" where
  "bumped x = x\<lparr>transmits := transmits x + 1\<rparr>"

abbreviation payload :: "limitedBroadcast list \<Rightarrow> nat" where
  "payload S \<equiv> (\<Sum>x\<leftarrow>S. unat (msgLen x))"

text \<open>
  Having taken the items \<open>S\<close> out of the queue \<open>q0\<close>: the others are still there, the
  messages of \<open>S\<close> are in the packet and fit, and those that may be sent again are remembered.
\<close>

definition gb_inv ::
  "broadcastQueue \<Rightarrow> ComBroadcast \<Rightarrow> bool \<Rightarrow> uint64 \<Rightarrow> uint32 \<Rightarrow> limitedBroadcast list \<Rightarrow> gb_locals \<Rightarrow>
   broadcastQueue \<Rightarrow> bool" where
  "gb_inv q0 cbc0 h0 space tlim S l q \<longleftrightarrow>
     bq_inv q \<and> idGen q = idGen q0 \<and> RetransmitMult q = RetransmitMult q0 \<and>
     distinct S \<and> set S \<subseteq> set (tq q0) \<and> set (tq q) = set (tq q0) - set S \<and>
     reinsert l = map bumped (filter (\<lambda>x. transmits x + 1 < tlim) S) \<and>
     gb_cbc l = cbc0\<lparr>cbc_bs := cbc_bs cbc0 @ map (\<lambda>x. mb_msg (lb_b x)) S\<rparr> \<and>
     unat (bytesUsed l) = payload S \<and> payload S \<le> unat space \<and>
     haveMsg l = (h0 \<or> S \<noteq> [])"

lemma gb_inv_step:
  assumes inv: "gb_inv q0 cbc0 h0 space tlim S l q" and cur: "cur \<in> set (tq q)"
    and fits: "msgLen cur \<le> space - bytesUsed l"
    and l': "bytesUsed l' = bytesUsed l + msgLen cur"
      "gb_cbc l' = addBroadCast (gb_cbc l) (mb_msg (lb_b cur))"
      "reinsert l' = reinsert l @ (if transmits cur + 1 < tlim then [bumped cur] else [])"
      "haveMsg l'"
  shows "gb_inv q0 cbc0 h0 space tlim (S @ [cur]) l' (deleted cur q)"
    and "length (tq (deleted cur q)) < length (tq q)"
proof -
  have bq: "bq_inv q" using inv by (simp add: gb_inv_def)
  note d = deleted_inv [OF bq, of cur]
  have set': "set (tq (deleted cur q)) = set (tq q) - {cur}"
    using d(2) cur bq_name_unique [OF bq _ cur] by auto
  have "bytesUsed l \<le> space"
    using inv by (simp add: gb_inv_def word_le_nat_alt)
  then have le: "unat (msgLen cur) \<le> unat space - unat (bytesUsed l)"
    and used: "unat (bytesUsed l) \<le> unat space"
    using fits by (simp_all add: word_le_nat_alt unat_sub)
  then have "unat (bytesUsed l) + unat (msgLen cur) < 2 ^ 64"
    using unsigned_less [of space, where ?'a = nat] by simp
  then have "unat (bytesUsed l') = unat (bytesUsed l) + unat (msgLen cur)"
    by (simp add: l'(1) unat_word_ariths(1))
  then show "gb_inv q0 cbc0 h0 space tlim (S @ [cur]) l' (deleted cur q)"
    using inv d(1,3,4) set' cur le used l'(2,3,4)
    by (auto simp: gb_inv_def addBroadCast_def)
  have "card (set (tq (deleted cur q))) < card (set (tq q))"
    using set' cur by (metis List.finite_set card_Diff1_less)
  then show "length (tq (deleted cur q)) < length (tq q)"
    using bq_distinct [OF bq] bq_distinct [OF d(1)] by (simp add: distinct_card)
qed

lemma tier_succ: "unat (i + 1) = unat i + 1" if "unat i < 2 ^ 31" for i :: uint32
proof -
  have "unat UINT32_MAX = 2 ^ 32 - 1"
    by (simp add: unsigned_minus_1_eq_mask mask_eq_exp_minus_1)
  with that have "i \<noteq> UINT32_MAX"
    by auto
  then show ?thesis by (rule unat_plus_one)
qed

text \<open>The search keys single out the items of one tier that fit.\<close>

lemma tier_found:
  assumes inv: "bq_inv q" and id: "idGen q \<noteq> UINT32_MAX" and i: "unat i < 2 ^ 31"
    and ne: "lower_bound lb_less (search_lo i free) (tq q) \<noteq> upper_bound lb_less (search_up i) (tq q)"
  defines "cur \<equiv> tq q ! lower_bound lb_less (search_lo i free) (tq q)"
  shows "cur \<in> set (tq q)" and "transmits cur = i" and "msgLen cur \<le> free"
proof -
  have succ: "unat (i + 1) = unat i + 1"
    by (rule tier_succ [OF i])
  have "lb_less (search_lo i free) (search_up i)"
    using succ by (simp add: lb_less_def search_lo_def search_up_def word_less_nat_alt)
  note r = lb.range_nonempty [OF bq_sorted [OF inv] this ne, folded cur_def]
  show mem: "cur \<in> set (tq q)"
    using r(1) by (simp add: cur_def)
  have "lb_id cur < UINT32_MAX"
    using bq_id_le [OF inv mem] id by (metis order_le_less_trans order.not_eq_order_implies_strict word_order.extremum)
  then have "\<not> i + 1 \<le> transmits cur" and "i \<le> transmits cur"
    using r(2,3) word_order.not_eq_extremum [of "msgLen cur"]
    by (auto simp: lb_less_def search_lo_def search_up_def split: if_splits)
  then show eq: "transmits cur = i"
    using succ by (simp add: word_le_nat_alt word_unat_eq_iff)
  then show "msgLen cur \<le> free"
    using r(2) by (auto simp: lb_less_def search_lo_def split: if_splits)
qed

lemma tier_exhausted:
  assumes inv: "bq_inv q" and i: "unat i < 2 ^ 31"
    and e: "lower_bound lb_less (search_lo i free) (tq q) = upper_bound lb_less (search_up i) (tq q)"
    and y: "y \<in> set (tq q)" "transmits y = i"
  shows "free < msgLen y"
proof -
  have succ: "unat (i + 1) = unat i + 1"
    by (rule tier_succ [OF i])
  have "lb_less y (search_lo i free) \<or> lb_less (search_up i) y"
    by (rule lb.range_empty [OF bq_sorted [OF inv] e y(1)])
  moreover have "\<not> i + 1 < i" "i + 1 \<noteq> i"
    using succ by (auto simp: word_less_nat_alt)
  moreover have "\<not> UINT32_MAX < lb_id y"
    by (simp add: word_order.extremum leD)
  ultimately show ?thesis
    using y(2) by (auto simp: lb_less_def search_lo_def search_up_def split: if_splits)
qed


text \<open>
  How a tier ends: with an exception of a write, or having taken further items \<open>T\<close> of the
  tier, until no space was left or no item of the tier fitted.
\<close>

definition tier_post ::
  "broadcastQueue \<Rightarrow> ComBroadcast \<Rightarrow> bool \<Rightarrow> uint64 \<Rightarrow> uint32 \<Rightarrow> uint32 \<Rightarrow> limitedBroadcast list \<Rightarrow>
   exn + bool \<times> gb_locals \<Rightarrow> broadcastQueue \<times> 'w \<Rightarrow> bool" where
  "tier_post q0 cbc0 h0 space tlim i S r s \<longleftrightarrow>
     (\<exists>n. r = Inl (WrapException n)) \<or>
     (\<exists>f l T. r = Inr (f, l) \<and> gb_inv q0 cbc0 h0 space tlim (S @ T) l (fst s) \<and>
        (\<forall>x \<in> set T. transmits x = i) \<and> (f \<longrightarrow> bytesUsed l = space) \<and>
        (\<not> f \<longrightarrow> (\<forall>y \<in> set (tq (fst s)). transmits y = i \<longrightarrow> space - bytesUsed l < msgLen y)))"

lemma tier_post_stop:
  "gb_inv q0 cbc0 h0 space tlim S l (fst s) \<Longrightarrow> (f \<Longrightarrow> bytesUsed l = space) \<Longrightarrow>
   (\<And>y. \<not> f \<Longrightarrow> y \<in> set (tq (fst s)) \<Longrightarrow> transmits y = i \<Longrightarrow> space - bytesUsed l < msgLen y) \<Longrightarrow>
   tier_post q0 cbc0 h0 space tlim i S (Inr (f, l)) s"
  unfolding tier_post_def by (intro disjI2 exI [of _ f] exI [of _ l] exI [of _ "[]"]) auto

lemma tier_post_more:
  assumes "tier_post q0 cbc0 h0 space tlim i (S @ [x]) r s" and "transmits x = i"
  shows "tier_post q0 cbc0 h0 space tlim i S r s"
proof (cases r)
  case (Inl n)
  with assms(1) show ?thesis by (simp add: tier_post_def)
next
  case (Inr p)
  obtain f l T where p: "r = Inr (f, l)" "gb_inv q0 cbc0 h0 space tlim (S @ x # T) l (fst s)"
    "\<forall>y \<in> set (x # T). transmits y = i" "f \<longrightarrow> bytesUsed l = space"
    "\<not> f \<longrightarrow> (\<forall>y \<in> set (tq (fst s)). transmits y = i \<longrightarrow> space - bytesUsed l < msgLen y)"
    using assms Inr by (auto simp: tier_post_def)
  then show ?thesis unfolding tier_post_def by blast
qed

lemma tier_post_throw [simp]: "tier_post q0 cbc0 h0 space tlim i S (Inl (WrapException n)) s"
  by (simp add: tier_post_def)

lemma wp_tier_loop:
  assumes "gb_inv q0 cbc0 h0 (limit - overhead) tlim S l q" and "idGen q0 \<noteq> UINT32_MAX"
    and "unat i < 2 ^ 31" and "length (tq q) < fuel"
  shows "wp (tier_loop fuel e overhead limit tlim i l)
     (tier_post q0 cbc0 h0 (limit - overhead) tlim i S) (q, w)"
  using assms(1,4)
proof (induction fuel arbitrary: S l q w)
  case 0
  then show ?case by simp
next
  case (Suc fuel)
  let ?Q = "tier_post q0 cbc0 h0 (limit - overhead) tlim i"
  let ?free = "limit - overhead - bytesUsed l"
  let ?lo = "lower_bound lb_less (search_lo i ?free) (tq q)"
  let ?up = "upper_bound lb_less (search_up i) (tq q)"
  have bq: "bq_inv q" and id: "idGen q \<noteq> UINT32_MAX"
    using Suc.prems(1) assms(2) by (simp_all add: gb_inv_def)
  consider (full) "?free = 0" | (none) "?free \<noteq> 0" "?lo = ?up" | (some) "?free \<noteq> 0" "?lo \<noteq> ?up"
    by blast
  then show ?case
  proof cases
    case full
    then have "?Q S (Inr (True, l)) (q, w)"
      using Suc.prems(1) by (intro tier_post_stop) simp_all
    with full show ?thesis by (simp add: wp_simps)
  next
    case none
    have "?Q S (Inr (False, l)) (q, w)"
      using tier_exhausted [OF bq assms(3) none(2)] Suc.prems(1) by (intro tier_post_stop) simp_all
    with none show ?thesis by (simp add: wp_simps Let_def)
  next
    case some
    define cur where "cur = tq q ! ?lo"
    note c = tier_found [OF bq id assms(3) some(2), folded cur_def]
    define l1 where "l1 = l\<lparr>haveMsg := True, gb_cbc := addBroadCast (gb_cbc l) (mb_msg (lb_b cur)),
        bytesUsed := bytesUsed l + msgLen cur\<rparr>"
    have rest: "wp (tier_loop fuel e overhead limit tlim i l') (?Q S) (deleted cur q, w')"
      if "l' = l1\<lparr>reinsert := reinsert l1 @ (if transmits cur + 1 < tlim then [bumped cur] else [])\<rparr>" for l' w'
      using gb_inv_step [OF Suc.prems(1) c(1,3), of l'] that Suc.prems(2)
      by (intro wp_mono [OF Suc.IH tier_post_more [OF _ c(2)]]) (auto simp: l1_def)
    have "wp (tier_loop fuel e overhead limit tlim i l1) (?Q S) (deleted cur q, w')"
      if "tlim \<le> transmits cur + 1" for w'
      using rest [of l1] that by (simp add: not_less)
    moreover have "wp (tier_loop fuel e overhead limit tlim i
        (l1\<lparr>reinsert := reinsert l @ [cur\<lparr>transmits := transmits cur + 1\<rparr>]\<rparr>)) (?Q S) (deleted cur q, w')"
      if "\<not> tlim \<le> transmits cur + 1" for w'
      using rest that by (simp add: not_le bumped_def l1_def)
    ultimately show ?thesis
      using some
      by (auto simp: wp_simps Let_def l1_def [symmetric] cur_def [symmetric] intro!: wp_deleteItem wp_Finished)
  qed
qed


lemma gb_inv_later:
  assumes "gb_inv q0 cbc0 h0 space tlim S l q" and "gb_inv q0 cbc0 h0 space tlim (S @ T) l' q'"
  shows "set (tq q') \<subseteq> set (tq q)" and "length (tq q') \<le> length (tq q)"
    and "space - bytesUsed l' \<le> space - bytesUsed l"
proof -
  show sub: "set (tq q') \<subseteq> set (tq q)"
    using assms by (auto simp: gb_inv_def)
  have "distinct (tq q')" "distinct (tq q)"
    using assms bq_distinct by (auto simp: gb_inv_def)
  then show "length (tq q') \<le> length (tq q)"
    using card_mono [OF _ sub] by (simp add: distinct_card)
  have "unat (bytesUsed l) \<le> unat (bytesUsed l')" "unat (bytesUsed l') \<le> unat space"
    using assms by (auto simp: gb_inv_def)
  then show "space - bytesUsed l' \<le> space - bytesUsed l"
    by (simp add: word_le_nat_alt unat_sub)
qed

text \<open>Over all tiers: items with fewer transmissions first, and nothing that would still fit is left.\<close>

definition tiers_post ::
  "broadcastQueue \<Rightarrow> ComBroadcast \<Rightarrow> bool \<Rightarrow> uint64 \<Rightarrow> uint32 \<Rightarrow> uint32 list \<Rightarrow> limitedBroadcast list \<Rightarrow>
   exn + gb_locals \<Rightarrow> broadcastQueue \<times> 'w \<Rightarrow> bool" where
  "tiers_post q0 cbc0 h0 space tlim is S r s \<longleftrightarrow>
     (\<exists>n. r = Inl (WrapException n)) \<or>
     (\<exists>l T. r = Inr l \<and> gb_inv q0 cbc0 h0 space tlim (S @ T) l (fst s) \<and>
        sorted_wrt (\<lambda>x y. transmits x \<le> transmits y) T \<and> transmits ` set T \<subseteq> set is \<and>
        (bytesUsed l = space \<or>
         (\<forall>y \<in> set (tq (fst s)). transmits y \<in> set is \<longrightarrow> space - bytesUsed l < msgLen y)))"

lemma tiers_post_stop:
  assumes "gb_inv q0 cbc0 h0 space tlim (S @ T) l (fst s)" "\<forall>x \<in> set T. transmits x = i" "i \<in> set is"
    "bytesUsed l = space"
  shows "tiers_post q0 cbc0 h0 space tlim is S (Inr l) s"
  using assms unfolding tiers_post_def
  by (intro disjI2 exI [of _ l] exI [of _ T]) (auto simp: sorted_wrt_iff_nth_less)

lemma tiers_post_more:
  assumes post: "tiers_post q0 cbc0 h0 space tlim is (S @ T) r s"
    and T: "\<forall>x \<in> set T. transmits x = i" and i: "\<forall>j \<in> set is. i \<le> j"
    and inv: "gb_inv q0 cbc0 h0 space tlim (S @ T) l q"
    and big: "\<forall>y \<in> set (tq q). transmits y = i \<longrightarrow> space - bytesUsed l < msgLen y"
  shows "tiers_post q0 cbc0 h0 space tlim (i # is) S r s"
proof (cases r)
  case (Inl n)
  with post show ?thesis by (simp add: tiers_post_def)
next
  case (Inr l')
  obtain U where U: "gb_inv q0 cbc0 h0 space tlim (S @ T @ U) l' (fst s)"
    "sorted_wrt (\<lambda>x y. transmits x \<le> transmits y) U" "transmits ` set U \<subseteq> set is"
    "bytesUsed l' = space \<or>
       (\<forall>y \<in> set (tq (fst s)). transmits y \<in> set is \<longrightarrow> space - bytesUsed l' < msgLen y)"
    using post Inr by (auto simp: tiers_post_def)
  have "sorted_wrt (\<lambda>x y. transmits x \<le> transmits y) T"
    using T by (simp add: sorted_wrt_iff_nth_less)
  then have "sorted_wrt (\<lambda>x y. transmits x \<le> transmits y) (T @ U)"
    using U(2,3) T i by (fastforce simp: sorted_wrt_append)
  moreover have "space - bytesUsed l' < msgLen y" if "y \<in> set (tq (fst s))" "transmits y = i" for y
    using gb_inv_later [OF inv, of U l' "fst s"] U(1) big that by (auto intro: order_le_less_trans)
  moreover have "transmits ` set (T @ U) \<subseteq> set (i # is)"
    using T U(3) by auto
  ultimately show ?thesis
    using Inr U(1,4) unfolding tiers_post_def
    by (intro disjI2 exI [of _ l'] exI [of _ "T @ U"]) auto
qed

lemma wp_tiers_loop:
  fixes e :: "('w, 'e) env_scheme"
  assumes "gb_inv q0 cbc0 h0 (limit - overhead) tlim S l q" and "idGen q0 \<noteq> UINT32_MAX"
    and "\<forall>i \<in> set is. unat i < 2 ^ 31" and "sorted is" and "length (tq q) < fuel"
  shows "wp (tiers_loop is fuel e overhead limit tlim l)
     (tiers_post q0 cbc0 h0 (limit - overhead) tlim is S) (q, w)"
  using assms(1,3,4,5)
proof (induction "is" arbitrary: S l q w)
  case Nil
  then have "tiers_post q0 cbc0 h0 (limit - overhead) tlim [] S (Inr l) (q, w)"
    unfolding tiers_post_def by (intro disjI2 exI [of _ l] exI [of _ "[]"]) simp
  then show ?case by (simp add: wp_simps)
next
  case (Cons i "is")
  let ?space = "limit - overhead"
  let ?Q = "tiers_post q0 cbc0 h0 ?space tlim (i # is) S"
  have stop: "?Q (Inr l') s"
    if "gb_inv q0 cbc0 h0 ?space tlim (S @ T) l' (fst s)" "\<forall>x \<in> set T. transmits x = i" "bytesUsed l' = ?space"
    for l' s T
    using that by (intro tiers_post_stop [of _ _ _ _ _ _ T _ _ i]) simp_all
  have more: "wp (tiers_loop is fuel e overhead limit tlim l') ?Q s"
    if T: "gb_inv q0 cbc0 h0 ?space tlim (S @ T) l' (fst s)" "\<forall>x \<in> set T. transmits x = i"
      "\<forall>y \<in> set (tq (fst s)). transmits y = i \<longrightarrow> ?space - bytesUsed l' < msgLen y" for l' s T
  proof -
    have "wp (tiers_loop is fuel e overhead limit tlim l')
        (tiers_post q0 cbc0 h0 ?space tlim is (S @ T)) (fst s, snd s)"
      using Cons.prems gb_inv_later(2) [OF Cons.prems(1) T(1)] T(1) by (intro Cons.IH) auto
    then have "wp (tiers_loop is fuel e overhead limit tlim l')
        (tiers_post q0 cbc0 h0 ?space tlim is (S @ T)) s"
      by simp
    then show ?thesis
      by (rule wp_mono) (rule tiers_post_more [OF _ T(2) _ T(1,3)], use Cons.prems in simp_all)
  qed
  show ?case
    unfolding tiers_loop.simps wp_bindE
  proof (rule wp_mono [OF wp_tier_loop [OF Cons.prems(1) assms(2)]])
    show "unat i < 2 ^ 31" "length (tq q) < fuel"
      using Cons.prems by simp_all
  next
    fix r and s :: "broadcastQueue \<times> 'w" assume "tier_post q0 cbc0 h0 ?space tlim i S r s"
    then show "(\<forall>x. r = Inl x \<longrightarrow> ?Q (Inl x) s) \<and>
       (\<forall>a. r = Inr a \<longrightarrow> wp (case a of (finish, l1) \<Rightarrow>
          if finish then ret l1 else tiers_loop is fuel e overhead limit tlim l1) ?Q s)"
      unfolding tier_post_def
      by (elim disjE exE conjE) (auto simp: wp_simps tiers_post_def [of _ _ _ _ _ _ _ "Inl x" for x] intro: stop more)
  qed
qed


section \<open>Putting the survivors back\<close>

lemma wp_reinsert:
  assumes "bq_inv q" and "distinct xs" and "inj_on lb_name (set xs)" and "inj_on lb_id (set xs)"
    and "\<And>x y. x \<in> set xs \<Longrightarrow> y \<in> set (tq q) \<Longrightarrow> lb_name y \<noteq> lb_name x \<and> lb_id y \<noteq> lb_id x"
    and "\<And>x. x \<in> set xs \<Longrightarrow> lb_id x \<le> idGen q"
    and "\<And>q'. bq_inv q' \<Longrightarrow> set (tq q') = set (tq q) \<union> set xs \<Longrightarrow> idGen q' = idGen q \<Longrightarrow>
          RetransmitMult q' = RetransmitMult q \<Longrightarrow> Q (Inr ()) (q', w)"
  shows "wp (forE xs (\<lambda>x. upd (addItem x))) Q (q, w)"
  using assms
proof (induction xs arbitrary: q)
  case Nil
  then show ?case by (simp add: wp_simps)
next
  case (Cons x xs)
  have new: "lb_name y \<noteq> lb_name x" "lb_id y \<noteq> lb_id x" if "y \<in> set (tq q)" for y
    using Cons.prems(5) that by simp_all
  have "lb_id x \<le> idGen q"
    using Cons.prems(6) by simp
  note a = addItem_inv [OF Cons.prems(1) new this]
  have "wp (forE xs (\<lambda>x. upd (addItem x))) Q (addItem x q, w)"
  proof (rule Cons.IH)
    show "lb_name y \<noteq> lb_name z \<and> lb_id y \<noteq> lb_id z" if "z \<in> set xs" "y \<in> set (tq (addItem x q))" for z y
      using Cons.prems(2-5) that a(2) by (auto simp: inj_on_def)
  qed (use Cons.prems a in auto)
  then show ?case by (simp add: wp_simps)
qed

lemma bumped_simps [simp]:
  "lb_b (bumped x) = lb_b x" "lb_id (bumped x) = lb_id x" "msgLen (bumped x) = msgLen x"
  by (simp_all add: bumped_def)

text \<open>What \<^verbatim>\<open>GetBroadcasts\<close> leaves: everything not taken, and what was taken and may go out again.\<close>

lemma wp_reinsert_taken:
  assumes q0: "bq_inv q0" and inv: "gb_inv q0 cbc0 h0 space tlim S l q"
    and Q: "\<And>q'. bq_inv q' \<Longrightarrow> RetransmitMult q' = RetransmitMult q0 \<Longrightarrow> idGen q' = idGen q0 \<Longrightarrow>
      set (tq q') = (set (tq q0) - set S) \<union> bumped ` {x \<in> set S. transmits x + 1 < tlim} \<Longrightarrow>
      Q (Inr ()) (q', w)"
  shows "wp (forE (reinsert l) (\<lambda>x. upd (addItem x))) Q (q, w)"
proof -
  let ?K = "filter (\<lambda>x. transmits x + 1 < tlim) S"
  have S: "distinct S" "set S \<subseteq> set (tq q0)" "set (tq q) = set (tq q0) - set S"
    and re: "reinsert l = map bumped ?K" and bq: "bq_inv q"
    and same: "idGen q = idGen q0" "RetransmitMult q = RetransmitMult q0"
    using inv by (simp_all add: gb_inv_def)
  have names: "lb_name x \<noteq> lb_name y \<and> lb_id x \<noteq> lb_id y"
    if "x \<in> set (tq q0)" "y \<in> set (tq q0)" "x \<noteq> y" for x y
    using that bq_name_unique [OF q0] bq_ids [OF q0] by (auto simp: inj_on_def)
  show ?thesis unfolding re
  proof (rule wp_reinsert [OF bq])
    show "distinct (map bumped ?K)"
      using S names by (force simp: distinct_map inj_on_def dest: arg_cong [of _ _ lb_id])
    show "inj_on lb_name (set (map bumped ?K))" "inj_on lb_id (set (map bumped ?K))"
      using S names by (force simp: inj_on_def)+
  next
    fix x y assume "x \<in> set (map bumped ?K)" "y \<in> set (tq q)"
    then show "lb_name y \<noteq> lb_name x \<and> lb_id y \<noteq> lb_id x"
      using S names by fastforce
  next
    show "lb_id x \<le> idGen q" if "x \<in> set (map bumped ?K)" for x
      using that S(2) bq_id_le [OF q0] same(1) by auto
  next
    fix q' assume "bq_inv q'" "set (tq q') = set (tq q) \<union> set (map bumped ?K)"
      "idGen q' = idGen q" "RetransmitMult q' = RetransmitMult q"
    with S(3) same show "Q (Inr ()) (q', w)"
      by (intro Q) auto
  qed
qed


section \<open>The whole of \<^verbatim>\<open>GetBroadcasts\<close>\<close>

lemma unat_of_nat32: "n < 2 ^ 32 \<Longrightarrow> unat (of_nat n :: uint32) = n"
  by (simp add: unat_of_nat)

lemma set_tier_range: "i \<in> set (tier_range lo hi) \<longleftrightarrow> lo \<le> i \<and> i \<le> hi"
proof
  assume "i \<in> set (tier_range lo hi)"
  then obtain n where n: "i = of_nat n" "unat lo \<le> n" "n \<le> unat hi"
    by (auto simp: tier_range_def less_Suc_eq_le)
  moreover have "n < 2 ^ 32"
    using n(3) unsigned_less [of hi, where ?'a = nat] by simp
  ultimately show "lo \<le> i \<and> i \<le> hi"
    by (simp add: word_le_nat_alt unat_of_nat32)
next
  assume "lo \<le> i \<and> i \<le> hi"
  then have "unat i \<in> set [unat lo ..< Suc (unat hi)]"
    by (auto simp: word_le_nat_alt)
  then show "i \<in> set (tier_range lo hi)"
    unfolding tier_range_def set_map by (intro image_eqI [of _ _ "unat i"]) simp_all
qed

lemma sorted_tier_range: "sorted (tier_range lo hi)"
proof -
  have *: "(of_nat a :: uint32) \<le> of_nat b" if "a \<le> b" "b \<le> unat hi" for a b
    using that unsigned_less [of hi, where ?'a = nat]
    by (simp add: word_le_nat_alt unat_of_nat32)
  have "sorted_wrt (\<lambda>a b. (of_nat a :: uint32) \<le> of_nat b) [unat lo ..< Suc (unat hi)]"
    by (rule sorted_wrt_mono_rel [OF _ sorted_wrt_upt]) (auto intro: *)
  then show ?thesis
    by (simp add: tier_range_def sorted_wrt_map del: upt_Suc)
qed

lemma transmits_between:
  assumes "bq_inv q" and "x \<in> set (tq q)"
  shows "transmits (hd (tq q)) \<le> transmits x" and "transmits x \<le> transmits (last (tq q))"
proof -
  have *: "transmits a \<le> transmits b" if "lb_less a b" for a b
    using that by (auto simp: lb_less_def split: if_splits)
  have mono: "sorted_wrt (\<lambda>a b. transmits a \<le> transmits b) (tq q)"
    by (rule sorted_wrt_mono_rel [OF _ bq_sorted [OF assms(1)]]) (rule *)
  show "transmits (hd (tq q)) \<le> transmits x"
    using mono assms(2) by (cases "tq q") auto
  obtain ys z where "tq q = ys @ [z]"
    using assms(2) by (cases "tq q" rule: rev_cases) auto
  then show "transmits x \<le> transmits (last (tq q))"
    using mono assms(2) by (auto simp: sorted_wrt_append)
qed

definition gb_post ::
  "broadcastQueue \<Rightarrow> ComBroadcast \<Rightarrow> uint64 \<Rightarrow> uint32 \<Rightarrow>
   exn + bool \<times> ComBroadcast \<Rightarrow> broadcastQueue \<times> 'w \<Rightarrow> bool" where
  "gb_post q0 cbc0 space tlim r s \<longleftrightarrow>
     (\<exists>n. r = Inl (WrapException n)) \<or>
     (\<exists>S have. r = Inr (have, cbc0\<lparr>cbc_bs := cbc_bs cbc0 @ map (\<lambda>x. mb_msg (lb_b x)) S\<rparr>) \<and>
        (S \<noteq> [] \<longrightarrow> have) \<and> (tq q0 = [] \<longrightarrow> \<not> have) \<and>
        distinct S \<and> set S \<subseteq> set (tq q0) \<and> sorted_wrt (\<lambda>x y. transmits x \<le> transmits y) S \<and>
        payload S \<le> unat space \<and>
        (payload S = unat space \<or> (\<forall>y \<in> set (tq q0) - set S. unat space < payload S + unat (msgLen y))) \<and>
        bq_inv (fst s) \<and> idGen (fst s) = idGen q0 \<and> RetransmitMult (fst s) = RetransmitMult q0 \<and>
        set (tq (fst s)) = (set (tq q0) - set S) \<union> bumped ` {x \<in> set S. transmits x + 1 < tlim})"

lemma gb_post_cases:
  assumes "gb_post q0 cbc0 space tlim r s"
  obtains (throws) n where "r = Inl (WrapException n)"
  | (packet) S h where "r = Inr (h, cbc0\<lparr>cbc_bs := cbc_bs cbc0 @ map (\<lambda>x. mb_msg (lb_b x)) S\<rparr>)"
      "S \<noteq> [] \<longrightarrow> h" "distinct S" "set S \<subseteq> set (tq q0)" "sorted_wrt (\<lambda>x y. transmits x \<le> transmits y) S"
      "payload S \<le> unat space"
      "payload S = unat space \<or> (\<forall>y \<in> set (tq q0) - set S. unat space < payload S + unat (msgLen y))"
      "bq_inv (fst s)"
      "set (tq (fst s)) = (set (tq q0) - set S) \<union> bumped ` {x \<in> set S. transmits x + 1 < tlim}"
  using assms unfolding gb_post_def by blast

lemma wp_GetBroadcasts:
  assumes inv: "bq_inv q" and id: "idGen q \<noteq> UINT32_MAX"
    and tr: "\<forall>x \<in> set (tq q). unat (transmits x) < 2 ^ 31 - 1"
    and tlim: "retransmitLimit e (RetransmitMult q) n = Inr tlim"
  shows "wp (GetBroadcasts e n overhead limit cbc) (gb_post q cbc (limit - overhead) tlim) (q, w)"
proof (cases "tq q = []")
  case True
  have "gb_post q cbc (limit - overhead) tlim (Inr (False, cbc)) (q, w)"
    unfolding gb_post_def using inv True by (intro disjI2 exI [of _ "[]"] exI [of _ False]) simp
  with True show ?thesis by (simp add: GetBroadcasts_def wp_simps)
next
  case False
  let ?space = "limit - overhead"
  let ?lo = "transmits (hd (tq q))" and ?hi = "transmits (last (tq q))"
  have hi: "unat ?hi < 2 ^ 31 - 1"
    using tr False by simp
  have range: "\<forall>i \<in> set (tier_range ?lo ?hi). unat i < 2 ^ 31"
    using hi by (auto simp: set_tier_range word_le_nat_alt)
  have covered: "transmits y \<in> set (tier_range ?lo ?hi)" if "y \<in> set (tq q)" for y
    using transmits_between [OF inv that] by (simp add: set_tier_range)
  have finish: "wp (thenE (forE (reinsert l) (\<lambda>x. upd (addItem x))) (ret (haveMsg l, gb_cbc l)))
      (gb_post q cbc ?space tlim) s"
    if l: "gb_inv q cbc h0 ?space tlim T l (fst s)" "sorted_wrt (\<lambda>x y. transmits x \<le> transmits y) T"
      "bytesUsed l = ?space \<or> (\<forall>y \<in> set (tq (fst s)). transmits y \<in> set (tier_range ?lo ?hi) \<longrightarrow>
         ?space - bytesUsed l < msgLen y)" for l s T h0
  proof -
    have T: "distinct T" "set T \<subseteq> set (tq q)" "set (tq (fst s)) = set (tq q) - set T"
      "haveMsg l = (h0 \<or> T \<noteq> [])" "unat (bytesUsed l) = payload T" "payload T \<le> unat ?space"
      "gb_cbc l = cbc\<lparr>cbc_bs := cbc_bs cbc @ map (\<lambda>x. mb_msg (lb_b x)) T\<rparr>"
      using l(1) by (simp_all add: gb_inv_def)
    have "unat (?space - bytesUsed l) = unat ?space - payload T"
      using T(5,6) by (simp add: unat_sub word_le_nat_alt)
    then have "payload T = unat ?space \<or> (\<forall>y \<in> set (tq q) - set T. unat ?space < payload T + unat (msgLen y))"
      using l(3) covered T(3,5,6) by (fastforce simp: word_less_nat_alt)
    then have "gb_post q cbc ?space tlim (Inr (haveMsg l, gb_cbc l)) (q', snd s)"
      if "bq_inv q'" "RetransmitMult q' = RetransmitMult q" "idGen q' = idGen q"
        "set (tq q') = (set (tq q) - set T) \<union> bumped ` {x \<in> set T. transmits x + 1 < tlim}" for q'
      unfolding gb_post_def using that T l(2) False
      by (intro disjI2 exI [of _ T] exI [of _ "haveMsg l"]) simp
    then have "wp (thenE (forE (reinsert l) (\<lambda>x. upd (addItem x))) (ret (haveMsg l, gb_cbc l)))
      (gb_post q cbc ?space tlim) (fst s, snd s)"
      unfolding wp_thenE by (intro wp_reinsert_taken [OF inv l(1)]) (simp add: wp_simps)
    then show ?thesis by simp
  qed
  have loop: "wp (tiers_loop (tier_range ?lo ?hi) (Suc (length (tq q))) e overhead limit tlim
        \<lparr>bytesUsed = 0, gb_cbc = cbc, reinsert = [], haveMsg = (g \<noteq> 0)\<rparr>)
      (tiers_post q cbc (g \<noteq> 0) ?space tlim (tier_range ?lo ?hi) []) (q, w')" for g :: int and w'
    using inv id range by (intro wp_tiers_loop) (auto simp: gb_inv_def sorted_tier_range)
  have "wp (bindE (tiers_loop (tier_range ?lo ?hi) (Suc (length (tq q))) e overhead limit tlim
        \<lparr>bytesUsed = 0, gb_cbc = cbc, reinsert = [], haveMsg = (g \<noteq> 0)\<rparr>) (\<lambda>l.
          thenE (forE (reinsert l) (\<lambda>x. upd (addItem x))) (ret (haveMsg l, gb_cbc l))))
      (gb_post q cbc ?space tlim) (q, w')" for g :: int and w'
    unfolding wp_bindE
    by (rule wp_mono [OF loop]) (auto simp: tiers_post_def gb_post_def [of _ _ _ _ "Inl x" for x] intro: finish)
  then show ?thesis
    using False tlim hi by (simp add: GetBroadcasts_def wp_simps Let_def)
qed


text \<open>
  C16. What \<^verbatim>\<open>GetBroadcasts\<close> appends to the packet is a duplicate-free choice of
  queued messages, those sent least often first. Together they fit into the limit less the
  overhead, and the choice is maximal: no message left behind would fit into the space
  that remains, unless none remains.
\<close>

theorem GetBroadcasts_packet:
  assumes "bq_inv q" and "idGen q \<noteq> UINT32_MAX" and "\<forall>x \<in> set (tq q). unat (transmits x) < 2 ^ 31 - 1"
    and "overhead \<le> limit" and "retransmitLimit e (RetransmitMult q) n = Inr tlim"
  shows "wp (GetBroadcasts e n overhead limit cbc)
     (onReturn (\<lambda>(_, cbc') _. \<exists>S. distinct S \<and> set S \<subseteq> set (tq q) \<and>
        cbc' = cbc\<lparr>cbc_bs := cbc_bs cbc @ map (\<lambda>x. mb_msg (lb_b x)) S\<rparr> \<and>
        sorted_wrt (\<lambda>x y. transmits x \<le> transmits y) S \<and>
        payload S \<le> unat limit - unat overhead \<and>
        (payload S = unat limit - unat overhead \<or>
         (\<forall>y \<in> set (tq q) - set S. unat limit - unat overhead < payload S + unat (msgLen y))))) (q, w)"
proof -
  have "unat (limit - overhead) = unat limit - unat overhead"
    using assms(4) by (simp add: unat_sub word_le_nat_alt)
  then show ?thesis
    by (intro wp_mono [OF wp_GetBroadcasts [OF assms(1,2,3,5)]]) (elim gb_post_cases, auto)
qed

text \<open>
  C17. \<^verbatim>\<open>GetBroadcasts\<close> always ends: a failed write to a notification pipe throws,
  otherwise it returns a packet. The queue then satisfies its invariant and holds what was
  not chosen unchanged and, of what was chosen, exactly the messages that stay below the
  retransmission limit, each counted once more.
\<close>

theorem GetBroadcasts_total:
  assumes "bq_inv q" and "idGen q \<noteq> UINT32_MAX" and "\<forall>x \<in> set (tq q). unat (transmits x) < 2 ^ 31 - 1"
    and "retransmitLimit e (RetransmitMult q) n = Inr tlim"
  shows "wp (GetBroadcasts e n overhead limit cbc)
     (\<lambda>r s. (\<exists>k. r = Inl (WrapException k)) \<or>
        (\<exists>S. r = Inr (True, cbc\<lparr>cbc_bs := cbc_bs cbc @ map (\<lambda>x. mb_msg (lb_b x)) S\<rparr>) \<and>
           S \<noteq> [] \<and> set S \<subseteq> set (tq q) \<and> bq_inv (fst s) \<and>
           set (tq (fst s)) = (set (tq q) - set S) \<union> bumped ` {x \<in> set S. transmits x + 1 < tlim}) \<or>
        (\<exists>have. r = Inr (have, cbc) \<and> bq_inv (fst s) \<and> set (tq (fst s)) = set (tq q))) (q, w)"
proof (rule wp_mono [OF wp_GetBroadcasts [OF assms]])
  fix r s assume "gb_post q cbc (limit - overhead) tlim r s"
  then show "(\<exists>k. r = Inl (WrapException k)) \<or>
        (\<exists>S. r = Inr (True, cbc\<lparr>cbc_bs := cbc_bs cbc @ map (\<lambda>x. mb_msg (lb_b x)) S\<rparr>) \<and>
           S \<noteq> [] \<and> set S \<subseteq> set (tq q) \<and> bq_inv (fst s) \<and>
           set (tq (fst s)) = (set (tq q) - set S) \<union> bumped ` {x \<in> set S. transmits x + 1 < tlim}) \<or>
        (\<exists>have. r = Inr (have, cbc) \<and> bq_inv (fst s) \<and> set (tq (fst s)) = set (tq q))"
  proof (cases rule: gb_post_cases)
    case (packet S h)
    then show ?thesis by (cases "S = []") auto
  qed simp
qed

section \<open>Pruning and clearing\<close>

lemma bq_inv_butlast:
  assumes "bq_inv q" and "tq q \<noteq> []"
  shows "bq_inv (q\<lparr>tm := (tm q)(lb_name (last (tq q)) := None), tq := butlast (tq q)\<rparr>)"
proof -
  obtain ys z where q: "tq q = ys @ [z]"
    using assms(2) by (cases "tq q" rule: rev_cases) auto
  have "lb_name y \<noteq> lb_name z" if "y \<in> set ys" for y
    using bq_name_unique [OF assms(1), of y z] bq_distinct [OF assms(1)] that q by auto
  with assms(1) q show ?thesis
    by (auto simp: bq_inv_def sorted_wrt_append inj_on_def)
qed

lemma wp_prune_loop:
  assumes "bq_inv q" and "length (tq q) = k"
    and "\<And>q' w'. bq_inv q' \<Longrightarrow> tq q' = take (unat maxRetain) (tq q) \<Longrightarrow> idGen q' = idGen q \<Longrightarrow> Q (Inr ()) (q', w')"
    and "\<And>n q' w'. Q (Inl (WrapException n)) (q', w')"
  shows "wp (prune_loop k e maxRetain) Q (q, w)"
  using assms(1,2,3)
proof (induction k arbitrary: q w)
  case 0
  then show ?case by (simp add: wp_simps)
next
  case (Suc k)
  show ?case
  proof (cases "unat maxRetain < Suc k")
    case False
    with Suc.prems show ?thesis by (simp add: wp_simps)
  next
    case True
    define q1 where "q1 = q\<lparr>tm := (tm q)(lb_name (last (tq q)) := None), tq := butlast (tq q)\<rparr>"
    have ne: "tq q \<noteq> []" using Suc.prems(2) by auto
    have "wp (prune_loop k e maxRetain) Q (q1, w')" for w'
    proof (rule Suc.IH)
      show "bq_inv q1"
        unfolding q1_def by (rule bq_inv_butlast [OF Suc.prems(1) ne])
      show "length (tq q1) = k" using Suc.prems(2) by (simp add: q1_def)
      show "Q (Inr ()) (q', w')"
        if "bq_inv q'" "tq q' = take (unat maxRetain) (tq q1)" "idGen q' = idGen q1" for q' w'
        using that True Suc.prems(2) by (intro Suc.prems(3)) (simp_all add: q1_def take_butlast)
    qed
    then show ?thesis
      using True ne assms(4) by (auto simp: wp_simps Let_def q1_def intro!: wp_Finished)
  qed
qed

text \<open>
  \<^verbatim>\<open>Prune\<close> keeps the first \<^verbatim>\<open>maxRetain\<close> items of the order, that is the least often
  transmitted ones, and forgets the others in both structures.
\<close>

lemma Prune_keeps_prefix:
  assumes "bq_inv q"
  shows "wp (Prune e maxRetain)
     (\<lambda>r s. (\<exists>n. r = Inl (WrapException n)) \<or>
        (r = Inr () \<and> bq_inv (fst s) \<and> tq (fst s) = take (unat maxRetain) (tq q))) (q, w)"
  using assms by (simp add: Prune_def wp_simps wp_prune_loop)

lemma wp_bq_clear:
  assumes "\<And>w'. Q (Inr ()) (q\<lparr>idGen := 0, tq := [], tm := Map.empty\<rparr>, w')"
    and "\<And>n q' w'. Q (Inl (WrapException n)) (q', w')"
  shows "wp (bq_clear e) Q (q, w)"
proof -
  let ?I = "\<lambda>r s. fst s = q\<lparr>idGen := 0\<rparr> \<and> (r = Inr () \<or> (\<exists>n. r = Inl (WrapException n)))"
  have "wp (forE items (\<lambda>i. world (Finished e (lb_b i)))) ?I (q\<lparr>idGen := 0\<rparr>, w)" for items w
    by (induction items arbitrary: w) (auto simp: wp_simps intro!: wp_Finished)
  note loop = this
  show ?thesis
    unfolding bq_clear_def wp_simps fst_conv snd_conv
    by (rule allI impI conjI | simp add: wp_simps | rule wp_mono [OF loop] | auto simp: assms)+
qed

lemma bq_inv_cleared: "bq_inv (q\<lparr>idGen := 0, tq := [], tm := Map.empty\<rparr>)"
  by (simp add: bq_inv_def)

section \<open>The contract\<close>

text \<open>
  What the member list relies on: seen from outside, the queue is a map from node names to
  the broadcast pending for each. \<open>room\<close> is the number of broadcasts that can still be queued
  before identifiers repeat. A client that queues several broadcasts finds, for each node,
  the last one.
\<close>

locale node_queue =
  fixes enqueue :: "memberlistBroadcast \<Rightarrow> ('q \<times> 'w, unit) prog"
    and pending :: "'q \<Rightarrow> string \<rightharpoonup> memberlistBroadcast"
    and room :: "'q \<Rightarrow> nat"
  assumes enqueue: "0 < room q \<Longrightarrow> wp (enqueue b) (\<lambda>r s.
      ((\<exists>n. r = Inl (WrapException n)) \<and> (\<exists>b'. pending q (mb_node b) = Some b' \<and> mb_notifyFd b' \<noteq> -1)) \<or>
      (r = Inr () \<and> pending (fst s) = (pending q)(mb_node b \<mapsto> b) \<and> room q \<le> Suc (room (fst s)))) (q, w)"
begin

lemma latest_wins:
  assumes "length bs \<le> room q"
  shows "wp (forE bs enqueue) (\<lambda>r s.
     ((\<exists>n. r = Inl (WrapException n)) \<and> (\<exists>b' \<in> set bs \<union> ran (pending q). mb_notifyFd b' \<noteq> -1)) \<or>
     (r = Inr () \<and> pending (fst s) = pending q ++ map_of (rev (map (\<lambda>b. (mb_node b, b)) bs)))) (q, w)"
  using assms
proof (induction bs arbitrary: q w)
  case Nil
  then show ?case by (simp add: wp_simps)
next
  case (Cons b bs)
  let ?Q = "\<lambda>bs q r s. ((\<exists>n. r = Inl (WrapException n)) \<and> (\<exists>b' \<in> set bs \<union> ran (pending q). mb_notifyFd b' \<noteq> -1)) \<or>
     (r = Inr () \<and> pending (fst s) = pending q ++ map_of (rev (map (\<lambda>b. (mb_node b, b)) bs)))"
  have "wp (forE bs enqueue) (?Q (b # bs) q) s"
    if s: "pending (fst s) = (pending q)(mb_node b \<mapsto> b)" "room q \<le> Suc (room (fst s))" for s
  proof -
    have "ran (pending (fst s)) \<subseteq> insert b (ran (pending q))"
      unfolding s(1) by (auto simp: ran_def)
    moreover have "wp (forE bs enqueue) (?Q bs (fst s)) (fst s, snd s)"
      using Cons.prems s(2) by (intro Cons.IH) simp
    then have "wp (forE bs enqueue) (?Q bs (fst s)) s" by simp
    ultimately show ?thesis
      by (elim wp_mono) (auto simp: s(1) map_add_def fun_eq_iff split: option.split)
  qed
  then show ?case
    using Cons.prems unfolding forE.simps wp_thenE
    by (intro wp_mono [OF enqueue]) (auto simp: ran_def)
qed

end

definition bq_pending :: "broadcastQueue \<Rightarrow> string \<rightharpoonup> memberlistBroadcast" where
  "bq_pending q n = map_option lb_b (tm q n)"

definition bq_room :: "broadcastQueue \<Rightarrow> nat" where
  "bq_room q = (if bq_inv q then 2 ^ 32 - 1 - unat (idGen q) else 0)"

lemma bq_pending_unique:
  assumes "bq_inv q"
  shows "bq_pending q n = Some b \<longleftrightarrow> (\<exists>x \<in> set (tq q). lb_b x = b \<and> mb_node b = n)"
  using bq_index [OF assms] by (auto simp: bq_pending_def)

lemma bq_enqueue_law:
  assumes "0 < bq_room q"
  shows "wp (QueueBroadcast e b) (\<lambda>r s.
    ((\<exists>n. r = Inl (WrapException n)) \<and> (\<exists>b'. bq_pending q (mb_node b) = Some b' \<and> mb_notifyFd b' \<noteq> -1)) \<or>
    (r = Inr () \<and> bq_pending (fst s) = (bq_pending q)(mb_node b \<mapsto> b) \<and>
     bq_room q \<le> Suc (bq_room (fst s)))) (q, w)"
proof (rule wp_QueueBroadcast)
  have inv: "bq_inv q" and lt: "unat (idGen q) < 2 ^ 32 - 1"
    using assms by (auto simp: bq_room_def split: if_splits)
  show "((\<exists>n'. Inl (WrapException n) = Inl (WrapException n')) \<and>
      (\<exists>b'. bq_pending q (mb_node b) = Some b' \<and> mb_notifyFd b' \<noteq> -1)) \<or>
    (Inl (WrapException n) = Inr () \<and> bq_pending (fst (q', w')) = (bq_pending q)(mb_node b \<mapsto> b) \<and>
     bq_room q \<le> Suc (bq_room (fst (q', w'))))" if "notifies (mb_node b) (tq q)" for n q' w'
    using that bq_pending_unique [OF inv] by (auto simp: notifies_def)
  fix q' w'
  have id: "idGen q \<noteq> UINT32_MAX"
    using lt by (auto simp: unsigned_minus_1_eq_mask mask_eq_exp_minus_1)
  assume "q' = addItem ((queued_item e b q)\<lparr>lb_id := idGen (next_id q)\<rparr>)
        (deleted ((queued_item e b q)\<lparr>lb_id := idGen (next_id q)\<rparr>) (next_id q))"
  then have q': "q' = addItem (queued_item e b q) (deleted (queued_item e b q) (next_id q))"
    using next_id_fresh(5) [OF inv id] by (simp add: queued_item_def)
  note r = QueueBroadcast_result [OF inv id q']
  have "bq_pending q' n = Some c \<longleftrightarrow> ((bq_pending q)(mb_node b \<mapsto> b)) n = Some c" for n c
    using bq_pending_unique [OF r(1), of n c] bq_pending_unique [OF inv, of n c] r(2)
    by (auto simp: queued_item_def)
  then have "bq_pending q' n = ((bq_pending q)(mb_node b \<mapsto> b)) n" for n
    by (metis option.exhaust)
  moreover have "bq_room q \<le> Suc (bq_room q')"
    using inv r(1,3) unat_plus_one [OF id] by (simp add: bq_room_def)
  ultimately show "((\<exists>n. Inr () = Inl (WrapException n)) \<and>
      (\<exists>b'. bq_pending q (mb_node b) = Some b' \<and> mb_notifyFd b' \<noteq> -1)) \<or>
    (Inr () = Inr () \<and> bq_pending (fst (q', w')) = (bq_pending q)(mb_node b \<mapsto> b) \<and>
     bq_room q \<le> Suc (bq_room (fst (q', w'))))"
    by (simp add: fun_eq_iff)
qed

interpretation bq: node_queue "QueueBroadcast e" bq_pending bq_room for e
  by unfold_locales (rule bq_enqueue_law)

text \<open>
  C15. Refinement of the abstract queue, a map from nodes to their pending broadcast:
  after queueing a sequence of broadcasts the queue holds for every node of the sequence
  the last broadcast about it, and for every other node what was pending before. It only
  throws when one of the broadcasts involved has a descriptor to notify.
\<close>

theorem queue_refines_map:
  assumes "length bs \<le> bq_room q"
  shows "wp (forE bs (QueueBroadcast e)) (\<lambda>r s.
     ((\<exists>n. r = Inl (WrapException n)) \<and> (\<exists>b' \<in> set bs \<union> ran (bq_pending q). mb_notifyFd b' \<noteq> -1)) \<or>
     (r = Inr () \<and> bq_pending (fst s) = bq_pending q ++ map_of (rev (map (\<lambda>b. (mb_node b, b)) bs)))) (q, w)"
  using assms by (rule bq.latest_wins)

section \<open>Concrete queues\<close>

text \<open>A queue holding one alive broadcast about node \<open>b\<close>, transmitted once already.\<close>

definition sample_item :: limitedBroadcast where
  "sample_item = \<lparr>transmits = 1, msgLen = 20, lb_id = 1,
     lb_b = \<lparr>mb_node = ''b'', mb_msg = genAliveBroadcast 1 ''b'' ''127.0.0.1'' 6666, mb_notifyFd = -1\<rparr>\<rparr>"

definition sample_queue :: broadcastQueue where
  "sample_queue = \<lparr>RetransmitMult = 4, idGen = 1, tq = [sample_item], tm = [''b'' \<mapsto> sample_item]\<rparr>"

lemma sample_queue_inv: "bq_inv sample_queue"
  by (auto simp: bq_inv_def sample_queue_def sample_item_def)

lemma sample_queue_limit: "retransmitLimit ref_env (RetransmitMult sample_queue) 7 = Inr 4"
  by (simp add: sample_queue_def retransmitLimit_eq ref_ieee decimal_digits.simps [of 7] decimal_digits.simps [of 0])

lemma sample_queue_ok:
  "idGen sample_queue \<noteq> UINT32_MAX" "\<forall>x \<in> set (tq sample_queue). unat (transmits x) < 2 ^ 31 - 1"
  by (simp_all add: sample_queue_def sample_item_def)

theorem GetBroadcasts_packet_witness:
  "wp (GetBroadcasts ref_env 7 4 1400 ComBroadcast0)
     (onReturn (\<lambda>(_, cbc') _. \<exists>S. distinct S \<and> set S \<subseteq> set (tq sample_queue) \<and>
        cbc' = ComBroadcast0\<lparr>cbc_bs := cbc_bs ComBroadcast0 @ map (\<lambda>x. mb_msg (lb_b x)) S\<rparr> \<and>
        sorted_wrt (\<lambda>x y. transmits x \<le> transmits y) S \<and>
        payload S \<le> unat (1400 :: uint64) - unat (4 :: uint64) \<and>
        (payload S = unat (1400 :: uint64) - unat (4 :: uint64) \<or>
         (\<forall>y \<in> set (tq sample_queue) - set S.
            unat (1400 :: uint64) - unat (4 :: uint64) < payload S + unat (msgLen y))))) (sample_queue, world0)"
  by (rule GetBroadcasts_packet [OF sample_queue_inv sample_queue_ok _ sample_queue_limit]) simp

theorem GetBroadcasts_total_witness:
  "wp (GetBroadcasts ref_env 7 4 1400 ComBroadcast0)
     (\<lambda>r s. (\<exists>k. r = Inl (WrapException k)) \<or>
        (\<exists>S. r = Inr (True, ComBroadcast0\<lparr>cbc_bs := cbc_bs ComBroadcast0 @ map (\<lambda>x. mb_msg (lb_b x)) S\<rparr>) \<and>
           S \<noteq> [] \<and> set S \<subseteq> set (tq sample_queue) \<and> bq_inv (fst s) \<and>
           set (tq (fst s)) = (set (tq sample_queue) - set S) \<union> bumped ` {x \<in> set S. transmits x + 1 < 4}) \<or>
        (\<exists>have. r = Inr (have, ComBroadcast0) \<and> bq_inv (fst s) \<and> set (tq (fst s)) = set (tq sample_queue)))
     (sample_queue, world0)"
  by (rule GetBroadcasts_total [OF sample_queue_inv sample_queue_ok sample_queue_limit])

theorem queue_refines_map_witness:
  "wp (forE [lb_b sample_item] (QueueBroadcast ref_env)) (\<lambda>r s.
     ((\<exists>n. r = Inl (WrapException n)) \<and>
      (\<exists>b' \<in> set [lb_b sample_item] \<union> ran (bq_pending sample_queue). mb_notifyFd b' \<noteq> -1)) \<or>
     (r = Inr () \<and> bq_pending (fst s) =
        bq_pending sample_queue ++ map_of (rev (map (\<lambda>b. (mb_node b, b)) [lb_b sample_item]))))
     (sample_queue, world0)"
  by (rule queue_refines_map) (simp add: bq_room_def sample_queue_inv, simp add: sample_queue_def)

end
