(* ===== verification/Node.thy ===== *)
theory Node
  imports Wrapped Reference
begin

text \<open>
  Configuration and node data: \<^verbatim>\<open>misc/config.h\<close>, \<^verbatim>\<open>misc/config.cpp\<close>, \<^verbatim>\<open>misc/node.h\<close> and
  \<^verbatim>\<open>misc/node.cpp\<close> (the acknowledgement handlers, which own a timer, are in \<^verbatim>\<open>Timer\<close>).
\<close>

section \<open>Configuration\<close>

abbreviation DEFAULT_PORT :: uint16 where
  "DEFAULT_PORT \<equiv> 6666"

record Config =
  Name :: string
  BindAddr :: string
  BindPort :: uint16
  AdvertiseAddr :: string
  AdvertisePort :: uint16
  TCPTimeout :: int
  IndirectChecks :: uint8
  cfg_RetransmitMult :: uint8
  SuspicionMult :: uint8
  SuspicionMaxTimeoutMult :: uint8
  PushPullInterval :: int
  ProbeInterval :: int
  ProbeTimeout :: int
  AllowTcpPing :: bool
  GossipInterval :: int
  GossipNodes :: uint8
  GossipToTheDeadTime :: int
  HandoffQueueDepth :: uint64
  UDPBufferSize :: uint16
  DeadNodeReclaimTime :: int

text \<open>\<^verbatim>\<open>chrono::microseconds(s).count()\<close> and \<^verbatim>\<open>chrono::microseconds(ms).count()\<close>.\<close>

abbreviation seconds :: "int \<Rightarrow> int" where
  "seconds n \<equiv> n * 1000000"

abbreviation milliseconds :: "int \<Rightarrow> int" where
  "milliseconds n \<equiv> n * 1000"

definition DefaultLANConfig :: "('w, 'e) env_scheme \<Rightarrow> ('w, Config) prog" where
  "DefaultLANConfig e =
     bindE (call (sys_hostname e)) (\<lambda>hostname. ret
       \<lparr>Name = hostname, BindAddr = ''0.0.0.0'', BindPort = DEFAULT_PORT, AdvertiseAddr = [],
        AdvertisePort = DEFAULT_PORT, TCPTimeout = seconds 10, IndirectChecks = 3,
        cfg_RetransmitMult = 4, SuspicionMult = 4, SuspicionMaxTimeoutMult = 6,
        PushPullInterval = seconds 10, ProbeInterval = seconds 1, ProbeTimeout = milliseconds 500,
        AllowTcpPing = True, GossipInterval = milliseconds 200, GossipNodes = 3,
        GossipToTheDeadTime = seconds 30, HandoffQueueDepth = 1024, UDPBufferSize = 1400,
        DeadNodeReclaimTime = seconds 10\<rparr>)"

definition DefaultWANConfig :: "('w, 'e) env_scheme \<Rightarrow> ('w, Config) prog" where
  "DefaultWANConfig e =
     bindE (DefaultLANConfig e) (\<lambda>c. ret (c\<lparr>TCPTimeout := seconds 30, SuspicionMult := 6,
       PushPullInterval := seconds 60, ProbeInterval := seconds 5, ProbeTimeout := seconds 3,
       GossipInterval := milliseconds 500, GossipNodes := 4, GossipToTheDeadTime := seconds 60\<rparr>))"

definition DefaultLocalConfig :: "('w, 'e) env_scheme \<Rightarrow> ('w, Config) prog" where
  "DefaultLocalConfig e =
     bindE (DefaultLANConfig e) (\<lambda>c. ret (c\<lparr>AdvertiseAddr := ''127.0.0.1'', TCPTimeout := seconds 1,
       IndirectChecks := 1, cfg_RetransmitMult := 2, SuspicionMult := 3, PushPullInterval := seconds 15,
       ProbeInterval := seconds 1, ProbeTimeout := milliseconds 200, GossipInterval := milliseconds 100,
       GossipToTheDeadTime := seconds 15\<rparr>))"

definition DebugConfig :: "('w, 'e) env_scheme \<Rightarrow> ('w, Config) prog" where
  "DebugConfig e =
     bindE (DefaultLocalConfig e) (\<lambda>c. ret (c\<lparr>PushPullInterval := seconds 20, ProbeInterval := seconds 8,
       GossipInterval := seconds 4\<rparr>))"

lemmas config_defs = DefaultLANConfig_def DefaultWANConfig_def DefaultLocalConfig_def DebugConfig_def

section \<open>Nodes\<close>

datatype NodeStateType = StateAlive | StateSuspect | StateDead | StateLeft

text \<open>The number behind a state, which \<^verbatim>\<open>sendLocalState\<close> casts to the enum of the message.\<close>

primrec state_number :: "NodeStateType \<Rightarrow> int" where
  "state_number StateAlive = 0"
| "state_number StateSuspect = 1"
| "state_number StateDead = 2"
| "state_number StateLeft = 3"

instantiation NodeStateType :: linorder
begin

definition less_eq_NodeStateType :: "NodeStateType \<Rightarrow> NodeStateType \<Rightarrow> bool" where
  "less_eq_NodeStateType a b \<longleftrightarrow> state_number a \<le> state_number b"

definition less_NodeStateType :: "NodeStateType \<Rightarrow> NodeStateType \<Rightarrow> bool" where
  "less_NodeStateType a b \<longleftrightarrow> state_number a < state_number b"

lemma state_number_inj: "state_number a = state_number b \<longleftrightarrow> a = b"
  by (cases a; cases b) simp_all

instance
  by standard (auto simp: less_eq_NodeStateType_def less_NodeStateType_def state_number_inj)

end

record Node =
  NName :: string
  NAddr :: string
  NPort :: uint16

definition FullAddr :: "('w, 'e) env_scheme \<Rightarrow> Node \<Rightarrow> ('w, sockaddr_in) prog" where
  "FullAddr e n =
     (case inet_pton4 e (c_str (NAddr n)) of
        None \<Rightarrow> raise (Exited (-1))
      | Some a \<Rightarrow> ret \<lparr>sin_family = AF_INET, sin_port = htons (NPort n), sin_addr = a\<rparr>)"

record nodeState =
  N :: Node
  Incarnation :: uint32
  State :: NodeStateType
  StateChange :: int

text \<open>The constructor leaves \<^verbatim>\<open>StateChange\<close> as it finds it.\<close>

definition new_nodeState ::
  "('w, 'e) env_scheme \<Rightarrow> Node \<Rightarrow> uint32 \<Rightarrow> NodeStateType \<Rightarrow> ('w, nodeState) prog" where
  "new_nodeState e node inc st =
     bindE (call (sys_garbage e)) (\<lambda>g. ret \<lparr>N = node, Incarnation = inc, State = st, StateChange = g\<rparr>)"

definition DeadOrLeft :: "nodeState \<Rightarrow> bool" where
  "DeadOrLeft s = (State s = StateDead \<or> State s = StateLeft)"

lemma DeadOrLeft_iff: "DeadOrLeft s \<longleftrightarrow> StateDead \<le> State s"
  by (cases "State s") (simp_all add: DeadOrLeft_def less_eq_NodeStateType_def)

record ackMessage =
  Complete :: bool
  Timestamp :: int

text \<open>
  A pipe carries an \<^verbatim>\<open>ackMessage\<close> as its object representation of 16 bytes: the flag, seven
  padding bytes \<open>pad\<close> that the constructor leaves as they are, and the timestamp in little-endian
  two's complement.
\<close>

definition le_bytes :: "nat \<Rightarrow> int \<Rightarrow> bytes" where
  "le_bytes k v = map (\<lambda>i. char_of (nat ((v div 256 ^ i) mod 256))) [0 ..< k]"

definition ackMessage_bytes :: "int \<Rightarrow> ackMessage \<Rightarrow> bytes" where
  "ackMessage_bytes pad m = (if Complete m then CHR 0x01 else CHR 0x00) # le_bytes 7 pad @ le_bytes 8 (Timestamp m)"

definition ackMessage_complete :: "bytes \<Rightarrow> bool" where
  "ackMessage_complete bs = (bs \<noteq> [] \<and> hd bs \<noteq> CHR 0x00)"

lemma ackMessage_roundtrip: "ackMessage_complete (ackMessage_bytes pad m) = Complete m"
  by (simp add: ackMessage_complete_def ackMessage_bytes_def)

lemma length_ackMessage_bytes: "length (ackMessage_bytes pad m) = 16"
  by (simp add: ackMessage_bytes_def le_bytes_def)

text \<open>
  \<^verbatim>\<open>Write(fd, &ackmsg, sizeof(ackMessage))\<close> of a new object, and \<^verbatim>\<open>T x; Read(fd, &x, sizeof(T))\<close>
  for an object of \<open>n\<close> bytes: what the read does not deliver keeps what the memory held.
\<close>

definition Write_ack :: "('w, 'e) env_scheme \<Rightarrow> int \<Rightarrow> ackMessage \<Rightarrow> ('w, unit) prog" where
  "Write_ack e fd m =
     bindE (call (sys_garbage e)) (\<lambda>pad. bindE (Write e fd (ackMessage_bytes pad m)) (\<lambda>_. ret ()))"

definition Read_object :: "('w, 'e) env_scheme \<Rightarrow> int \<Rightarrow> nat \<Rightarrow> ('w, bytes) prog" where
  "Read_object e fd n =
     bindE (call (sys_garbage e)) (\<lambda>g.
     bindE (Read e fd n) (\<lambda>(_, buf). ret (buf @ drop (length buf) (le_bytes n g))))"

text \<open>Arithmetic on \<^verbatim>\<open>int64_t\<close> that leaves the range is undefined.\<close>

definition int64 :: "int \<Rightarrow> ('s, int) prog" where
  "int64 x = (if INT64_MIN \<le> x \<and> x \<le> INT64_MAX then ret x else raise Undefined)"

lemma wp_int64 [wp_simps]:
  "wp (int64 x) Q s = ((INT64_MIN \<le> x \<and> x \<le> INT64_MAX \<longrightarrow> Q (Inr x) s) \<and>
     (\<not> (INT64_MIN \<le> x \<and> x \<le> INT64_MAX) \<longrightarrow> Q (Inl Undefined) s))"
  unfolding int64_def wp_if wp_ret wp_raise ..

lemma wp_FullAddr [wp_simps]:
  "wp (FullAddr e n) Q w =
     ((inet_pton4 e (c_str (NAddr n)) = None \<longrightarrow> Q (Inl (Exited (-1))) w) \<and>
      (\<forall>a. inet_pton4 e (c_str (NAddr n)) = Some a \<longrightarrow>
         Q (Inr \<lparr>sin_family = AF_INET, sin_port = htons (NPort n), sin_addr = a\<rparr>) w))"
  by (simp add: FullAddr_def wp_simps)

end
