(* ===== verification/Timer.thy ===== *)
theory Timer
  imports Node Scaling
begin

text \<open>
  The timers of \<^verbatim>\<open>misc/timer.cpp\<close> and what owns one: \<^verbatim>\<open>ackHandler\<close> of \<^verbatim>\<open>misc/node.cpp\<close> and
  \<^verbatim>\<open>suspicion\<close> of \<^verbatim>\<open>misc/suspicion.cpp\<close>. A timer owns a thread that sleeps and then runs the
  task; stopping it cancels the thread, restarting or destroying it joins the thread. What
  a thread is doing decides whether a join returns. A callback is a value of the type
  \<open>'task\<close> that says what it captured; the component that owns the timer runs it.
\<close>

section \<open>Threads\<close>

text \<open>
  A cancelled thread ends at its next cancellation point, and locking a mutex is none. So a
  phase says what comes first: a thread \<open>Sleeping\<close> in \<^verbatim>\<open>sleep_for\<close> is at a cancellation point;
  one \<open>InTask\<close> runs its task and has a cancellation point (\<^verbatim>\<open>read\<close>, \<^verbatim>\<open>write\<close>, \<^verbatim>\<open>select\<close>, \<^verbatim>\<open>sendto\<close>,
  \<^verbatim>\<open>close\<close>) or the end of the task ahead of any lock of \<^verbatim>\<open>nodeMutex\<close>; one \<open>LockingNodeMutex\<close> runs
  its task and waits for \<^verbatim>\<open>nodeMutex\<close>, or is on its way to the lock with no cancellation point in between.
\<close>

datatype thread_phase = Sleeping | InTask | LockingNodeMutex | Ended

record thread =
  th_id :: nat
  th_phase :: thread_phase

text \<open>
  \<^verbatim>\<open>if (t.joinable()) t.join();\<close> by the thread \<open>me\<close>, which may hold \<^verbatim>\<open>nodeMutex\<close>, of a thread that has
  been cancelled or ends by itself: joining oneself throws \<^verbatim>\<open>std::system_error\<close>; joining a
  thread that needs \<^verbatim>\<open>nodeMutex\<close> to get any further, while one holds it, never returns.
\<close>

definition join_thread :: "nat \<Rightarrow> bool \<Rightarrow> thread option \<Rightarrow> exn + unit" where
  "join_thread me holdsMutex t =
     (case t of
        None \<Rightarrow> Inr ()
      | Some th \<Rightarrow>
          if th_id th = me then Inl (StdException ''system_error'')
          else if th_phase th = LockingNodeMutex \<and> holdsMutex then Inl Deadlock
          else Inr ())"

section \<open>Timers\<close>

record 'task timer =
  running :: bool
  scalable :: bool
  timeinterval :: int
  task :: "'task option"
  t_thread :: "thread option"

definition new_timer :: "int \<Rightarrow> 'task option \<Rightarrow> bool \<Rightarrow> 'task timer" where
  "new_timer interval tsk scal =
     \<lparr>running = False, scalable = scal, timeinterval = interval, task = tsk, t_thread = None\<rparr>"

definition copy_timer :: "'task timer \<Rightarrow> 'task timer" where
  "copy_timer t = t\<lparr>running := False, t_thread := None\<rparr>"

text \<open>How long the runner sleeps before the task; \<open>est\<close> is what \<^verbatim>\<open>estNumNodes\<close> returns.\<close>

definition wait_time :: "('w, 'e) env_scheme \<Rightarrow> 'task timer \<Rightarrow> uint32 \<Rightarrow> exn + int" where
  "wait_time e t est = (if scalable t then pushPullScale e (timeinterval t) (uint est) else Inr (timeinterval t))"

text \<open>\<^verbatim>\<open>Run\<close> of both classes: refuse when already running, join an earlier thread, start a new one.\<close>

definition start_runner :: "('w, 'e) env_scheme \<Rightarrow> nat \<Rightarrow> bool \<Rightarrow> ('task timer \<times> 'w, unit) prog" where
  "start_runner e me holdsMutex =
     thenE (upd (\<lambda>t. t\<lparr>running := True\<rparr>))
     (bindE (obj t_thread) (\<lambda>old.
     case join_thread me holdsMutex old of
       Inl x \<Rightarrow> raise x
     | Inr _ \<Rightarrow>
         bindE (world (call (sys_thread e))) (\<lambda>k.
         upd (\<lambda>t. t\<lparr>t_thread := Some \<lparr>th_id = k, th_phase = Sleeping\<rparr>\<rparr>))))"

definition onceTimer_Run :: "('w, 'e) env_scheme \<Rightarrow> nat \<Rightarrow> bool \<Rightarrow> ('task timer \<times> 'w, unit) prog" where
  "onceTimer_Run e me holdsMutex =
     bindE (obj id) (\<lambda>t. if running t \<or> task t = None then ret () else start_runner e me holdsMutex)"

definition repeatTimer_Run :: "('w, 'e) env_scheme \<Rightarrow> nat \<Rightarrow> bool \<Rightarrow> ('task timer \<times> 'w, unit) prog" where
  "repeatTimer_Run e me holdsMutex =
     bindE (obj id) (\<lambda>t. if running t \<or> task t = None then ret () else start_runner e me holdsMutex)"

definition onceTimer_Stop :: "('task timer \<times> 'w, bool) prog" where
  "onceTimer_Stop =
     bindE (obj running) (\<lambda>r. if \<not> r then ret False else thenE (upd (\<lambda>t. t\<lparr>running := False\<rparr>)) (ret True))"

definition repeatTimer_Stop :: "('task timer \<times> 'w, bool) prog" where
  "repeatTimer_Stop =
     bindE (obj running) (\<lambda>r. if \<not> r then ret False else thenE (upd (\<lambda>t. t\<lparr>running := False\<rparr>)) (ret True))"

text \<open>\<^verbatim>\<open>timer::Restart\<close> calls the virtual \<^verbatim>\<open>Run\<close> and \<^verbatim>\<open>Stop\<close> of the class.\<close>

definition timer_Restart ::
  "('task timer \<times> 'w, unit) prog \<Rightarrow> ('task timer \<times> 'w, bool) prog \<Rightarrow> int \<Rightarrow> ('task timer \<times> 'w, unit) prog" where
  "timer_Restart run stop interval =
     bindE stop (\<lambda>_.
     thenE (if interval > 0 then upd (\<lambda>t. t\<lparr>timeinterval := interval\<rparr>) else ret ()) run)"

text \<open>The destructors: an exception that leaves one ends the program.\<close>

definition join_in_destructor :: "nat \<Rightarrow> bool \<Rightarrow> ('task timer \<times> 'w, unit) prog" where
  "join_in_destructor me holdsMutex =
     bindE (obj t_thread) (\<lambda>th.
     case join_thread me holdsMutex th of
       Inl (StdException _) \<Rightarrow> raise Terminated
     | Inl x \<Rightarrow> raise x
     | Inr _ \<Rightarrow> upd (\<lambda>t. t\<lparr>t_thread := None\<rparr>))"

definition onceTimer_destroy :: "nat \<Rightarrow> bool \<Rightarrow> ('task timer \<times> 'w, unit) prog" where
  "onceTimer_destroy me holdsMutex = bindE onceTimer_Stop (\<lambda>_. join_in_destructor me holdsMutex)"

definition repeatTimer_destroy :: "nat \<Rightarrow> bool \<Rightarrow> ('task timer \<times> 'w, unit) prog" where
  "repeatTimer_destroy me holdsMutex = bindE repeatTimer_Stop (\<lambda>_. join_in_destructor me holdsMutex)"

text \<open>
  The runner's own steps: it falls out of its sleep into the task, in the phase the task begins
  with; when the task returns a once timer's thread ends with \<^verbatim>\<open>running\<close> cleared, a repeat timer's
  sleeps again.
\<close>

definition runner_wakes :: "thread_phase \<Rightarrow> 'task timer \<Rightarrow> 'task timer" where
  "runner_wakes first t = t\<lparr>t_thread := map_option (\<lambda>th. th\<lparr>th_phase := first\<rparr>) (t_thread t)\<rparr>"

definition onceTimer_task_done :: "'task timer \<Rightarrow> 'task timer" where
  "onceTimer_task_done t =
     t\<lparr>running := False, t_thread := map_option (\<lambda>th. th\<lparr>th_phase := Ended\<rparr>) (t_thread t)\<rparr>"

definition repeatTimer_task_done :: "'task timer \<Rightarrow> 'task timer" where
  "repeatTimer_task_done t = t\<lparr>t_thread := map_option (\<lambda>th. th\<lparr>th_phase := Sleeping\<rparr>) (t_thread t)\<rparr>"

text \<open>Such a step changes the timer whose thread takes it, and no other.\<close>

definition own_timer :: "nat \<Rightarrow> ('task timer \<Rightarrow> 'task timer) \<Rightarrow> 'task timer \<Rightarrow> 'task timer" where
  "own_timer me g t =
     (case t_thread t of Some th \<Rightarrow> if th_id th = me then g t else t | None \<Rightarrow> t)"

lemma runner_step_task [simp]:
  "task (runner_wakes first t) = task t" "task (onceTimer_task_done t) = task t" "task (repeatTimer_task_done t) = task t"
  by (simp_all add: runner_wakes_def onceTimer_task_done_def repeatTimer_task_done_def)

lemma own_timer_task [simp]: "(\<And>t. task (g t) = task t) \<Longrightarrow> task (own_timer me g t) = task t"
  by (simp add: own_timer_def split: option.split)

lemmas timer_defs = onceTimer_Run_def repeatTimer_Run_def onceTimer_Stop_def repeatTimer_Stop_def
  start_runner_def timer_Restart_def

section \<open>The contract of a timer class\<close>

text \<open>
  \<^verbatim>\<open>class timer\<close> leaves \<^verbatim>\<open>Run\<close> and \<^verbatim>\<open>Stop\<close> to its subclasses; \<^verbatim>\<open>Restart\<close> relies on what they
  promise: \<^verbatim>\<open>Stop\<close> answers whether the timer was running and leaves it stopped, \<^verbatim>\<open>Run\<close> starts a
  stopped timer with a new sleeping thread, provided the old one can be joined.
\<close>

locale timer_class =
  fixes run :: "('task timer \<times> 'w, unit) prog" and stop :: "('task timer \<times> 'w, bool) prog"
    and joinable_ok :: "thread option \<Rightarrow> bool"
  assumes stop: "stop (t, w) = (Inr (running t), (t\<lparr>running := False\<rparr>, w))"
    and run: "\<not> running t \<Longrightarrow> task t \<noteq> None \<Longrightarrow> joinable_ok (t_thread t) \<Longrightarrow>
      \<exists>k w'. run (t, w) = (Inr (), (t\<lparr>running := True, t_thread := Some \<lparr>th_id = k, th_phase = Sleeping\<rparr>\<rparr>, w'))"
    and run_idle: "running t \<or> task t = None \<Longrightarrow> run (t, w) = (Inr (), (t, w))"
begin

lemma stop_twice: "\<exists>b t'. stop (t, w) = (Inr b, (t', w)) \<and> stop (t', w) = (Inr False, (t', w))"
  by (simp add: stop)

lemma restart:
  assumes "task t \<noteq> None" and "joinable_ok (t_thread t)"
  shows "\<exists>k w'. timer_Restart run stop i (t, w) =
     (Inr (), (t\<lparr>running := True, timeinterval := (if 0 < i then i else timeinterval t),
        t_thread := Some \<lparr>th_id = k, th_phase = Sleeping\<rparr>\<rparr>, w'))"
proof -
  let ?t = "t\<lparr>running := False, timeinterval := (if 0 < i then i else timeinterval t)\<rparr>"
  obtain k w' where "run (?t, w) =
      (Inr (), (?t\<lparr>running := True, t_thread := Some \<lparr>th_id = k, th_phase = Sleeping\<rparr>\<rparr>, w'))"
    using run [of ?t w] assms by auto
  then have "timer_Restart run stop i (t, w) =
     (Inr (), (t\<lparr>running := True, timeinterval := (if 0 < i then i else timeinterval t),
        t_thread := Some \<lparr>th_id = k, th_phase = Sleeping\<rparr>\<rparr>, w'))"
    by (cases t; cases "0 < i") (simp_all add: timer_Restart_def stop bindE_def thenE_def upd_def ret_def)
  then show ?thesis by blast
qed

end

definition can_join :: "nat \<Rightarrow> bool \<Rightarrow> thread option \<Rightarrow> bool" where
  "can_join me holdsMutex t \<longleftrightarrow> join_thread me holdsMutex t = Inr ()"

lemmas run_defs = bindE_def thenE_def obj_def upd_def world_def call_def ret_def raise_def

interpretation once: timer_class "onceTimer_Run e me h" onceTimer_Stop "can_join me h" for e me h
  by unfold_locales
    (auto simp: timer_defs run_defs can_join_def split: prod.split)

interpretation repeating: timer_class "repeatTimer_Run e me h" repeatTimer_Stop "can_join me h" for e me h
  by unfold_locales
    (auto simp: timer_defs run_defs can_join_def split: prod.split)

section \<open>Acknowledgement handlers\<close>

text \<open>
  What the closures of \<^verbatim>\<open>setProbePipes\<close> and \<^verbatim>\<open>handleIndirectPing\<close> capture: a probe writes the
  acknowledgement to its pipe; an indirect ping cancels the pending nack and relays the
  acknowledgement to the node that asked.
\<close>

datatype ackFn = AckToPipe int | RelayAck int sockaddr_in uint32

datatype nackFn = NackToPipe int

datatype ackTask = AckTimeout int

record ackHandler =
  ah_ackFn :: ackFn
  ah_nackFn :: "nackFn option"
  ah_t :: "ackTask timer"

text \<open>The constructor copies the timer, so the handler's timer is stopped and has no thread.\<close>

definition new_ackHandler :: "ackFn \<Rightarrow> nackFn option \<Rightarrow> ackTask timer \<Rightarrow> ackHandler" where
  "new_ackHandler f g t = \<lparr>ah_ackFn = f, ah_nackFn = g, ah_t = copy_timer t\<rparr>"

section \<open>Suspicion\<close>

text \<open>The callback of a suspicion captures the suspected node and the time of the suspicion.\<close>

record suspicionTask =
  st_node :: string
  st_now :: int

record suspicion =
  sus_n :: uint32
  sus_k :: uint32
  sus_start :: int
  sus_min :: int
  sus_max :: int
  sus_f :: suspicionTask
  sus_t :: "suspicionTask timer"
  sus_confirmations :: "string set"

definition new_suspicion ::
  "('w, 'e) env_scheme \<Rightarrow> nat \<Rightarrow> bool \<Rightarrow> string \<Rightarrow> uint8 \<Rightarrow> int \<Rightarrow> int \<Rightarrow> suspicionTask \<Rightarrow>
   ('c \<times> 'w, suspicion) prog" where
  "new_suspicion e me holdsMutex from k mn mx f =
     bindE (world (call (sys_now e))) (\<lambda>start.
     bindE (on_object (new_timer (if k < 1 then mn else mx) (Some f) False) (onceTimer_Run e me holdsMutex)) (\<lambda>(_, t).
     ret \<lparr>sus_n = 0, sus_k = ucast k, sus_start = start, sus_min = mn, sus_max = mx, sus_f = f,
       sus_t = t, sus_confirmations = {from}\<rparr>))"

text \<open>
  The timeout for \<open>n\<close> confirmations out of \<open>k\<close>, in \<^verbatim>\<open>double\<close>. For \<^verbatim>\<open>k = 0\<close> the divisor is the
  logarithm of one, so the quotient is infinite or not a number and its conversion to an
  integer undefined; likewise when \<open>n + 1\<close> wraps to zero.
\<close>

definition suspicion_timeout :: "('w, 'e) env_scheme \<Rightarrow> uint32 \<Rightarrow> uint32 \<Rightarrow> int \<Rightarrow> int \<Rightarrow> exn + int" where
  "suspicion_timeout e n k mn mx =
     (let r = fp_round e
      in if k + 1 = 0 \<or> k + 1 = 1 \<or> n + 1 = 0 then Inl Undefined
         else
           let frac = r (r (ln (real (unat (n + 1)))) / r (ln (real (unat (k + 1)))))
           in double_to_int64 (r (r (of_int mx) - r (frac * r (of_int (mx - mn))))))"

definition remainingSuspicionTime :: "('w, 'e) env_scheme \<Rightarrow> (suspicion \<times> 'w, int) prog" where
  "remainingSuspicionTime e =
     bindE (obj id) (\<lambda>s.
     case suspicion_timeout e (sus_n s) (sus_k s) (sus_min s) (sus_max s) of
       Inl x \<Rightarrow> raise x
     | Inr timeout \<Rightarrow>
         bindE (world (call (sys_now e))) (\<lambda>now.
         bindE (int64 (now - sus_start s)) (\<lambda>elapsed. int64 (timeout - elapsed))))"

abbreviation Load :: "suspicion \<Rightarrow> uint32" where
  "Load s \<equiv> sus_n s"

text \<open>
  \<^verbatim>\<open>Confirm\<close>. Calling \<^verbatim>\<open>f\<close>, when the time is already up, is the last thing it does before it
  returns true; the second component of the result says whether it is to be called.
\<close>

definition sus_timer :: "(suspicionTask timer \<times> 'w, 'a) prog \<Rightarrow> (suspicion \<times> 'w, 'a) prog" where
  "sus_timer m = zoom sus_t (\<lambda>t s. s\<lparr>sus_t := t\<rparr>) m"

definition Confirm ::
  "('w, 'e) env_scheme \<Rightarrow> nat \<Rightarrow> bool \<Rightarrow> string \<Rightarrow> (suspicion \<times> 'w, bool \<times> bool) prog" where
  "Confirm e me holdsMutex from =
     bindE (obj id) (\<lambda>s.
     if sus_n s > sus_k s then ret (False, False)
     else if from \<in> sus_confirmations s then ret (False, False)
     else
       thenE (upd (\<lambda>s. s\<lparr>sus_confirmations := insert from (sus_confirmations s), sus_n := sus_n s + 1\<rparr>))
       (bindE (remainingSuspicionTime e) (\<lambda>remain.
       bindE (sus_timer onceTimer_Stop) (\<lambda>stopped.
       if stopped then
         (if remain > 0 then
            thenE (sus_timer (timer_Restart (onceTimer_Run e me holdsMutex) onceTimer_Stop remain)) (ret (True, False))
          else ret (True, True))
       else ret (True, False)))))"

definition suspicion_destroy :: "nat \<Rightarrow> bool \<Rightarrow> (suspicion \<times> 'w, unit) prog" where
  "suspicion_destroy me holdsMutex = sus_timer (onceTimer_destroy me holdsMutex)"

section \<open>Properties\<close>

text \<open>Destroying a timer from its own task ends the program; otherwise its thread is gone.\<close>

lemma wp_join_in_destructor [wp_simps]:
  "wp (join_in_destructor me h) Q (t, w) =
     (case join_thread me h (t_thread t) of
        Inl x \<Rightarrow> Q (Inl (if \<exists>m. x = StdException m then Terminated else x)) (t, w)
      | Inr _ \<Rightarrow> Q (Inr ()) (t\<lparr>t_thread := None\<rparr>, w))"
  by (auto simp: join_in_destructor_def wp_simps split: sum.split exn.split)

lemma wp_onceTimer_Stop [wp_simps]:
  "wp onceTimer_Stop Q (t, w) = Q (Inr (running t)) (t\<lparr>running := False\<rparr>, w)"
  by (simp add: wp_def once.stop)

lemma wp_onceTimer_start:
  assumes "\<not> running t" "task t \<noteq> None" "can_join me h (t_thread t)"
    and "\<And>k w'. Q (Inr ()) (t\<lparr>running := True, t_thread := Some \<lparr>th_id = k, th_phase = Sleeping\<rparr>\<rparr>, w')"
  shows "wp (onceTimer_Run e me h) Q (t, w)"
  using once.run [OF assms(1-3), of e w] assms(4) by (auto simp: wp_def)

text \<open>A new suspicion starts with one peer on record and a sleeping timer.\<close>

lemma wp_new_suspicion:
  assumes "\<And>sus w'. sus_n sus = 0 \<Longrightarrow> sus_k sus = ucast k \<Longrightarrow> sus_min sus = mn \<Longrightarrow> sus_max sus = mx \<Longrightarrow>
      sus_f sus = f \<Longrightarrow> sus_confirmations sus = {from} \<Longrightarrow> running (sus_t sus) \<Longrightarrow>
      task (sus_t sus) = Some f \<Longrightarrow> timeinterval (sus_t sus) = (if k < 1 then mn else mx) \<Longrightarrow> Q (Inr sus) (c, w')"
  shows "wp (new_suspicion e me h from k mn mx f) Q (c, w)"
  unfolding new_suspicion_def
  by (auto simp: wp_simps new_timer_def can_join_def join_thread_def intro!: wp_onceTimer_start assms)

lemma wp_repeatTimer_Stop [wp_simps]:
  "wp repeatTimer_Stop Q (t, w) = Q (Inr (running t)) (t\<lparr>running := False\<rparr>, w)"
  by (simp add: wp_def repeating.stop)

lemma ln_ratio_bounds:
  assumes r: "ieee_rounding r" and "n \<le> k" and "0 < k" and "k < 2 ^ 32"
  defines "fr \<equiv> r (r (ln (real (n + 1))) / r (ln (real (k + 1))))"
  shows "0 \<le> fr" "fr \<le> 1" "n = 0 \<Longrightarrow> fr = 0" "n = k \<Longrightarrow> fr = 1"
proof -
  have r0: "r 0 = 0" and r1: "r 1 = 1"
    using ieee_int [OF r, of 0] ieee_int [OF r, of 1] by simp_all
  have ln2: "1 / 2 \<le> ln (2 :: real)"
    using ln_lower [of 1] by simp
  have "ln (2 :: real) \<le> ln (real (k + 1))"
    using assms(3) by (intro ln_mono) simp_all
  with ln2 have lnk: "1 / 2 \<le> ln (real (k + 1))"
    by linarith
  have "ln (real (k + 1)) \<le> real (k + 1)"
    using ln_le_minus_one [of "real (k + 1)"] by simp
  also have "\<dots> \<le> 2 ^ 1023"
  proof -
    have "real (k + 1) \<le> real (2 ^ 32)"
      using assms(4) by (intro of_nat_mono) simp
    also have "\<dots> \<le> (2 :: real) ^ 1023"
      by simp
    finally show ?thesis .
  qed
  finally have lnk': "ln (real (k + 1)) \<le> 2 ^ 1023" .
  have "1 / 2 ^ 1022 \<le> (1 / 2 :: real)"
    by (simp add: field_simps)
  then have "\<bar>r (ln (real (k + 1))) - ln (real (k + 1))\<bar> \<le> \<bar>ln (real (k + 1))\<bar> / 2 ^ 53"
    using lnk lnk' by (intro ieee_error [OF r]) linarith+
  moreover have "\<bar>ln (real (k + 1))\<bar> / 2 ^ 53 \<le> ln (real (k + 1)) / 2"
    using lnk by (simp add: field_simps)
  ultimately have pos: "0 < r (ln (real (k + 1)))"
    using lnk by linarith
  have "0 \<le> ln (real (n + 1))" and mono: "ln (real (n + 1)) \<le> ln (real (k + 1))"
    using assms(2) by (simp_all add: ln_mono)
  then have nn: "0 \<le> r (ln (real (n + 1)))" and le: "r (ln (real (n + 1))) \<le> r (ln (real (k + 1)))"
    using ieee_mono [OF r, of 0] ieee_mono [OF r mono] r0 by fastforce+
  have q: "0 \<le> r (ln (real (n + 1))) / r (ln (real (k + 1)))" "r (ln (real (n + 1))) / r (ln (real (k + 1))) \<le> 1"
    using pos nn le by (simp_all add: divide_le_eq_1)
  show "0 \<le> fr" "fr \<le> 1"
    unfolding fr_def using ieee_mono [OF r q(1)] ieee_mono [OF r q(2)] r0 r1 by simp_all
  show "n = 0 \<Longrightarrow> fr = 0" "n = k \<Longrightarrow> fr = 1"
    using pos r0 r1 by (simp_all add: fr_def)
qed

lemma suspicion_timeout_eq:
  assumes r: "ieee_rounding (fp_round e)" and n: "n \<le> k" and k: "0 < k" "k \<noteq> UINT32_MAX"
    and b: "0 \<le> mn" "mn \<le> mx" "mx \<le> 2 ^ 53"
  defines "fr \<equiv> fp_round e (fp_round e (ln (real (unat n + 1))) / fp_round e (ln (real (unat k + 1))))"
  defines "x \<equiv> fp_round e (of_int mx - fp_round e (fr * of_int (mx - mn)))"
  shows "suspicion_timeout e n k mn mx = Inr (trunc_real x)"
    and "of_int mn \<le> x" and "x \<le> of_int mx"
    and "n = 0 \<Longrightarrow> x = of_int mx" and "n = k \<Longrightarrow> x = of_int mn"
proof -
  let ?r = "fp_round e"
  have k32: "unat k < 2 ^ 32"
    using unsigned_less [of k, where ?'a = nat] by simp
  have nk: "unat n \<le> unat k" "0 < unat k"
    using n k(1) by (simp_all add: word_le_nat_alt word_less_nat_alt)
  note f = ln_ratio_bounds [OF r nk k32, folded fr_def]
  have ex: "?r (of_int i) = of_int i" if "0 \<le> i" "i \<le> 2 ^ 53" for i
    using that by (intro ieee_int [OF r]) simp
  have d: "0 \<le> mx - mn" "mx - mn \<le> 2 ^ 53"
    using b by simp_all
  have p: "0 \<le> fr * of_int (mx - mn)" "fr * of_int (mx - mn) \<le> of_int (mx - mn)"
    using f(1,2) d(1) by (simp_all add: mult_left_le_one_le)
  have q: "0 \<le> ?r (fr * of_int (mx - mn))" "?r (fr * of_int (mx - mn)) \<le> of_int (mx - mn)"
    using ieee_mono [OF r p(1)] ieee_mono [OF r p(2)] ex [of 0] ex [OF d] by simp_all
  then have y: "of_int mn \<le> of_int mx - ?r (fr * of_int (mx - mn))"
    "of_int mx - ?r (fr * of_int (mx - mn)) \<le> of_int mx"
    by simp_all
  have mn: "mn \<le> 2 ^ 53" and mx: "0 \<le> mx"
    using b by simp_all
  show lo: "of_int mn \<le> x" and hi: "x \<le> of_int mx"
    unfolding x_def using ieee_mono [OF r y(1)] ieee_mono [OF r y(2)] ex [OF b(1) mn] ex [OF mx b(3)] by simp_all
  have "n + 1 \<noteq> 0" "k + 1 \<noteq> 0"
    using n k by (metis add.commute add_eq_0_iff leD minus_minus word_order.not_eq_extremum)+
  moreover have "n \<noteq> UINT32_MAX"
    using n k(2) by (metis word_order.extremum_uniqueI)
  then have "unat (n + 1) = unat n + 1" "unat (k + 1) = unat k + 1"
    using k(2) by (simp_all add: unat_plus_one)
  moreover have "k + 1 \<noteq> 1"
    using k(1) by simp
  moreover have "mn \<le> trunc_real x" "trunc_real x \<le> mx"
    using trunc_real_mono [OF lo] trunc_real_mono [OF hi] by (simp_all only: trunc_real_of_int)
  then have "INT64_MIN \<le> trunc_real x" "trunc_real x \<le> INT64_MAX"
    using b by simp_all
  ultimately show "suspicion_timeout e n k mn mx = Inr (trunc_real x)"
    using ex [OF d] ex [OF mx b(3)]
    by (simp add: suspicion_timeout_def double_to_int64_def x_def fr_def Let_def del: of_nat_add of_int_diff)
  show "n = 0 \<Longrightarrow> x = of_int mx"
    using f(3) ex [of 0] ex [OF mx b(3)] by (simp add: x_def)
  show "n = k \<Longrightarrow> x = of_int mn"
    using f(4) ex [OF d] ex [OF b(1) mn] by (simp add: x_def del: of_int_diff) simp
qed



section \<open>Confirmations\<close>

text \<open>
  One count per confirming peer beside the one that raised the suspicion, and at most one
  more than the \<^verbatim>\<open>k\<close> the timeout is computed for.
\<close>

definition sus_inv :: "suspicion \<Rightarrow> bool" where
  "sus_inv s \<longleftrightarrow>
     finite (sus_confirmations s) \<and> card (sus_confirmations s) = unat (sus_n s) + 1 \<and>
     unat (sus_n s) \<le> unat (sus_k s) + 1 \<and> unat (sus_k s) < 256"

lemma confirm_counts:
  assumes inv: "sus_inv s" and new: "from \<notin> sus_confirmations s" and room: "sus_n s \<le> sus_k s"
  shows "sus_inv (s\<lparr>sus_confirmations := insert from (sus_confirmations s), sus_n := sus_n s + 1\<rparr>)"
    and "unat (sus_n s + 1) = unat (sus_n s) + 1"
proof -
  have le: "unat (sus_n s) \<le> unat (sus_k s)"
    using room by (simp add: word_le_nat_alt)
  have "unat UINT32_MAX = 2 ^ 32 - 1"
    by (simp add: unsigned_minus_1_eq_mask mask_eq_exp_minus_1)
  then have "sus_n s \<noteq> UINT32_MAX"
    using le inv by (auto simp: sus_inv_def)
  then show "unat (sus_n s + 1) = unat (sus_n s) + 1"
    by (rule unat_plus_one)
  then show "sus_inv (s\<lparr>sus_confirmations := insert from (sus_confirmations s), sus_n := sus_n s + 1\<rparr>)"
    using inv new le by (simp add: sus_inv_def)
qed

lemma sus_inv_timer [simp]: "sus_inv (s\<lparr>sus_t := t\<rparr>) = sus_inv s"
  by (simp add: sus_inv_def)

lemma wp_frame_timer:
  "(\<And>r t' w'. Q r (s\<lparr>sus_t := t'\<rparr>, w')) \<Longrightarrow> wp (sus_timer m) Q (s, w)"
  by (simp add: sus_timer_def wp_zoom)

lemma wp_remaining:
  "(\<And>r w'. Q r (s, w')) \<Longrightarrow> wp (remainingSuspicionTime e) Q (s, w)"
  by (auto simp: remainingSuspicionTime_def wp_simps)

text \<open>
  C35. A peer is counted once: a confirmation is accepted exactly when the peer is new
  and no more than \<^verbatim>\<open>k\<close> were counted before. Accepting it adds one, so the count can reach
  \<^verbatim>\<open>k + 1\<close>, one more than the timeout allows for; refusing it changes nothing. However the call
  ends, the number of peers on record is one more than the count.
\<close>

theorem Confirm_counts_once:
  assumes "sus_inv s"
  shows "wp (Confirm e me h from)
     (\<lambda>r s'. sus_inv (fst s') \<and>
        (if sus_n s \<le> sus_k s \<and> from \<notin> sus_confirmations s
         then sus_n (fst s') = sus_n s + 1 \<and> sus_confirmations (fst s') = insert from (sus_confirmations s) \<and>
           (\<forall>a f. r = Inr (a, f) \<longrightarrow> a)
         else fst s' = s \<and> r = Inr (False, False))) (s, w)"
proof (cases "sus_n s \<le> sus_k s \<and> from \<notin> sus_confirmations s")
  case False
  with assms show ?thesis
    by (auto simp: Confirm_def wp_simps not_less)
next
  case True
  note c = confirm_counts [OF assms conjunct2 [OF True] conjunct1 [OF True]]
  show ?thesis
    using True c(1) unfolding Confirm_def
    by (auto simp: wp_simps not_less intro!: wp_remaining wp_frame_timer)
qed

text \<open>
  Destroying a suspicion from its own timer thread, which is what erasing the
  node's suspicion inside the timeout callback amounts to, ends the program; from any other
  thread it succeeds unless the callback is about to lock \<^verbatim>\<open>nodeMutex\<close> and the caller holds it.
\<close>

lemma suspicion_destroy_outcome:
  assumes "t_thread (sus_t s) = Some th"
  shows "fst (suspicion_destroy me h (s, w)) =
     (if th_id th = me then Inl Terminated
      else if th_phase th = LockingNodeMutex \<and> h then Inl Deadlock
      else Inr ())"
proof -
  have "wp (suspicion_destroy me h) (\<lambda>r s'. r =
     (if th_id th = me then Inl Terminated
      else if th_phase th = LockingNodeMutex \<and> h then Inl Deadlock
      else Inr ())) (s, w)"
    using assms
    by (auto simp: suspicion_destroy_def sus_timer_def onceTimer_destroy_def wp_simps join_thread_def)
  then show ?thesis by (auto simp: wp_def split: prod.splits)
qed

section \<open>A concrete suspicion\<close>

definition sample_suspicion :: suspicion where
  "sample_suspicion = \<lparr>sus_n = 0, sus_k = 2, sus_start = 0, sus_min = 1000000, sus_max = 6000000,
     sus_f = \<lparr>st_node = ''b'', st_now = 0\<rparr>,
     sus_t = \<lparr>running = True, scalable = False, timeinterval = 6000000,
       task = Some \<lparr>st_node = ''b'', st_now = 0\<rparr>, t_thread = Some \<lparr>th_id = 5, th_phase = InTask\<rparr>\<rparr>,
     sus_confirmations = {''a''}\<rparr>"

theorem Confirm_counts_once_witness:
  "wp (Confirm ref_env 1 True ''c'')
     (\<lambda>r s'. sus_inv (fst s') \<and>
        (if sus_n sample_suspicion \<le> sus_k sample_suspicion \<and> ''c'' \<notin> sus_confirmations sample_suspicion
         then sus_n (fst s') = sus_n sample_suspicion + 1 \<and>
           sus_confirmations (fst s') = insert ''c'' (sus_confirmations sample_suspicion) \<and>
           (\<forall>a f. r = Inr (a, f) \<longrightarrow> a)
         else fst s' = sample_suspicion \<and> r = Inr (False, False))) (sample_suspicion, world0)"
  by (rule Confirm_counts_once) (simp add: sus_inv_def sample_suspicion_def)

end
