(* ===== verification/Util.thy ===== *)
theory Util
  imports Node "HOL-Library.Multiset"
begin

text \<open>
  The helpers of \<^verbatim>\<open>misc/util.cpp\<close>: resolving the address of a cluster, choosing random
  nodes, and the addresses printed in log lines; and \<^verbatim>\<open>std::random_shuffle\<close>, which the
  member list uses. The scaling functions of the same file are in \<^verbatim>\<open>Scaling\<close>.
\<close>

section \<open>Decimal numbers\<close>

text \<open>\<^verbatim>\<open>std::to_string\<close> and \<^verbatim>\<open>std::stoul\<close>: leading space, a sign, digits, and ignored rest.\<close>

definition digit :: "nat \<Rightarrow> char" where
  "digit d = char_of (48 + d)"

fun to_string :: "nat \<Rightarrow> string" where
  "to_string n = (if n < 10 then [digit n] else to_string (n div 10) @ [digit (n mod 10)])"

declare to_string.simps [simp del]

definition is_digit :: "char \<Rightarrow> bool" where
  "is_digit c = (48 \<le> (of_char c :: nat) \<and> (of_char c :: nat) \<le> 57)"

definition digits_value :: "string \<Rightarrow> nat" where
  "digits_value s = foldl (\<lambda>v c. 10 * v + (of_char c - 48)) 0 s"

definition is_space :: "char \<Rightarrow> bool" where
  "is_space c = ((of_char c :: nat) \<in> {9, 10, 11, 12, 13, 32})"

definition stoul :: "string \<Rightarrow> exn + uint64" where
  "stoul s =
     (let t = dropWhile is_space (c_str s);
          neg = (t \<noteq> [] \<and> hd t = CHR ''-'');
          u = (if t \<noteq> [] \<and> (hd t = CHR ''-'' \<or> hd t = CHR ''+'') then tl t else t);
          ds = takeWhile is_digit u;
          v = digits_value ds
      in if ds = [] then Inl (StdException ''invalid_argument'')
         else if 2 ^ 64 \<le> v then Inl (StdException ''out_of_range'')
         else Inr (if neg then - of_nat v else of_nat v))"

section \<open>Addresses\<close>

definition hasPort :: "string \<Rightarrow> bool" where
  "hasPort s = (CHR '':'' \<in> set s)"

definition ensurePort :: "string \<Rightarrow> uint16 \<Rightarrow> string" where
  "ensurePort s port = (if hasPort s then s else s @ '':'' @ to_string (unat port))"

text \<open>
  \<^verbatim>\<open>resolveAddr\<close>: what follows a slash, the slash included, is the host; a failed
  \<^verbatim>\<open>inet_pton\<close> leaves the zero address and sets \<^verbatim>\<open>errno\<close> to one.
\<close>

definition resolveAddr :: "('w, 'e) env_scheme \<Rightarrow> string \<Rightarrow> ('w, sockaddr_in) prog" where
  "resolveAddr e s =
     (let host = (if CHR ''/'' \<in> set s then dropWhile (\<lambda>c. c \<noteq> CHR ''/'') s else s);
          host1 = ensurePort host DEFAULT_PORT;
          ip = takeWhile (\<lambda>c. c \<noteq> CHR '':'') host1;
          port = tl (dropWhile (\<lambda>c. c \<noteq> CHR '':'') host1)
      in case stoul port of
           Inl x \<Rightarrow> raise x
         | Inr p \<Rightarrow>
             (case inet_pton4 e (c_str ip) of
                Some a \<Rightarrow> ret \<lparr>sin_family = AF_INET, sin_port = htons (ucast p), sin_addr = a\<rparr>
              | None \<Rightarrow> thenE (modify (sys_set_errno e 1))
                  (ret \<lparr>sin_family = AF_INET, sin_port = htons (ucast p), sin_addr = 0\<rparr>)))"

definition LogAddr :: "('w, 'e) env_scheme \<Rightarrow> sockaddr_in \<Rightarrow> string" where
  "LogAddr e a = inet_ntop4 e (sin_addr a) @ '':'' @ to_string (unat (sin_port a))"

definition LogCoon :: "('w, 'e) env_scheme \<Rightarrow> int \<Rightarrow> ('w, string) prog" where
  "LogCoon e fd = bindE (call (sys_peername e fd)) (\<lambda>a. ret (LogAddr e a))"

section \<open>Random choices\<close>

text \<open>
  \<^verbatim>\<open>kRandomNodes\<close>: at most three draws per node, each kept unless it is excluded or its name
  was drawn before. \<open>exclude\<close> may read the clock, so it is a program on the world.
\<close>

fun kRandomNodes_loop ::
  "nat \<Rightarrow> ('w, 'e) env_scheme \<Rightarrow> uint8 \<Rightarrow> nodeState list \<Rightarrow> (nodeState \<Rightarrow> ('w, bool) prog) \<Rightarrow>
   nodeState list \<Rightarrow> ('w, nodeState list) prog" where
  "kRandomNodes_loop 0 e k ns exclude kNodes = ret kNodes"
| "kRandomNodes_loop (Suc i) e k ns exclude kNodes =
     (if length kNodes < unat k then
        bindE (call (sys_rand e)) (\<lambda>r.
        let n = ns ! (r mod length ns)
        in bindE (exclude n) (\<lambda>skip.
           if skip then kRandomNodes_loop i e k ns exclude kNodes
           else if NName (N n) \<in> set (map (\<lambda>x. NName (N x)) kNodes) then kRandomNodes_loop i e k ns exclude kNodes
           else kRandomNodes_loop i e k ns exclude (kNodes @ [n])))
      else ret kNodes)"

definition kRandomNodes ::
  "('w, 'e) env_scheme \<Rightarrow> uint8 \<Rightarrow> nodeState list \<Rightarrow> (nodeState \<Rightarrow> ('w, bool) prog) \<Rightarrow>
   ('w, nodeState list) prog" where
  "kRandomNodes e k ns exclude = kRandomNodes_loop (3 * length ns) e k ns exclude []"

text \<open>\<^verbatim>\<open>std::random_shuffle\<close> exchanges each element with a random one not after it.\<close>

fun shuffle_from :: "nat \<Rightarrow> nat \<Rightarrow> ('w, 'e) env_scheme \<Rightarrow> 'a list \<Rightarrow> ('w, 'a list) prog" where
  "shuffle_from 0 i e xs = ret xs"
| "shuffle_from (Suc k) i e xs =
     bindE (call (sys_rand e)) (\<lambda>r.
     let j = r mod (i + 1) in shuffle_from k (Suc i) e (xs[i := xs ! j, j := xs ! i]))"

definition random_shuffle :: "('w, 'e) env_scheme \<Rightarrow> 'a list \<Rightarrow> ('w, 'a list) prog" where
  "random_shuffle e xs = shuffle_from (length xs - 1) 1 e xs"

section \<open>What they compute\<close>

lemma digit_value: "d < 10 \<Longrightarrow> is_digit (digit d) \<and> of_char (digit d) = 48 + d"
  by (simp add: is_digit_def digit_def)

lemma to_string_digits: "c \<in> set (to_string n) \<Longrightarrow> is_digit c"
  by (induction n rule: to_string.induct) (subst (asm) (2) to_string.simps, auto simp: digit_value split: if_splits)

lemma digits_value_snoc: "digits_value (s @ [c]) = 10 * digits_value s + (of_char c - 48)"
  by (simp add: digits_value_def)

lemma to_string_value: "digits_value (to_string n) = n"
proof (induction n rule: to_string.induct)
  case (1 n)
  show ?case
  proof (cases "n < 10")
    case True
    then show ?thesis
      by (simp add: to_string.simps [of n] digits_value_def digit_value)
  next
    case False
    then show ?thesis
      using 1 by (simp add: to_string.simps [of n] digits_value_snoc digit_value)
  qed
qed

lemma to_string_ne: "to_string n \<noteq> []"
  by (subst to_string.simps) simp

lemma is_digit_not:
  assumes "is_digit c"
  shows "\<not> is_space c" "c \<noteq> CHR ''-''" "c \<noteq> CHR ''+''" "c \<noteq> CHR 0x00" "c \<noteq> CHR '':''"
  using assms by (auto simp: is_digit_def is_space_def)

text \<open>Reading a printed number gives it back.\<close>

lemma stoul_to_string:
  assumes "n < 2 ^ 64"
  shows "stoul (to_string n) = Inr (of_nat n)"
proof -
  let ?s = "to_string n"
  obtain c s where s: "?s = c # s"
    using to_string_ne by (cases ?s) auto
  have all: "is_digit x" if "x \<in> set ?s" for x
    using that by (rule to_string_digits)
  have c: "is_digit c"
    using all s by simp
  have "c_str ?s = ?s"
    unfolding c_str_def using all is_digit_not(4) by (intro takeWhile_eq_all_conv [THEN iffD2]) blast
  moreover have "dropWhile is_space ?s = ?s"
    using s is_digit_not(1) [OF c] by simp
  moreover have "takeWhile is_digit ?s = ?s"
    using all by (intro takeWhile_eq_all_conv [THEN iffD2]) blast
  ultimately show ?thesis
    using assms s is_digit_not(2,3) [OF c] to_string_value [of n] by (simp add: stoul_def Let_def)
qed

lemma wp_shuffle_from:
  assumes "i + k \<le> length xs" and "\<And>ys w'. mset ys = mset xs \<Longrightarrow> Q (Inr ys) w'"
  shows "wp (shuffle_from k i e xs) Q w"
  using assms
proof (induction k arbitrary: i xs w)
  case 0
  then show ?case by (simp add: wp_simps)
next
  case (Suc k)
  have "wp (shuffle_from k (Suc i) e (xs[i := xs ! (a mod (i + 1)), a mod (i + 1) := xs ! i])) Q w'" for a w'
  proof (rule Suc.IH)
    have "a mod (i + 1) < length xs"
      using Suc.prems(1) mod_less_divisor [of "i + 1" a] by linarith
    then have "mset (xs[i := xs ! (a mod (i + 1)), a mod (i + 1) := xs ! i]) = mset xs"
      using Suc.prems(1) by (intro mset_swap) simp_all
    then show "mset ys = mset (xs[i := xs ! (a mod (i + 1)), a mod (i + 1) := xs ! i]) \<Longrightarrow> Q (Inr ys) w'" for ys w'
      using Suc.prems(2) by simp
  qed (use Suc.prems(1) in simp)
  then show ?case by (simp add: wp_simps Let_def)
qed

text \<open>Shuffling always returns a permutation.\<close>

lemma wp_random_shuffle [wp_rules]:
  assumes "\<And>ys w'. mset ys = mset xs \<Longrightarrow> Q (Inr ys) w'"
  shows "wp (random_shuffle e xs) Q w"
proof (cases xs)
  case Nil
  then show ?thesis using assms by (simp add: random_shuffle_def wp_simps)
next
  case (Cons x ys)
  then show ?thesis using assms by (simp add: random_shuffle_def wp_shuffle_from)
qed

definition node_names :: "nodeState list \<Rightarrow> string list" where
  "node_names ns = map (\<lambda>x. NName (N x)) ns"

lemma wp_kRandomNodes_loop:
  assumes "0 < i \<Longrightarrow> ns \<noteq> []" and "length acc \<le> unat k" and "distinct (node_names acc)"
    and "set acc \<subseteq> {n \<in> set ns. ok n}"
    and "\<And>n w. n \<in> set ns \<Longrightarrow>
      wp (exclude n) (\<lambda>r w'. (\<forall>x. r = Inl x \<longrightarrow> bad x) \<and> (\<forall>b. r = Inr b \<longrightarrow> \<not> b \<longrightarrow> ok n)) w"
  shows "wp (kRandomNodes_loop i e k ns exclude acc)
     (\<lambda>r w'. (\<forall>x. r = Inl x \<longrightarrow> bad x) \<and>
        (\<forall>v. r = Inr v \<longrightarrow> length v \<le> unat k \<and> distinct (node_names v) \<and> set v \<subseteq> {n \<in> set ns. ok n})) w"
  using assms(1-4)
proof (induction i arbitrary: acc w)
  case 0
  then show ?case by (simp add: wp_simps)
next
  case (Suc i)
  let ?Q = "\<lambda>r w'. (\<forall>x. r = Inl x \<longrightarrow> bad x) \<and>
     (\<forall>v. r = Inr v \<longrightarrow> length v \<le> unat k \<and> distinct (node_names v) \<and> set v \<subseteq> {n \<in> set ns. ok n})"
  have same: "wp (kRandomNodes_loop i e k ns exclude acc) ?Q w'" for w'
    using Suc.prems by (intro Suc.IH) simp_all
  have draw: "wp (exclude (ns ! (r mod length ns))) (\<lambda>x w'. (\<forall>y. x = Inl y \<longrightarrow> ?Q (Inl y) w') \<and>
      (\<forall>skip. x = Inr skip \<longrightarrow> (skip \<longrightarrow> wp (kRandomNodes_loop i e k ns exclude acc) ?Q w') \<and>
         (\<not> skip \<longrightarrow> (NName (N (ns ! (r mod length ns))) \<in> set (node_names acc) \<longrightarrow>
            wp (kRandomNodes_loop i e k ns exclude acc) ?Q w') \<and>
          (NName (N (ns ! (r mod length ns))) \<notin> set (node_names acc) \<longrightarrow>
            wp (kRandomNodes_loop i e k ns exclude (acc @ [ns ! (r mod length ns)])) ?Q w')))) w'"
    if len: "length acc < unat k" for r w'
  proof -
    let ?n = "ns ! (r mod length ns)"
    have mem: "?n \<in> set ns"
      using Suc.prems(1) by simp
    have "wp (kRandomNodes_loop i e k ns exclude (acc @ [?n])) ?Q w'"
      if "ok ?n" "NName (N ?n) \<notin> set (node_names acc)" for w'
      using Suc.prems len that mem by (intro Suc.IH) (auto simp: node_names_def)
    then show ?thesis
      by (intro wp_mono [OF assms(5) [OF mem]]) (auto intro: same)
  qed
  show ?case
    using Suc.prems draw by (simp add: wp_simps Let_def node_names_def [symmetric])
qed

lemma wp_kRandomNodes:
  assumes "\<And>n w. n \<in> set ns \<Longrightarrow>
      wp (exclude n) (\<lambda>r w'. (\<forall>x. r = Inl x \<longrightarrow> bad x) \<and> (\<forall>b. r = Inr b \<longrightarrow> \<not> b \<longrightarrow> ok n)) w"
  shows "wp (kRandomNodes e k ns exclude)
     (\<lambda>r w'. (\<forall>x. r = Inl x \<longrightarrow> bad x) \<and>
        (\<forall>v. r = Inr v \<longrightarrow> length v \<le> unat k \<and> distinct (node_names v) \<and> set v \<subseteq> {n \<in> set ns. ok n})) w"
  unfolding kRandomNodes_def using assms by (intro wp_kRandomNodes_loop) (auto simp: node_names_def)

text \<open>
  For an exclusion test that only looks at the node, \<^verbatim>\<open>kRandomNodes\<close> returns at most
  \<^verbatim>\<open>k\<close> nodes of the list, with distinct names, none of them excluded; it never fails.
\<close>

lemma kRandomNodes_choice:
  "wp (kRandomNodes e k ns (\<lambda>n. ret (p n)))
     (\<lambda>r w'. \<exists>v. r = Inr v \<and> length v \<le> unat k \<and> distinct (node_names v) \<and>
        set v \<subseteq> {n \<in> set ns. \<not> p n}) w"
proof -
  have "wp (kRandomNodes e k ns (\<lambda>n. ret (p n)))
     (\<lambda>r w'. (\<forall>x. r = Inl x \<longrightarrow> False) \<and>
        (\<forall>v. r = Inr v \<longrightarrow> length v \<le> unat k \<and> distinct (node_names v) \<and> set v \<subseteq> {n \<in> set ns. \<not> p n})) w"
    by (rule wp_kRandomNodes) (simp add: wp_simps)
  then show ?thesis
    by (rule wp_mono) (metis sum.exhaust)
qed

section \<open>Resolving an address\<close>

lemma takeWhile_no_colon:
  "CHR '':'' \<notin> set s \<Longrightarrow> takeWhile (\<lambda>c. c \<noteq> CHR '':'') (s @ CHR '':'' # t) = s"
  "CHR '':'' \<notin> set s \<Longrightarrow> dropWhile (\<lambda>c. c \<noteq> CHR '':'') (s @ CHR '':'' # t) = CHR '':'' # t"
  by (induction s) auto

text \<open>
  C40. \<^verbatim>\<open>resolveAddr\<close> on an address without a node name: a numeric host and port give
  exactly that address in network byte order, a missing port is the default port. With a
  node name in front, the host that is looked up still starts with the slash, so on a
  platform whose \<^verbatim>\<open>inet_pton\<close> takes no such string the zero address results.
\<close>

theorem resolveAddr_cases:
  assumes host: "CHR ''/'' \<notin> set host" "CHR '':'' \<notin> set host" "CHR 0x00 \<notin> set host"
    and ip: "inet_pton4 e host = Some a"
    and slash: "\<forall>s. inet_pton4 e (CHR ''/'' # s) = None"
    and name: "CHR ''/'' \<notin> set nm" "CHR 0x00 \<notin> set nm"
  shows "resolveAddr e (host @ '':'' @ to_string (unat (port :: uint16))) w =
           (Inr \<lparr>sin_family = AF_INET, sin_port = htons port, sin_addr = a\<rparr>, w) \<and>
         resolveAddr e host w =
           (Inr \<lparr>sin_family = AF_INET, sin_port = htons DEFAULT_PORT, sin_addr = a\<rparr>, w) \<and>
         resolveAddr e (nm @ ''/'' @ host) w =
           (Inr \<lparr>sin_family = AF_INET, sin_port = htons DEFAULT_PORT, sin_addr = 0\<rparr>, sys_set_errno e 1 w)"
proof -
  have st: "stoul (to_string (unat p)) = Inr (of_nat (unat p))" for p :: uint16
  proof -
    have "unat p < 2 ^ 64"
      using unsigned_less [of p, where ?'a = nat] by simp
    then show ?thesis by (rule stoul_to_string)
  qed
  have uc: "ucast (of_nat (unat p) :: uint64) = p" for p :: uint16
    by (rule bit_word_eqI) (auto simp: bit_simps)
  have slash_free: "CHR ''/'' \<notin> set (to_string n)" for n
    using to_string_digits [of "CHR ''/''" n] by (auto simp: is_digit_def)
  have c: "c_str host = host"
    using host(3) by (auto simp: c_str_def)
  have drop: "dropWhile (\<lambda>c. c \<noteq> CHR ''/'') (nm @ CHR ''/'' # host) = CHR ''/'' # host"
    using name by (induction nm) auto
  have c': "c_str (CHR ''/'' # host) = CHR ''/'' # host"
    using c by (simp add: c_str_def)
  have tw: "takeWhile (\<lambda>c. c \<noteq> CHR '':'') (host @ CHR '':'' # t) = host"
    "dropWhile (\<lambda>c. c \<noteq> CHR '':'') (host @ CHR '':'' # t) = CHR '':'' # t" for t
    by (simp_all add: takeWhile_no_colon host(2))
  have st0: "stoul (to_string 6666) = Inr 6666"
    using stoul_to_string [of 6666] by simp
  note defs = resolveAddr_def ensurePort_def hasPort_def Let_def ret_def thenE_def bindE_def modify_def
  show ?thesis
    using host ip slash slash_free
    by (simp add: defs st st0 uc c c' drop tw del: of_nat_unat)
qed

lemma ref_slash: "ref_inet_pton (CHR ''/'' # s) = None"
proof (cases "split_on (CHR ''.'') s")
  case Nil
  then show ?thesis by (simp add: ref_inet_pton_def quad_octet_def)
next
  case (Cons y ys)
  then have "split_on (CHR ''.'') (CHR ''/'' # s) = (CHR ''/'' # y) # ys"
    by simp
  moreover have "quad_octet (CHR ''/'' # y) = None"
    by (simp add: quad_octet_def)
  ultimately show ?thesis by (simp add: ref_inet_pton_def split: list.split)
qed

theorem resolveAddr_cases_witness:
  "resolveAddr ref_env (''127.0.0.1'' @ '':'' @ to_string (unat (7000 :: uint16))) world0 =
     (Inr \<lparr>sin_family = AF_INET, sin_port = htons 7000, sin_addr = 16777343\<rparr>, world0) \<and>
   resolveAddr ref_env ''127.0.0.1'' world0 =
     (Inr \<lparr>sin_family = AF_INET, sin_port = htons DEFAULT_PORT, sin_addr = 16777343\<rparr>, world0) \<and>
   resolveAddr ref_env (''seed'' @ ''/'' @ ''127.0.0.1'') world0 =
     (Inr \<lparr>sin_family = AF_INET, sin_port = htons DEFAULT_PORT, sin_addr = 0\<rparr>, sys_set_errno ref_env 1 world0)"
  by (rule resolveAddr_cases) (simp_all add: ref_env_def ref_slash ref_inet_pton_localhost)

end
