(* ===== verification/WireParse.thy ===== *)
theory WireParse
  imports Wire
begin

text \<open>
  The parsers protoc generated in \<^verbatim>\<open>type/msgtype.pb.cc\<close>: \<^verbatim>\<open>_InternalParse\<close> of every message,
  over the readers of the protobuf runtime, and \<^verbatim>\<open>ParseFromString\<close>. A parser works on the
  message in place, so what it leaves behind when it fails is part of its result.
\<close>

section \<open>The parsing loop\<close>

text \<open>
  The common shape of the fifteen functions: read a tag, let the \<^verbatim>\<open>switch\<close> handle a known
  field, keep an unknown one, stop at a zero or end-group tag (which the caller takes for a
  failure). \<open>field tag m bs\<close> is \<open>None\<close> where the code goes to \<^verbatim>\<open>handle_unusual\<close>. Every round
  consumes at least the tag, so as many rounds as there are bytes suffice.
\<close>

fun parse_loop ::
  "nat \<Rightarrow> 'r pb_runtime_scheme \<Rightarrow> (uint32 \<Rightarrow> 'm pb_message_scheme \<Rightarrow> bytes \<Rightarrow> ('m pb_message_scheme \<times> bytes option) option) \<Rightarrow>
   'm pb_message_scheme \<Rightarrow> bytes \<Rightarrow> 'm pb_message_scheme \<times> bool" where
  "parse_loop 0 rt field m bs = (m, bs = [])"
| "parse_loop (Suc k) rt field m bs =
     (if bs = [] then (m, True)
      else case ReadTag rt bs of
        (tag, None) \<Rightarrow> (m, False)
      | (tag, Some ptr) \<Rightarrow>
          (case field tag m ptr of
             Some (m', None) \<Rightarrow> (m', False)
           | Some (m', Some rest) \<Rightarrow> parse_loop k rt field m' rest
           | None \<Rightarrow>
               if tag = 0 \<or> tag mod 8 = 4 then (m, False)
               else case UnknownFieldParse rt tag ptr of
                 (u, None) \<Rightarrow> (m\<lparr>unknown_fields := unknown_fields m @ u\<rparr>, False)
               | (u, Some rest) \<Rightarrow> parse_loop k rt field (m\<lparr>unknown_fields := unknown_fields m @ u\<rparr>) rest))"

definition parse_message ::
  "'r pb_runtime_scheme \<Rightarrow> (uint32 \<Rightarrow> 'm pb_message_scheme \<Rightarrow> bytes \<Rightarrow> ('m pb_message_scheme \<times> bytes option) option) \<Rightarrow>
   'm pb_message_scheme \<Rightarrow> bytes \<Rightarrow> 'm pb_message_scheme \<times> bool" where
  "parse_message rt field m bs = parse_loop (length bs) rt field m bs"

section \<open>Reading one field\<close>

definition get_uint32 :: "'r pb_runtime_scheme \<Rightarrow> (uint32 \<Rightarrow> 'm \<Rightarrow> 'm) \<Rightarrow> 'm \<Rightarrow> bytes \<Rightarrow> ('m \<times> bytes option) option" where
  "get_uint32 rt put m bs = (case ReadVarint32 rt bs of (v, r) \<Rightarrow> Some (put v m, r))"

definition get_bool :: "'r pb_runtime_scheme \<Rightarrow> (bool \<Rightarrow> 'm \<Rightarrow> 'm) \<Rightarrow> 'm \<Rightarrow> bytes \<Rightarrow> ('m \<times> bytes option) option" where
  "get_bool rt put m bs = (case ReadVarint64 rt bs of (v, r) \<Rightarrow> Some (put (v \<noteq> 0) m, r))"

text \<open>An enum field is set only when the number could be read; the cast keeps its low 32 bits.\<close>

definition get_enum :: "'r pb_runtime_scheme \<Rightarrow> (int \<Rightarrow> 'm \<Rightarrow> 'm) \<Rightarrow> 'm \<Rightarrow> bytes \<Rightarrow> ('m \<times> bytes option) option" where
  "get_enum rt put m bs =
     (case ReadVarint64 rt bs of
        (v, None) \<Rightarrow> Some (m, None)
      | (v, Some r) \<Rightarrow> Some (put (sint (ucast v :: uint32)) m, Some r))"

definition get_string ::
  "'r pb_runtime_scheme \<Rightarrow> ('m \<Rightarrow> string) \<Rightarrow> (string \<Rightarrow> 'm \<Rightarrow> 'm) \<Rightarrow> 'm \<Rightarrow> bytes \<Rightarrow> ('m \<times> bytes option) option" where
  "get_string rt get put m bs =
     (case InlineGreedyStringParser rt bs of (s, r) \<Rightarrow>
        let m' = (case s of None \<Rightarrow> m | Some v \<Rightarrow> put v m)
        in Some (m', if VerifyUTF8 rt (get m') then r else None))"

definition get_message ::
  "'r pb_runtime_scheme \<Rightarrow> ('x \<Rightarrow> bytes \<Rightarrow> 'x \<times> bool) \<Rightarrow> 'x \<Rightarrow> ('x \<Rightarrow> 'm \<Rightarrow> 'm) \<Rightarrow> 'm \<Rightarrow> bytes \<Rightarrow>
   ('m \<times> bytes option) option" where
  "get_message rt parse sub put m bs =
     (case ReadMessageBytes rt bs of (inner, r) \<Rightarrow>
        case parse sub inner of (x, ok) \<Rightarrow> Some (put x m, if ok then r else None))"

lemmas get_defs = get_uint32_def get_bool_def get_enum_def get_string_def get_message_def

section \<open>The parsers\<close>

text \<open>A case of the \<^verbatim>\<open>switch\<close> tests field number and wire type, which together are the tag.\<close>

definition Ping_InternalParse :: "'r pb_runtime_scheme \<Rightarrow> Ping \<Rightarrow> bytes \<Rightarrow> Ping \<times> bool" where
  "Ping_InternalParse rt = parse_message rt (\<lambda>tag m bs.
     if tag = 8 then get_uint32 rt (\<lambda>v. ping_seqno_update (\<lambda>_. v)) m bs
     else if tag = 18 then get_string rt ping_node (\<lambda>v. ping_node_update (\<lambda>_. v)) m bs
     else if tag = 26 then get_string rt ping_sourceaddr (\<lambda>v. ping_sourceaddr_update (\<lambda>_. v)) m bs
     else if tag = 32 then get_uint32 rt (\<lambda>v. ping_sourceport_update (\<lambda>_. v)) m bs
     else if tag = 42 then get_string rt ping_sourcenode (\<lambda>v. ping_sourcenode_update (\<lambda>_. v)) m bs
     else None)"

definition IndirectPing_InternalParse :: "'r pb_runtime_scheme \<Rightarrow> IndirectPing \<Rightarrow> bytes \<Rightarrow> IndirectPing \<times> bool" where
  "IndirectPing_InternalParse rt = parse_message rt (\<lambda>tag m bs.
     if tag = 8 then get_uint32 rt (\<lambda>v. iping_seqno_update (\<lambda>_. v)) m bs
     else if tag = 18 then get_string rt iping_node (\<lambda>v. iping_node_update (\<lambda>_. v)) m bs
     else if tag = 26 then get_string rt iping_targetaddr (\<lambda>v. iping_targetaddr_update (\<lambda>_. v)) m bs
     else if tag = 32 then get_uint32 rt (\<lambda>v. iping_targetport_update (\<lambda>_. v)) m bs
     else if tag = 40 then get_bool rt (\<lambda>v. iping_nack_update (\<lambda>_. v)) m bs
     else if tag = 50 then get_string rt iping_sourceaddr (\<lambda>v. iping_sourceaddr_update (\<lambda>_. v)) m bs
     else if tag = 56 then get_uint32 rt (\<lambda>v. iping_sourceport_update (\<lambda>_. v)) m bs
     else if tag = 66 then get_string rt iping_sourcenode (\<lambda>v. iping_sourcenode_update (\<lambda>_. v)) m bs
     else None)"

definition AckResp_InternalParse :: "'r pb_runtime_scheme \<Rightarrow> AckResp \<Rightarrow> bytes \<Rightarrow> AckResp \<times> bool" where
  "AckResp_InternalParse rt = parse_message rt (\<lambda>tag m bs.
     if tag = 8 then get_uint32 rt (\<lambda>v. ack_seqno_update (\<lambda>_. v)) m bs else None)"

definition NackResp_InternalParse :: "'r pb_runtime_scheme \<Rightarrow> NackResp \<Rightarrow> bytes \<Rightarrow> NackResp \<times> bool" where
  "NackResp_InternalParse rt = parse_message rt (\<lambda>tag m bs.
     if tag = 8 then get_uint32 rt (\<lambda>v. nack_seqno_update (\<lambda>_. v)) m bs else None)"

definition ErrResp_InternalParse :: "'r pb_runtime_scheme \<Rightarrow> ErrResp \<Rightarrow> bytes \<Rightarrow> ErrResp \<times> bool" where
  "ErrResp_InternalParse rt = parse_message rt (\<lambda>tag m bs.
     if tag = 10 then get_string rt err_error (\<lambda>v. err_error_update (\<lambda>_. v)) m bs else None)"

definition Suspect_InternalParse :: "'r pb_runtime_scheme \<Rightarrow> Suspect \<Rightarrow> bytes \<Rightarrow> Suspect \<times> bool" where
  "Suspect_InternalParse rt = parse_message rt (\<lambda>tag m bs.
     if tag = 8 then get_uint32 rt (\<lambda>v. suspect_incarnation_update (\<lambda>_. v)) m bs
     else if tag = 18 then get_string rt suspect_node (\<lambda>v. suspect_node_update (\<lambda>_. v)) m bs
     else if tag = 26 then get_string rt suspect_from (\<lambda>v. suspect_from_update (\<lambda>_. v)) m bs
     else None)"

definition Alive_InternalParse :: "'r pb_runtime_scheme \<Rightarrow> Alive \<Rightarrow> bytes \<Rightarrow> Alive \<times> bool" where
  "Alive_InternalParse rt = parse_message rt (\<lambda>tag m bs.
     if tag = 8 then get_uint32 rt (\<lambda>v. alive_incarnation_update (\<lambda>_. v)) m bs
     else if tag = 18 then get_string rt alive_node (\<lambda>v. alive_node_update (\<lambda>_. v)) m bs
     else if tag = 26 then get_string rt alive_addr (\<lambda>v. alive_addr_update (\<lambda>_. v)) m bs
     else if tag = 32 then get_uint32 rt (\<lambda>v. alive_port_update (\<lambda>_. v)) m bs
     else None)"

definition Dead_InternalParse :: "'r pb_runtime_scheme \<Rightarrow> Dead \<Rightarrow> bytes \<Rightarrow> Dead \<times> bool" where
  "Dead_InternalParse rt = parse_message rt (\<lambda>tag m bs.
     if tag = 8 then get_uint32 rt (\<lambda>v. dead_incarnation_update (\<lambda>_. v)) m bs
     else if tag = 18 then get_string rt dead_node (\<lambda>v. dead_node_update (\<lambda>_. v)) m bs
     else if tag = 26 then get_string rt dead_from (\<lambda>v. dead_from_update (\<lambda>_. v)) m bs
     else None)"

definition PushNodeState_InternalParse :: "'r pb_runtime_scheme \<Rightarrow> PushNodeState \<Rightarrow> bytes \<Rightarrow> PushNodeState \<times> bool" where
  "PushNodeState_InternalParse rt = parse_message rt (\<lambda>tag m bs.
     if tag = 10 then get_string rt pns_name (\<lambda>v. pns_name_update (\<lambda>_. v)) m bs
     else if tag = 18 then get_string rt pns_addr (\<lambda>v. pns_addr_update (\<lambda>_. v)) m bs
     else if tag = 24 then get_uint32 rt (\<lambda>v. pns_port_update (\<lambda>_. v)) m bs
     else if tag = 32 then get_uint32 rt (\<lambda>v. pns_incarnation_update (\<lambda>_. v)) m bs
     else if tag = 40 then get_enum rt (\<lambda>v. pns_state_update (\<lambda>_. v)) m bs
     else None)"

definition PushPull_InternalParse :: "'r pb_runtime_scheme \<Rightarrow> PushPull \<Rightarrow> bytes \<Rightarrow> PushPull \<times> bool" where
  "PushPull_InternalParse rt = parse_message rt (\<lambda>tag m bs.
     if tag = 8 then get_bool rt (\<lambda>v. pp_join_update (\<lambda>_. v)) m bs
     else if tag = 18 then get_message rt (PushNodeState_InternalParse rt) PushNodeState0
       (\<lambda>x m. m\<lparr>pp_states := pp_states m @ [x]\<rparr>) m bs
     else None)"

definition User_InternalParse :: "'r pb_runtime_scheme \<Rightarrow> User \<Rightarrow> bytes \<Rightarrow> User \<times> bool" where
  "User_InternalParse rt = parse_message rt (\<lambda>tag m bs.
     if tag = 10 then get_string rt user_msg (\<lambda>v. user_msg_update (\<lambda>_. v)) m bs else None)"

text \<open>\<^verbatim>\<open>_internal_mutable_x()\<close> keeps the member that is set and replaces another by a new one.\<close>

definition Broadcast_InternalParse :: "'r pb_runtime_scheme \<Rightarrow> Broadcast \<Rightarrow> bytes \<Rightarrow> Broadcast \<times> bool" where
  "Broadcast_InternalParse rt = parse_message rt (\<lambda>tag m bs.
     if tag = 8 then get_enum rt (\<lambda>v. bc_type_update (\<lambda>_. v)) m bs
     else if tag = 18 then get_message rt (Alive_InternalParse rt) (bc_alive m)
       (\<lambda>x m. m\<lparr>bc_content := Some (ContentAlive x)\<rparr>) m bs
     else if tag = 26 then get_message rt (Dead_InternalParse rt) (bc_dead m)
       (\<lambda>x m. m\<lparr>bc_content := Some (ContentDead x)\<rparr>) m bs
     else if tag = 34 then get_message rt (Suspect_InternalParse rt) (bc_suspect m)
       (\<lambda>x m. m\<lparr>bc_content := Some (ContentSuspect x)\<rparr>) m bs
     else None)"

definition ComBroadcast_InternalParse :: "'r pb_runtime_scheme \<Rightarrow> ComBroadcast \<Rightarrow> bytes \<Rightarrow> ComBroadcast \<times> bool" where
  "ComBroadcast_InternalParse rt = parse_message rt (\<lambda>tag m bs.
     if tag = 10 then get_message rt (Broadcast_InternalParse rt) Broadcast0
       (\<lambda>x m. m\<lparr>cbc_bs := cbc_bs m @ [x]\<rparr>) m bs
     else None)"

definition MessageData_InternalParse :: "'r pb_runtime_scheme \<Rightarrow> MessageData \<Rightarrow> bytes \<Rightarrow> MessageData \<times> bool" where
  "MessageData_InternalParse rt = parse_message rt (\<lambda>tag m bs.
     if tag = 8 then get_enum rt (\<lambda>v. md_head_update (\<lambda>_. v)) m bs
     else if tag = 18 then get_message rt (Ping_InternalParse rt) (md_ping m)
       (\<lambda>x m. m\<lparr>md_body := Some (BodyPing x)\<rparr>) m bs
     else if tag = 26 then get_message rt (IndirectPing_InternalParse rt) (md_indirectping m)
       (\<lambda>x m. m\<lparr>md_body := Some (BodyIndirectPing x)\<rparr>) m bs
     else if tag = 34 then get_message rt (AckResp_InternalParse rt) (md_ackresp m)
       (\<lambda>x m. m\<lparr>md_body := Some (BodyAckResp x)\<rparr>) m bs
     else if tag = 42 then get_message rt (NackResp_InternalParse rt) (md_nackresp m)
       (\<lambda>x m. m\<lparr>md_body := Some (BodyNackResp x)\<rparr>) m bs
     else if tag = 50 then get_message rt (PushPull_InternalParse rt) (md_pushpull m)
       (\<lambda>x m. m\<lparr>md_body := Some (BodyPushPull x)\<rparr>) m bs
     else if tag = 58 then get_message rt (ComBroadcast_InternalParse rt) (md_combroadcast m)
       (\<lambda>x m. m\<lparr>md_body := Some (BodyComBroadcast x)\<rparr>) m bs
     else if tag = 66 then get_message rt (User_InternalParse rt) (md_user m)
       (\<lambda>x m. m\<lparr>md_body := Some (BodyUser x)\<rparr>) m bs
     else if tag = 74 then get_message rt (ErrResp_InternalParse rt) (md_errresp m)
       (\<lambda>x m. m\<lparr>md_body := Some (BodyErrResp x)\<rparr>) m bs
     else None)"

definition Compound_InternalParse :: "'r pb_runtime_scheme \<Rightarrow> Compound \<Rightarrow> bytes \<Rightarrow> Compound \<times> bool" where
  "Compound_InternalParse rt = parse_message rt (\<lambda>tag m bs.
     if tag = 10 then get_message rt (MessageData_InternalParse rt) MessageData0
       (\<lambda>x m. m\<lparr>cd_mds := cd_mds m @ [x]\<rparr>) m bs
     else None)"

text \<open>\<^verbatim>\<open>md.ParseFromString(s)\<close> clears the message first.\<close>

definition ParseFromString :: "'r pb_runtime_scheme \<Rightarrow> bytes \<Rightarrow> MessageData \<times> bool" where
  "ParseFromString rt s = MessageData_InternalParse rt MessageData0 s"

end
