(* ===== verification/Net.thy ===== *)
theory Net
  imports WireParse Wrapped Reference
begin

text \<open>
  Sending and receiving messages: \<^verbatim>\<open>mynet/net.cpp\<close>. A received packet goes through a buffer of
  1024 bytes that is terminated with a zero byte and handed to the parser as a C string; a
  message that cannot be parsed is returned as far as it could be read.
\<close>

abbreviation MessageDataOverhead :: uint64 where
  "MessageDataOverhead \<equiv> 4"

definition beforeSend :: "('w, 'e) env_scheme \<Rightarrow> MessageData \<Rightarrow> bytes" where
  "beforeSend e md = MessageData_InternalSerialize e md"

definition encodeSendTCP :: "('w, 'e) env_scheme \<Rightarrow> int \<Rightarrow> MessageData \<Rightarrow> ('w, unit) prog" where
  "encodeSendTCP e fd md = bindE (Write e fd (beforeSend e md)) (\<lambda>_. ret ())"

definition encodeSendUDP :: "('w, 'e) env_scheme \<Rightarrow> int \<Rightarrow> sockaddr_in \<Rightarrow> MessageData \<Rightarrow> ('w, unit) prog" where
  "encodeSendUDP e fd remote_addr md = bindE (Sendto e fd (beforeSend e md) remote_addr) (\<lambda>_. ret ())"

text \<open>With 1024 bytes received, the terminating zero is written past the end of the buffer.\<close>

definition parse_buffer :: "('w, 'e) env_scheme \<Rightarrow> int \<Rightarrow> bytes \<Rightarrow> ('w, MessageData) prog" where
  "parse_buffer e n buf =
     (if n \<ge> 1024 then raise Undefined
      else ret (fst (ParseFromString e (c_str (take (nat n) buf)))))"

definition decodeReceiveUDP :: "('w, 'e) env_scheme \<Rightarrow> int \<Rightarrow> ('w, MessageData \<times> sockaddr_in) prog" where
  "decodeReceiveUDP e fd =
     bindE (Recvfrom e fd 1024) (\<lambda>(n, buf, remote_addr).
     bindE (parse_buffer e n buf) (\<lambda>md. ret (md, remote_addr)))"

definition decodeReceiveTCP :: "('w, 'e) env_scheme \<Rightarrow> int \<Rightarrow> ('w, MessageData) prog" where
  "decodeReceiveTCP e fd = bindE (Read e fd 1024) (\<lambda>(n, buf). parse_buffer e n buf)"

lemma wp_parse_buffer [wp_simps]:
  "wp (parse_buffer e n buf) Q w =
     ((n \<ge> 1024 \<longrightarrow> Q (Inl Undefined) w) \<and>
      (\<not> n \<ge> 1024 \<longrightarrow> Q (Inr (fst (ParseFromString e (c_str (take (nat n) buf))))) w))"
  by (simp add: parse_buffer_def wp_simps)

end
