(* ===== verification/Memberlist.thy ===== *)
theory Memberlist
  imports BroadcastQueue Timer Util Net "HOL-Library.AList"
begin

text \<open>
  The member list: its state (\<^verbatim>\<open>memberlist/memberlist.h\<close>) and the operations that keep the
  table of nodes, \<^verbatim>\<open>aliveNode\<close>, \<^verbatim>\<open>suspectNode\<close>, \<^verbatim>\<open>deadNode\<close> and what they call, from
  \<^verbatim>\<open>memberlist/state.cpp\<close>, \<^verbatim>\<open>memberlist/memberlist.cpp\<close> and \<^verbatim>\<open>memberlist/broadcast.cpp\<close>. The
  table holds its nodes twice, in the vector \<^verbatim>\<open>nodes\<close> and by name in \<^verbatim>\<open>nodeMap\<close>, sharing the
  objects; so the model keeps the objects in a heap and addresses in both.
\<close>

section \<open>State\<close>

record msgHandoff =
  mh_b :: Broadcast
  mh_from :: sockaddr_in

datatype schedTask = TaskProbe | TaskPushPull | TaskGossip

text \<open>Detached threads: what their closures captured.\<close>

datatype detachedThread =
    TcpPing int Node MessageData int
  | NackWaiter int int sockaddr_in uint32 uint32
  | ConnHandler int

text \<open>
  Address \<open>0\<close> is the null pointer. \<open>self\<close> is the thread that is running, \<open>nodeMutex\<close> whether
  the mutex is held; the other mutexes are only held around code that takes no lock. A
  \<^verbatim>\<open>std::stack\<close> is a list with its top first, a \<^verbatim>\<open>std::map\<close> that is iterated an association list.
\<close>

record memberlist =
  sequenceNum :: uint32
  incarnation :: uint32
  numNodes :: uint32
  pushPullReq :: uint32
  config :: Config
  leave :: bool
  leaveFd :: "int \<times> int"
  shutdown :: bool
  shutdownFd :: "int \<times> int"
  tcpFd :: int
  udpFd :: int
  handoffFd :: "int \<times> int"
  highPriorityMsgQueue :: "msgHandoff list"
  lowPriorityMsgQueue :: "msgHandoff list"
  nodeMutex :: bool
  heap :: "nat \<Rightarrow> nodeState"
  heapNext :: nat
  nodes :: "nat list"
  nodeMap :: "string \<rightharpoonup> nat"
  nodeTimers :: "(string \<times> suspicion) list"
  TransmitLimitedQueue :: broadcastQueue
  scheduled :: bool
  schedule_timer :: "schedTask timer option list"
  probeIndex :: nat
  ackHandlers :: "(uint32 \<times> ackHandler) list"
  detached :: "detachedThread list"
  self :: nat

type_synonym ('w, 'a) mprog = "(memberlist \<times> 'w, 'a) prog"

abbreviation localName :: "memberlist \<Rightarrow> string" where
  "localName m \<equiv> Name (config m)"

text \<open>
  The object before its constructor runs: the containers are empty, and no other field is read
  before \<^verbatim>\<open>newmemberlist\<close> sets it.
\<close>

definition memberlist0 :: "Config \<Rightarrow> memberlist" where
  "memberlist0 c = \<lparr>sequenceNum = 0, incarnation = 0, numNodes = 0, pushPullReq = 0, config = c, leave = False,
     leaveFd = (-1, -1), shutdown = False, shutdownFd = (-1, -1), tcpFd = -1, udpFd = -1, handoffFd = (-1, -1),
     highPriorityMsgQueue = [], lowPriorityMsgQueue = [], nodeMutex = False,
     heap = (\<lambda>_. \<lparr>N = \<lparr>NName = [], NAddr = [], NPort = 0\<rparr>, Incarnation = 0, State = StateDead, StateChange = 0\<rparr>),
     heapNext = 1, nodes = [], nodeMap = Map.empty, nodeTimers = [],
     TransmitLimitedQueue = new_broadcastQueue (cfg_RetransmitMult c), scheduled = False,
     schedule_timer = [None, None, None], probeIndex = 0, ackHandlers = [], detached = [], self = 0\<rparr>"

text \<open>
  \<^verbatim>\<open>lock_guard<mutex> l(nodeMutex)\<close> around a block: taking the mutex a second time never
  returns, and leaving the block, also by an exception, releases it.
\<close>

definition node_lock :: "('w, 'a) mprog \<Rightarrow> ('w, 'a) mprog" where
  "node_lock p s =
     (if nodeMutex (fst s) then (Inl Deadlock, s)
      else case p ((fst s)\<lparr>nodeMutex := True\<rparr>, snd s) of
        (Inl Deadlock, s') \<Rightarrow> (Inl Deadlock, s')
      | (r, s') \<Rightarrow> (r, ((fst s')\<lparr>nodeMutex := False\<rparr>, snd s')))"

definition now_us :: "('w, 'e) env_scheme \<Rightarrow> ('w, int) mprog" where
  "now_us e = world (call (sys_now e))"

definition set_node :: "nat \<Rightarrow> (nodeState \<Rightarrow> nodeState) \<Rightarrow> ('w, unit) mprog" where
  "set_node p f = upd (\<lambda>m. m\<lparr>heap := (heap m)(p := f (heap m p))\<rparr>)"

section \<open>Counters\<close>

definition nextSeqNum :: "('w, uint32) mprog" where
  "nextSeqNum = thenE (upd (\<lambda>m. m\<lparr>sequenceNum := sequenceNum m + 1\<rparr>)) (obj sequenceNum)"

definition nextIncarnation :: "('w, uint32) mprog" where
  "nextIncarnation = thenE (upd (\<lambda>m. m\<lparr>incarnation := incarnation m + 1\<rparr>)) (obj incarnation)"

definition skipIncarnation :: "uint32 \<Rightarrow> ('w, uint32) mprog" where
  "skipIncarnation offset = thenE (upd (\<lambda>m. m\<lparr>incarnation := incarnation m + offset\<rparr>)) (obj incarnation)"

definition EstNumNodes :: "memberlist \<Rightarrow> uint32" where
  "EstNumNodes m = numNodes m"

section \<open>Queueing broadcasts\<close>

definition on_queue :: "(broadcastQueue \<times> 'w, 'a) prog \<Rightarrow> ('w, 'a) mprog" where
  "on_queue p = zoom TransmitLimitedQueue (\<lambda>q m. m\<lparr>TransmitLimitedQueue := q\<rparr>) p"

definition BroadcastNotify :: "('w, 'e) env_scheme \<Rightarrow> string \<Rightarrow> Broadcast \<Rightarrow> int \<Rightarrow> ('w, unit) mprog" where
  "BroadcastNotify e node bc notifyFd =
     on_queue (QueueBroadcast e \<lparr>mb_node = node, mb_msg = bc, mb_notifyFd = notifyFd\<rparr>)"

definition onlyBroadcast :: "('w, 'e) env_scheme \<Rightarrow> string \<Rightarrow> Broadcast \<Rightarrow> ('w, unit) mprog" where
  "onlyBroadcast e node bc = BroadcastNotify e node bc (-1)"

definition getBroadcasts ::
  "('w, 'e) env_scheme \<Rightarrow> uint64 \<Rightarrow> uint64 \<Rightarrow> ComBroadcast \<Rightarrow> ('w, bool \<times> ComBroadcast) mprog" where
  "getBroadcasts e overhead limit cbc =
     bindE (obj EstNumNodes) (\<lambda>n. on_queue (GetBroadcasts e n overhead limit cbc))"

section \<open>Suspicion timers\<close>

text \<open>\<^verbatim>\<open>nodeTimers.erase(name)\<close> destroys the suspicion, which joins its timer's thread.\<close>

definition erase_timer :: "string \<Rightarrow> ('w, unit) mprog" where
  "erase_timer name =
     bindE (obj id) (\<lambda>m.
     case map_of (nodeTimers m) name of
       None \<Rightarrow> ret ()
     | Some s \<Rightarrow>
         thenE (upd (\<lambda>m. m\<lparr>nodeTimers := AList.delete name (nodeTimers m)\<rparr>))
         (bindE (on_object s (suspicion_destroy (self m) (nodeMutex m))) (\<lambda>_. ret ())))"

section \<open>Refuting\<close>

definition refute :: "('w, 'e) env_scheme \<Rightarrow> nat \<Rightarrow> uint32 \<Rightarrow> ('w, unit) mprog" where
  "refute e me accusedInc =
     bindE (obj incarnation) (\<lambda>inc0.
     bindE (if accusedInc \<ge> inc0 then skipIncarnation (accusedInc - inc0 + 1) else ret inc0) (\<lambda>inc.
     thenE (set_node me (\<lambda>s. s\<lparr>Incarnation := inc\<rparr>))
     (bindE (obj (\<lambda>m. N (heap m me))) (\<lambda>n.
     onlyBroadcast e (NName n) (genAliveBroadcast inc (NName n) (NAddr n) (ucast (NPort n)))))))"

section \<open>Alive messages\<close>

definition new_object :: "nodeState \<Rightarrow> ('w, nat) mprog" where
  "new_object st =
     bindE (obj heapNext) (\<lambda>p.
     thenE (upd (\<lambda>m. m\<lparr>heap := (heap m)(p := st), heapNext := Suc p\<rparr>)) (ret p))"

text \<open>A new node goes to a random position of \<^verbatim>\<open>nodes\<close>, the one there before to the end.\<close>

definition insert_random :: "('w, 'e) env_scheme \<Rightarrow> nat \<Rightarrow> ('w, unit) mprog" where
  "insert_random e p =
     bindE (obj nodes) (\<lambda>ns.
     if ns = [] then upd (\<lambda>m. m\<lparr>nodes := nodes m @ [p]\<rparr>)
     else
       bindE (world (call (sys_rand e))) (\<lambda>r.
       let offset = r mod length ns
       in upd (\<lambda>m. m\<lparr>nodes := (nodes m @ [nodes m ! offset])[offset := p]\<rparr>)))"

text \<open>
  The node an alive message is about, created when it is new, and whether its address is to
  be replaced; \<open>None\<close> when the address conflicts and the message is dropped.
\<close>

definition alive_lookup :: "('w, 'e) env_scheme \<Rightarrow> Alive \<Rightarrow> ('w, (nat \<times> bool) option) mprog" where
  "alive_lookup e a =
     bindE (obj id) (\<lambda>m.
     case nodeMap m (alive_node a) of
       None \<Rightarrow>
         bindE (world (new_nodeState e \<lparr>NName = alive_node a, NAddr = alive_addr a, NPort = ucast (alive_port a)\<rparr>
                         0 StateDead)) (\<lambda>st.
         bindE (new_object st) (\<lambda>p.
         thenE (upd (\<lambda>m. m\<lparr>nodeMap := (nodeMap m)(alive_node a \<mapsto> p)\<rparr>))
         (thenE (insert_random e p)
         (thenE (upd (\<lambda>m. m\<lparr>numNodes := numNodes m + 1\<rparr>))
         (ret (Some (p, False)))))))
     | Some p \<Rightarrow>
         let st = heap m p
         in if alive_addr a \<noteq> NAddr (N st) \<or> alive_port a \<noteq> ucast (NPort (N st)) then
              bindE (now_us e) (\<lambda>now.
              bindE (if DeadNodeReclaimTime (config m) > 0
                     then bindE (int64 (now - StateChange st)) (\<lambda>d. ret (d \<ge> DeadNodeReclaimTime (config m)))
                     else ret False) (\<lambda>canReclaim.
              if State st = StateLeft \<or> (State st = StateDead \<and> canReclaim) then ret (Some (p, True))
              else ret None))
            else ret (Some (p, False)))"

definition alive_apply ::
  "('w, 'e) env_scheme \<Rightarrow> Alive \<Rightarrow> bool \<Rightarrow> int \<Rightarrow> nat \<Rightarrow> bool \<Rightarrow> ('w, unit) mprog" where
  "alive_apply e a bootstrap notifyfd p updateNode =
     bindE (obj id) (\<lambda>m.
     let st = heap m p; isLocalNode = (NName (N st) = localName m)
     in if isLocalNode \<and> alive_incarnation a < Incarnation st then ret ()
        else if \<not> isLocalNode \<and> alive_incarnation a \<le> Incarnation st \<and> \<not> updateNode then ret ()
        else
          thenE (erase_timer (alive_node a))
          (if \<not> bootstrap \<and> isLocalNode then
             (if alive_incarnation a = Incarnation st then ret ()
              else refute e p (alive_incarnation a))
           else
             thenE (BroadcastNotify e (alive_node a) (genAliveBroadcast' a) notifyfd)
             (thenE (set_node p (\<lambda>s. s\<lparr>Incarnation := alive_incarnation a,
                N := (N s)\<lparr>NAddr := alive_addr a, NPort := ucast (alive_port a)\<rparr>\<rparr>))
             (if State st \<noteq> StateAlive then
                thenE (set_node p (\<lambda>s. s\<lparr>State := StateAlive\<rparr>))
                (bindE (now_us e) (\<lambda>now. set_node p (\<lambda>s. s\<lparr>StateChange := now\<rparr>)))
              else ret ()))))"

definition aliveNode :: "('w, 'e) env_scheme \<Rightarrow> Broadcast \<Rightarrow> bool \<Rightarrow> int \<Rightarrow> ('w, unit) mprog" where
  "aliveNode e b bootstrap notifyfd =
     (let a = bc_alive b
      in node_lock (bindE (obj id) (\<lambda>m.
           if leave m \<and> alive_node a = localName m then ret ()
           else
             bindE (alive_lookup e a) (\<lambda>found.
             case found of
               None \<Rightarrow> ret ()
             | Some (p, updateNode) \<Rightarrow> alive_apply e a bootstrap notifyfd p updateNode))))"

definition setAlive :: "('w, 'e) env_scheme \<Rightarrow> ('w, unit) mprog" where
  "setAlive e =
     bindE nextIncarnation (\<lambda>inc.
     bindE (obj config) (\<lambda>c.
     aliveNode e (genAliveBroadcast inc (Name c) (AdvertiseAddr c) (ucast (AdvertisePort c))) True (-1)))"

section \<open>Dead messages\<close>

definition mark_dead :: "('w, 'e) env_scheme \<Rightarrow> Dead \<Rightarrow> nat \<Rightarrow> ('w, unit) mprog" where
  "mark_dead e d p =
     bindE (obj id) (\<lambda>m.
     thenE (if NName (N (heap m p)) = localName m
            then BroadcastNotify e (dead_node d) (genDeadBroadcast' d) (snd (leaveFd m))
            else onlyBroadcast e (dead_node d) (genDeadBroadcast' d))
     (thenE (set_node p (\<lambda>s. s\<lparr>Incarnation := dead_incarnation d,
        State := (if dead_node d = dead_from d then StateLeft else StateDead)\<rparr>))
     (bindE (now_us e) (\<lambda>now. set_node p (\<lambda>s. s\<lparr>StateChange := now\<rparr>)))))"

definition dead_apply :: "('w, 'e) env_scheme \<Rightarrow> Dead \<Rightarrow> nat \<Rightarrow> ('w, unit) mprog" where
  "dead_apply e d p =
     bindE (obj id) (\<lambda>m.
     let st = heap m p
     in if dead_incarnation d < Incarnation st then ret ()
        else
          thenE (erase_timer (dead_node d))
          (if DeadOrLeft st then ret ()
           else if NName (N st) = localName m \<and> \<not> leave m then refute e p (dead_incarnation d)
           else mark_dead e d p))"

definition deadNode :: "('w, 'e) env_scheme \<Rightarrow> Broadcast \<Rightarrow> ('w, unit) mprog" where
  "deadNode e b =
     (let d = bc_dead b
      in node_lock (bindE (obj (\<lambda>m. nodeMap m (dead_node d))) (\<lambda>found.
           case found of None \<Rightarrow> ret () | Some p \<Rightarrow> dead_apply e d p)))"

section \<open>Suspect messages\<close>

text \<open>The callback of a suspicion: when it is still the same suspicion, the node is declared dead.\<close>

definition suspicion_callback :: "('w, 'e) env_scheme \<Rightarrow> suspicionTask \<Rightarrow> ('w, unit) mprog" where
  "suspicion_callback e f =
     bindE (node_lock (obj (\<lambda>m.
       case nodeMap m (st_node f) of
         None \<Rightarrow> None
       | Some p \<Rightarrow>
           let st = heap m p
           in if State st = StateSuspect \<and> StateChange st = st_now f
              then Some (genDeadBroadcast (Incarnation st) (NName (N st)) (localName m))
              else None))) (\<lambda>d.
     case d of None \<Rightarrow> ret () | Some b \<Rightarrow> deadNode e b)"

text \<open>A new suspicion of node \<open>p\<close>, with the timeouts computed from the size of the cluster.\<close>

definition start_suspicion :: "('w, 'e) env_scheme \<Rightarrow> Suspect \<Rightarrow> int \<Rightarrow> ('w, unit) mprog" where
  "start_suspicion e s now =
     bindE (obj id) (\<lambda>m.
     let c = config m;
         n = numNodes m;
         k = (if n - 2 < ucast (SuspicionMult c - 2) then 0 else SuspicionMult c - 2)
     in case suspicionTimeout e (ucast (SuspicionMult c)) n (ProbeInterval c) of
          Inl x \<Rightarrow> raise x
        | Inr mn \<Rightarrow>
            bindE (int64 (uint (SuspicionMaxTimeoutMult c) * mn)) (\<lambda>mx.
            bindE (new_suspicion e (self m) (nodeMutex m) (suspect_from s) k mn mx
                     \<lparr>st_node = suspect_node s, st_now = now\<rparr>) (\<lambda>sus.
            upd (\<lambda>m. m\<lparr>nodeTimers := AList.update (suspect_node s) sus (nodeTimers m)\<rparr>))))"

definition confirm_suspicion :: "('w, 'e) env_scheme \<Rightarrow> Suspect \<Rightarrow> suspicion \<Rightarrow> ('w, unit) mprog" where
  "confirm_suspicion e s sus =
     bindE (obj id) (\<lambda>m.
     bindE (on_object sus (Confirm e (self m) (nodeMutex m) (suspect_from s))) (\<lambda>((confirmed, fire), sus').
     thenE (upd (\<lambda>m. m\<lparr>nodeTimers := AList.update (suspect_node s) sus' (nodeTimers m)\<rparr>))
     (thenE (if fire then suspicion_callback e (sus_f sus') else ret ())
     (if confirmed then onlyBroadcast e (suspect_node s) (genSuspectBroadcast' s) else ret ()))))"

definition mark_suspect :: "('w, 'e) env_scheme \<Rightarrow> Suspect \<Rightarrow> nat \<Rightarrow> ('w, unit) mprog" where
  "mark_suspect e s p =
     thenE (onlyBroadcast e (suspect_node s) (genSuspectBroadcast' s))
     (thenE (set_node p (\<lambda>st. st\<lparr>Incarnation := suspect_incarnation s, State := StateSuspect\<rparr>))
     (bindE (now_us e) (\<lambda>now.
     thenE (set_node p (\<lambda>st. st\<lparr>StateChange := now\<rparr>))
     (start_suspicion e s now))))"

definition suspect_apply :: "('w, 'e) env_scheme \<Rightarrow> Suspect \<Rightarrow> nat \<Rightarrow> ('w, unit) mprog" where
  "suspect_apply e s p =
     bindE (obj id) (\<lambda>m.
     let st = heap m p
     in if suspect_incarnation s < Incarnation st then ret ()
        else case map_of (nodeTimers m) (suspect_node s) of
          Some sus \<Rightarrow> confirm_suspicion e s sus
        | None \<Rightarrow>
            if State st \<noteq> StateAlive then ret ()
            else if NName (N st) = localName m then refute e p (suspect_incarnation s)
            else mark_suspect e s p)"

definition suspectNode :: "('w, 'e) env_scheme \<Rightarrow> Broadcast \<Rightarrow> ('w, unit) mprog" where
  "suspectNode e b =
     (let s = bc_suspect b
      in node_lock (bindE (obj (\<lambda>m. nodeMap m (suspect_node s))) (\<lambda>found.
           case found of None \<Rightarrow> ret () | Some p \<Rightarrow> suspect_apply e s p)))"

section \<open>Merging the state of another node\<close>

definition mergeNodeState :: "('w, 'e) env_scheme \<Rightarrow> PushNodeState \<Rightarrow> ('w, unit) mprog" where
  "mergeNodeState e s =
     (if pns_state s = PushStateAlive then
        aliveNode e (genAliveBroadcast (pns_incarnation s) (pns_name s) (pns_addr s) (pns_port s)) False (-1)
      else if pns_state s = PushStateLeft then
        deadNode e (genDeadBroadcast (pns_incarnation s) (pns_name s) (pns_name s))
      else if pns_state s = PushStateDead \<or> pns_state s = PushStateSuspect then
        bindE (obj localName) (\<lambda>me. suspectNode e (genSuspectBroadcast (pns_incarnation s) (pns_name s) me))
      else ret ())"

definition mergeRemoteState :: "('w, 'e) env_scheme \<Rightarrow> PushPull \<Rightarrow> ('w, unit) mprog" where
  "mergeRemoteState e pp = forE (pp_states pp) (mergeNodeState e)"

end
