(* ===== verification/NodeTable.thy ===== *)
theory NodeTable
  imports Memberlist
begin

text \<open>
  What the operations on the node table guarantee: the table stays consistent, the local
  node stays alive until it leaves, and each message does what the protocol says on every
  branch, including the branches on which the program stops.
\<close>

section \<open>Rules for the building blocks\<close>

lemma wp_node_lock [wp_simps]:
  "wp (node_lock p) Q s =
     ((nodeMutex (fst s) \<longrightarrow> Q (Inl Deadlock) s) \<and>
      (\<not> nodeMutex (fst s) \<longrightarrow>
         wp p (\<lambda>r s'. (r = Inl Deadlock \<longrightarrow> Q r s') \<and>
           (r \<noteq> Inl Deadlock \<longrightarrow> Q r ((fst s')\<lparr>nodeMutex := False\<rparr>, snd s')))
         ((fst s)\<lparr>nodeMutex := True\<rparr>, snd s)))"
  by (auto simp: wp_def node_lock_def split: prod.split sum.split exn.split)

text \<open>Steps that touch only the queue and the timers.\<close>

definition quiet :: "memberlist \<Rightarrow> memberlist \<Rightarrow> bool" where
  "quiet m m' \<longleftrightarrow> (\<exists>q ts. m' = m\<lparr>nodeTimers := ts, TransmitLimitedQueue := q\<rparr>)"

lemma quiet_refl [simp]: "quiet m m"
  unfolding quiet_def by (intro exI [of _ "TransmitLimitedQueue m"] exI [of _ "nodeTimers m"]) simp

lemma quiet_queue [simp]: "quiet m (m\<lparr>TransmitLimitedQueue := q\<rparr>)"
  unfolding quiet_def by (intro exI [of _ q] exI [of _ "nodeTimers m"]) simp

lemma quiet_timers [simp]: "quiet m (m\<lparr>nodeTimers := ts\<rparr>)"
  unfolding quiet_def by (intro exI [of _ "TransmitLimitedQueue m"] exI [of _ ts]) simp

lemma quiet_both [simp]: "quiet m (m\<lparr>nodeTimers := ts, TransmitLimitedQueue := q\<rparr>)"
  unfolding quiet_def by blast

lemma quietD:
  assumes "quiet m m'"
  shows "nodes m' = nodes m" "nodeMap m' = nodeMap m" "heap m' = heap m" "heapNext m' = heapNext m"
    "numNodes m' = numNodes m" "config m' = config m" "leave m' = leave m" "incarnation m' = incarnation m"
    "nodeMutex m' = nodeMutex m" "self m' = self m" "leaveFd m' = leaveFd m"
  using assms by (auto simp: quiet_def)

lemma wp_BroadcastNotify:
  "(\<And>r m' w'. quiet m m' \<Longrightarrow> Q r (m', w')) \<Longrightarrow> wp (BroadcastNotify e n b fd) Q (m, w)"
  by (simp add: BroadcastNotify_def on_queue_def wp_simps)

lemma wp_onlyBroadcast:
  "(\<And>r m' w'. quiet m m' \<Longrightarrow> Q r (m', w')) \<Longrightarrow> wp (onlyBroadcast e n b) Q (m, w)"
  unfolding onlyBroadcast_def by (rule wp_BroadcastNotify)

lemma wp_erase_timer:
  "(\<And>r m' w'. quiet m m' \<Longrightarrow> Q r (m', w')) \<Longrightarrow> wp (erase_timer n) Q (m, w)"
  by (simp add: erase_timer_def wp_simps)

lemma wp_start_suspicion:
  "(\<And>r m' w'. quiet m m' \<Longrightarrow> Q r (m', w')) \<Longrightarrow> wp (start_suspicion e s now) Q (m, w)"
  by (auto simp: start_suspicion_def wp_simps Let_def intro!: wp_new_suspicion)

text \<open>Under the mutex, a confirmation that would fire the callback never returns.\<close>

lemma wp_confirm_suspicion:
  assumes "nodeMutex m" and "\<And>r m' w'. quiet m m' \<Longrightarrow> Q r (m', w')"
  shows "wp (confirm_suspicion e s sus) Q (m, w)"
proof -
  have "Q r (m', w')" if "quiet (m\<lparr>nodeTimers := ts\<rparr>) m'" for r m' w' ts
    using that by (intro assms(2)) (auto simp: quiet_def)
  with assms show ?thesis
    unfolding confirm_suspicion_def suspicion_callback_def
    by (simp add: wp_simps) (rule wpI, auto intro!: wp_onlyBroadcast)
qed

definition refuted :: "nat \<Rightarrow> uint32 \<Rightarrow> memberlist \<Rightarrow> memberlist" where
  "refuted p acc m =
     (let i = (if acc \<ge> incarnation m then acc + 1 else incarnation m)
      in m\<lparr>incarnation := i, heap := (heap m)(p := (heap m p)\<lparr>Incarnation := i\<rparr>)\<rparr>)"

lemma wp_refute:
  assumes "\<And>r m' w'. quiet (refuted p acc m) m' \<Longrightarrow> Q r (m', w')"
  shows "wp (refute e p acc) Q (m, w)"
  using assms
  by (auto simp: refute_def skipIncarnation_def set_node_def wp_simps refuted_def Let_def intro!: wp_onlyBroadcast)

section \<open>The node table\<close>

text \<open>
  The vector and the map hold the same objects, without duplicates, each under its own name;
  the objects exist, and the size estimate is the number of nodes (modulo its width).
\<close>

definition ml_inv :: "memberlist \<Rightarrow> bool" where
  "ml_inv m \<longleftrightarrow>
     distinct (nodes m) \<and> set (nodes m) = ran (nodeMap m) \<and>
     (\<forall>n p. nodeMap m n = Some p \<longrightarrow> NName (N (heap m p)) = n) \<and>
     (\<forall>p \<in> set (nodes m). 0 < p \<and> p < heapNext m) \<and> 0 < heapNext m \<and>
     numNodes m = of_nat (length (nodes m))"

lemma ml_invD:
  assumes "ml_inv m"
  shows ml_distinct: "distinct (nodes m)"
    and ml_mem: "nodeMap m n = Some p \<Longrightarrow> p \<in> set (nodes m)"
    and ml_name: "nodeMap m n = Some p \<Longrightarrow> NName (N (heap m p)) = n"
    and ml_mapped: "p \<in> set (nodes m) \<Longrightarrow> nodeMap m (NName (N (heap m p))) = Some p"
  using assms by (auto simp: ml_inv_def ran_def)

lemma ml_inj: "ml_inv m \<Longrightarrow> nodeMap m n = Some p \<Longrightarrow> nodeMap m n' = Some p \<Longrightarrow> n = n'"
  using ml_name by metis

lemma ml_inv_quiet: "quiet m m' \<Longrightarrow> ml_inv m' = ml_inv m"
  by (auto simp: quiet_def ml_inv_def)

lemma ml_inv_fields [simp]:
  "ml_inv (m\<lparr>nodeMutex := b\<rparr>) = ml_inv m" "ml_inv (m\<lparr>incarnation := i\<rparr>) = ml_inv m"
  "ml_inv (m\<lparr>sequenceNum := i\<rparr>) = ml_inv m" "ml_inv (m\<lparr>TransmitLimitedQueue := q\<rparr>) = ml_inv m"
  "ml_inv (m\<lparr>nodeTimers := ts\<rparr>) = ml_inv m" "ml_inv (m\<lparr>self := t\<rparr>) = ml_inv m"
  "ml_inv (m\<lparr>pushPullReq := r\<rparr>) = ml_inv m" "ml_inv (m\<lparr>leaveFd := l\<rparr>) = ml_inv m"
  "ml_inv (m\<lparr>shutdown := d\<rparr>) = ml_inv m" "ml_inv (m\<lparr>shutdownFd := f\<rparr>) = ml_inv m"
  "ml_inv (m\<lparr>tcpFd := x\<rparr>) = ml_inv m" "ml_inv (m\<lparr>udpFd := y\<rparr>) = ml_inv m"
  "ml_inv (m\<lparr>handoffFd := h\<rparr>) = ml_inv m" "ml_inv (m\<lparr>highPriorityMsgQueue := hs\<rparr>) = ml_inv m"
  "ml_inv (m\<lparr>lowPriorityMsgQueue := ls\<rparr>) = ml_inv m" "ml_inv (m\<lparr>scheduled := sc\<rparr>) = ml_inv m"
  "ml_inv (m\<lparr>schedule_timer := st\<rparr>) = ml_inv m" "ml_inv (m\<lparr>probeIndex := k\<rparr>) = ml_inv m"
  "ml_inv (m\<lparr>ackHandlers := ah\<rparr>) = ml_inv m" "ml_inv (m\<lparr>detached := dt\<rparr>) = ml_inv m"
  "ml_inv (m\<lparr>leave := lv\<rparr>) = ml_inv m"
  by (simp_all add: ml_inv_def)

lemma ml_inv_set_node:
  "(\<And>s. NName (N (f s)) = NName (N s)) \<Longrightarrow> ml_inv m \<Longrightarrow> ml_inv (m\<lparr>heap := (heap m)(p := f (heap m p))\<rparr>)"
  by (auto simp: ml_inv_def)

lemma ml_inv_refuted: "ml_inv m \<Longrightarrow> ml_inv (refuted p acc m)"
  by (auto simp: refuted_def ml_inv_def Let_def)


text \<open>The same as invariants.\<close>

lemma keeps_node_lock [keeps_intros]:
  assumes "keeps P m" and "\<And>c b. P (c\<lparr>nodeMutex := b\<rparr>) = P c"
  shows "keeps P (node_lock m)"
proof (rule keepsI)
  fix c w assume "P c"
  then have "wp m (\<lambda>r s'. P (fst s')) (c\<lparr>nodeMutex := True\<rparr>, w)"
    using keepsD [OF assms(1), of "(c\<lparr>nodeMutex := True\<rparr>, w)"] assms(2) by simp
  then have "wp m (\<lambda>r s'. (r = Inl Deadlock \<longrightarrow> P (fst s')) \<and>
      (r \<noteq> Inl Deadlock \<longrightarrow> P (fst ((fst s')\<lparr>nodeMutex := False\<rparr>, snd s')))) (c\<lparr>nodeMutex := True\<rparr>, w)"
    by (rule wp_mono) (simp add: assms(2))
  with \<open>P c\<close> show "wp (node_lock m) (\<lambda>r s'. P (fst s')) (c, w)"
    by (simp add: wp_node_lock)
qed

lemma keeps_quiet:
  assumes "\<And>c c'. quiet c c' \<Longrightarrow> P c' = P c"
  shows "keeps P (BroadcastNotify e n b fd)" "keeps P (onlyBroadcast e n b)" "keeps P (erase_timer n)"
    "keeps P (start_suspicion e s now)"
  using assms
  by (auto intro!: keepsI wp_BroadcastNotify wp_onlyBroadcast wp_erase_timer wp_start_suspicion)

lemmas ml_inv_blocks = keeps_quiet [of ml_inv, OF ml_inv_quiet]

lemma keeps_inv_refute [keeps_intros]: "keeps ml_inv (refute e p acc)"
  using ml_inv_refuted ml_inv_quiet by (auto intro!: keepsI wp_refute)

lemma keeps_inv_set_node [keeps_intros]:
  "(\<And>s. NName (N (f s)) = NName (N s)) \<Longrightarrow> keeps ml_inv (set_node p f)"
  unfolding set_node_def by (intro keeps_upd ml_inv_set_node)

lemma keeps_now [keeps_intros]: "keeps P (now_us e)"
  unfolding now_us_def by (rule keeps_atomic)

lemma keeps_int64 [keeps_intros]: "keeps P (int64 x)"
  unfolding int64_def by (intro keeps_if keeps_atomic)

lemma keeps_inv_deadNode: "keeps ml_inv (deadNode e b)"
  unfolding deadNode_def dead_apply_def mark_dead_def Let_def
  by (intro keeps_intros ml_inv_blocks) simp_all

lemma keeps_inv_callback: "keeps ml_inv (suspicion_callback e f)"
  unfolding suspicion_callback_def by (intro keeps_intros keeps_inv_deadNode) simp

lemma keeps_inv_confirm: "keeps ml_inv (confirm_suspicion e s sus)"
  unfolding confirm_suspicion_def case_prod_beta
  by (intro keeps_intros keeps_inv_callback ml_inv_blocks) simp

lemma keeps_inv_suspectNode: "keeps ml_inv (suspectNode e b)"
  unfolding suspectNode_def suspect_apply_def mark_suspect_def Let_def
  by (intro keeps_intros ml_inv_blocks keeps_inv_confirm) simp_all

text \<open>Inserting a new node.\<close>

lemma insert_at:
  assumes "k < length xs"
  shows "set ((xs @ [xs ! k])[k := x]) = insert x (set xs)"
    and "distinct xs \<Longrightarrow> x \<notin> set xs \<Longrightarrow> distinct ((xs @ [xs ! k])[k := x])"
    and "length ((xs @ [xs ! k])[k := x]) = Suc (length xs)"
proof -
  obtain ys z zs where xs: "xs = ys @ z # zs" "length ys = k"
    using assms id_take_nth_drop by (metis length_take min.absorb4)
  then have "(xs @ [xs ! k])[k := x] = ys @ x # zs @ [z]"
    by (simp add: nth_append list_update_append)
  then show "set ((xs @ [xs ! k])[k := x]) = insert x (set xs)"
    "distinct xs \<Longrightarrow> x \<notin> set xs \<Longrightarrow> distinct ((xs @ [xs ! k])[k := x])"
    "length ((xs @ [xs ! k])[k := x]) = Suc (length xs)"
    using xs by auto
qed

definition inserted :: "string \<Rightarrow> nodeState \<Rightarrow> nat list \<Rightarrow> memberlist \<Rightarrow> memberlist" where
  "inserted n st ns m = m\<lparr>heap := (heap m)(heapNext m := st), heapNext := Suc (heapNext m),
     nodeMap := (nodeMap m)(n \<mapsto> heapNext m), nodes := ns, numNodes := numNodes m + 1\<rparr>"

lemma wp_insert_random:
  assumes "\<And>ns w'. set ns = insert p (set (nodes m)) \<Longrightarrow> (distinct (nodes m) \<Longrightarrow> p \<notin> set (nodes m) \<Longrightarrow> distinct ns) \<Longrightarrow>
      length ns = Suc (length (nodes m)) \<Longrightarrow> Q (Inr ()) (m\<lparr>nodes := ns\<rparr>, w')"
  shows "wp (insert_random e p) Q (m, w)"
proof (cases "nodes m = []")
  case True
  with assms show ?thesis
    by (simp add: insert_random_def wp_simps)
next
  case False
  have "Q (Inr ()) (m\<lparr>nodes := (nodes m @ [nodes m ! (a mod length (nodes m))])[a mod length (nodes m) := p]\<rparr>, w')" for a w'
    using False insert_at [of "a mod length (nodes m)" "nodes m" p] by (intro assms) simp_all
  with False show ?thesis
    by (simp add: insert_random_def wp_simps Let_def)
qed

lemma ml_inv_inserted:
  assumes inv: "ml_inv m" and new: "nodeMap m n = None" and st: "NName (N st) = n"
    and ns: "set ns = insert (heapNext m) (set (nodes m))" "distinct ns" "length ns = Suc (length (nodes m))"
  shows "ml_inv (inserted n st ns m)"
proof -
  have fresh: "p \<noteq> heapNext m" if "nodeMap m k = Some p" for k p
    using ml_mem [OF inv that] inv by (auto simp: ml_inv_def)
  have "ran ((nodeMap m)(n \<mapsto> heapNext m)) = insert (heapNext m) (ran (nodeMap m))"
    using new by (simp add: ran_map_upd)
  then show ?thesis
    using inv st ns fresh by (auto simp: ml_inv_def inserted_def less_Suc_eq)
qed

lemma wp_alive_lookup:
  assumes inv: "ml_inv m"
    and new: "\<And>st ns w'. nodeMap m (alive_node a) = None \<Longrightarrow>
        N st = \<lparr>NName = alive_node a, NAddr = alive_addr a, NPort = ucast (alive_port a)\<rparr> \<Longrightarrow>
        Incarnation st = 0 \<Longrightarrow> State st = StateDead \<Longrightarrow> ml_inv (inserted (alive_node a) st ns m) \<Longrightarrow>
        Q (Inr (Some (heapNext m, False))) (inserted (alive_node a) st ns m, w')"
    and known: "\<And>p w'. nodeMap m (alive_node a) = Some p \<Longrightarrow> Q (Inr (Some (p, False))) (m, w')"
    and moved: "\<And>p w'. nodeMap m (alive_node a) = Some p \<Longrightarrow>
        alive_addr a \<noteq> NAddr (N (heap m p)) \<or> alive_port a \<noteq> ucast (NPort (N (heap m p))) \<Longrightarrow>
        DeadOrLeft (heap m p) \<Longrightarrow> Q (Inr (Some (p, True))) (m, w')"
    and conflict: "\<And>p w'. nodeMap m (alive_node a) = Some p \<Longrightarrow>
        alive_addr a \<noteq> NAddr (N (heap m p)) \<or> alive_port a \<noteq> ucast (NPort (N (heap m p))) \<Longrightarrow>
        State (heap m p) \<noteq> StateLeft \<Longrightarrow> Q (Inr None) (m, w')"
    and undef: "\<And>w'. Q (Inl Undefined) (m, w')"
  shows "wp (alive_lookup e a) Q (m, w)"
proof (cases "nodeMap m (alive_node a)")
  case None
  let ?n = "\<lparr>NName = alive_node a, NAddr = alive_addr a, NPort = ucast (alive_port a)\<rparr>"
  have fresh: "heapNext m \<notin> set (nodes m)"
    using inv by (auto simp: ml_inv_def)
  have "Q (Inr (Some (heapNext m, False))) (inserted (alive_node a) \<lparr>N = ?n, Incarnation = 0, State = StateDead, StateChange = g\<rparr> ns m, w')"
    if "set ns = insert (heapNext m) (set (nodes m))" "distinct ns" "length ns = Suc (length (nodes m))" for g ns w'
    using that by (intro new None ml_inv_inserted [OF inv None]) simp_all
  then show ?thesis
    using None fresh ml_distinct [OF inv]
    by (auto simp: alive_lookup_def new_nodeState_def new_object_def inserted_def wp_simps intro!: wp_insert_random)
next
  case (Some p)
  show ?thesis
    using Some undef known [OF Some] moved [OF Some] conflict [OF Some]
    by (auto simp: alive_lookup_def now_us_def wp_simps Let_def DeadOrLeft_def)
qed

lemma keeps_inv_alive_apply: "keeps ml_inv (alive_apply e a bs fd p u)"
  unfolding alive_apply_def Let_def by (intro keeps_intros ml_inv_blocks) simp_all

lemma keeps_inv_aliveNode: "keeps ml_inv (aliveNode e b bs fd)"
proof -
  have "keeps ml_inv (alive_lookup e a)" for a
    by (rule keepsI, rule wp_alive_lookup) simp_all
  then show ?thesis
    unfolding aliveNode_def Let_def
    by (intro keeps_intros keeps_inv_alive_apply) simp_all
qed


section \<open>The local node\<close>

text \<open>The local node is in the table, and until it leaves it is alive.\<close>

definition local_alive :: "memberlist \<Rightarrow> bool" where
  "local_alive m \<longleftrightarrow> (case nodeMap m (localName m) of None \<Rightarrow> False | Some p \<Rightarrow> State (heap m p) = StateAlive)"

lemma local_alive_iff:
  "local_alive m \<longleftrightarrow> (\<exists>p. nodeMap m (localName m) = Some p \<and> State (heap m p) = StateAlive)"
  by (simp add: local_alive_def split: option.split)

definition ml_ok :: "memberlist \<Rightarrow> bool" where
  "ml_ok m \<longleftrightarrow> ml_inv m \<and> nodeMap m (localName m) \<noteq> None \<and> (leave m \<or> local_alive m)"

lemma ml_ok_quiet: "quiet m m' \<Longrightarrow> ml_ok m' = ml_ok m"
  by (simp add: ml_ok_def ml_inv_quiet local_alive_iff quietD)

lemma ml_ok_fields [simp]:
  "ml_ok (m\<lparr>nodeMutex := b\<rparr>) = ml_ok m" "ml_ok (m\<lparr>incarnation := i\<rparr>) = ml_ok m"
  "ml_ok (m\<lparr>sequenceNum := j\<rparr>) = ml_ok m" "ml_ok (m\<lparr>TransmitLimitedQueue := q\<rparr>) = ml_ok m"
  "ml_ok (m\<lparr>nodeTimers := ts\<rparr>) = ml_ok m" "ml_ok (m\<lparr>self := t\<rparr>) = ml_ok m"
  "ml_ok (m\<lparr>pushPullReq := r\<rparr>) = ml_ok m" "ml_ok (m\<lparr>leaveFd := l\<rparr>) = ml_ok m"
  "ml_ok (m\<lparr>shutdown := d\<rparr>) = ml_ok m" "ml_ok (m\<lparr>shutdownFd := f\<rparr>) = ml_ok m"
  "ml_ok (m\<lparr>tcpFd := x\<rparr>) = ml_ok m" "ml_ok (m\<lparr>udpFd := y\<rparr>) = ml_ok m"
  "ml_ok (m\<lparr>handoffFd := h\<rparr>) = ml_ok m" "ml_ok (m\<lparr>highPriorityMsgQueue := hs\<rparr>) = ml_ok m"
  "ml_ok (m\<lparr>lowPriorityMsgQueue := ls\<rparr>) = ml_ok m" "ml_ok (m\<lparr>scheduled := sc\<rparr>) = ml_ok m"
  "ml_ok (m\<lparr>schedule_timer := st\<rparr>) = ml_ok m" "ml_ok (m\<lparr>probeIndex := k\<rparr>) = ml_ok m"
  "ml_ok (m\<lparr>ackHandlers := ah\<rparr>) = ml_ok m" "ml_ok (m\<lparr>detached := dt\<rparr>) = ml_ok m"
  by (simp_all add: ml_ok_def local_alive_iff)

lemmas ml_ok_blocks = keeps_quiet [of ml_ok, OF ml_ok_quiet]

lemma keeps_ok_set_node [keeps_intros]:
  assumes "\<And>s. NName (N (f s)) = NName (N s)" and "\<And>s. State s = StateAlive \<Longrightarrow> State (f s) = StateAlive"
  shows "keeps ml_ok (set_node p f)"
  unfolding set_node_def
  by (rule keeps_upd) (auto simp: ml_ok_def local_alive_iff assms ml_inv_set_node)

lemma ml_ok_refuted: "ml_ok m \<Longrightarrow> ml_ok (refuted p acc m)"
  using ml_inv_refuted by (auto simp: ml_ok_def local_alive_iff refuted_def Let_def)

lemma keeps_ok_refute [keeps_intros]: "keeps ml_ok (refute e p acc)"
  using ml_ok_refuted ml_ok_quiet by (auto intro!: keepsI wp_refute)

text \<open>A node that may be suspected or declared dead: another node, or ourselves when leaving.\<close>

definition markable :: "string \<Rightarrow> nat \<Rightarrow> memberlist \<Rightarrow> bool" where
  "markable n p m \<longleftrightarrow> ml_ok m \<and> nodeMap m n = Some p \<and> (n \<noteq> localName m \<or> leave m)"

lemma markable_quiet: "quiet m m' \<Longrightarrow> markable n p m' = markable n p m"
  by (simp add: markable_def ml_ok_quiet quietD)

lemmas markable_blocks = keeps_quiet [of "markable n p" for n p, OF markable_quiet]

lemma keeps_markable_set_node [keeps_intros]:
  assumes "\<And>s. NName (N (f s)) = NName (N s)"
  shows "keeps (markable n p) (set_node p f)"
  unfolding set_node_def
proof (rule keeps_upd)
  fix m assume m: "markable n p m"
  have "ml_inv (m\<lparr>heap := (heap m)(p := f (heap m p))\<rparr>)"
    using m assms by (intro ml_inv_set_node) (simp_all add: markable_def ml_ok_def)
  moreover have "q \<noteq> p" if "nodeMap m (localName m) = Some q" "n \<noteq> localName m" for q
    using m that ml_inj [of m n p "localName m"] by (auto simp: markable_def ml_ok_def)
  ultimately show "markable n p (m\<lparr>heap := (heap m)(p := f (heap m p))\<rparr>)"
    using m by (auto simp: markable_def ml_ok_def local_alive_iff)
qed

lemma markable_ok: "keeps (markable n p) m \<Longrightarrow> markable n p c \<Longrightarrow> wp m (\<lambda>r s'. ml_ok (fst s')) (c, w)"
  by (rule wp_mono [OF keepsD [of "markable n p"]]) (simp_all add: markable_def)

lemma keeps_markable_mark_dead: "keeps (markable n p) (mark_dead e d p)"
  unfolding mark_dead_def by (intro keeps_intros markable_blocks) simp_all

lemma keeps_markable_mark_suspect: "keeps (markable n p) (mark_suspect e s p)"
  unfolding mark_suspect_def by (intro keeps_intros markable_blocks) simp_all

lemma wp_ok_dead_apply:
  assumes ok: "ml_ok m" and p: "nodeMap m (dead_node d) = Some p"
  shows "wp (dead_apply e d p) (\<lambda>r s'. ml_ok (fst s')) (m, w)"
proof -
  have name: "NName (N (heap m p)) = dead_node d"
    using ml_name ok p by (simp add: ml_ok_def)
  have "wp (thenE (erase_timer (dead_node d)) (mark_dead e d p)) (\<lambda>r s'. ml_ok (fst s')) (m, w)"
    if "dead_node d \<noteq> localName m \<or> leave m"
    using that ok p by (intro markable_ok [of "dead_node d" p] keeps_intros markable_blocks
      keeps_markable_mark_dead) (simp_all add: markable_def)
  moreover have "wp (thenE (erase_timer (dead_node d)) (refute e p i)) (\<lambda>r s'. ml_ok (fst s')) (m, w)" for i
    using ok by (intro keepsD [of ml_ok] keeps_intros ml_ok_blocks) simp_all
  moreover have "wp (thenE (erase_timer (dead_node d)) (ret ())) (\<lambda>r s'. ml_ok (fst s')) (m, w)"
    using ok by (intro keepsD [of ml_ok] keeps_intros ml_ok_blocks) simp_all
  ultimately show ?thesis
    using ok name unfolding dead_apply_def Let_def wp_bindE wp_obj by (auto simp: wp_if wp_ret)
qed

lemma keeps_ok_deadNode: "keeps ml_ok (deadNode e b)"
  unfolding deadNode_def Let_def
  by (intro keeps_intros keeps_read) (auto simp: wp_ok_dead_apply wp_case_option wp_ret)

lemma keeps_ok_callback: "keeps ml_ok (suspicion_callback e f)"
  unfolding suspicion_callback_def by (intro keeps_intros keeps_ok_deadNode) simp

lemma keeps_ok_confirm: "keeps ml_ok (confirm_suspicion e s sus)"
  unfolding confirm_suspicion_def case_prod_beta
  by (intro keeps_intros keeps_ok_callback ml_ok_blocks) simp

lemma wp_ok_suspect_apply:
  assumes ok: "ml_ok m" and p: "nodeMap m (suspect_node s) = Some p"
  shows "wp (suspect_apply e s p) (\<lambda>r s'. ml_ok (fst s')) (m, w)"
proof -
  have name: "NName (N (heap m p)) = suspect_node s"
    using ml_name ok p by (simp add: ml_ok_def)
  have "wp (mark_suspect e s p) (\<lambda>r s'. ml_ok (fst s')) (m, w)" if "suspect_node s \<noteq> localName m"
    using that ok p by (intro markable_ok [of "suspect_node s" p] keeps_markable_mark_suspect)
      (simp_all add: markable_def)
  moreover have "wp (refute e p i) (\<lambda>r s'. ml_ok (fst s')) (m, w)" for i
    using ok by (intro keepsD [of ml_ok] keeps_intros) simp_all
  moreover have "wp (confirm_suspicion e s sus) (\<lambda>r s'. ml_ok (fst s')) (m, w)" for sus
    using ok by (intro keepsD [of ml_ok] keeps_ok_confirm) simp_all
  ultimately show ?thesis
    using ok name by (auto simp: suspect_apply_def Let_def wp_simps)
qed

lemma keeps_ok_suspectNode: "keeps ml_ok (suspectNode e b)"
  unfolding suspectNode_def Let_def
  by (intro keeps_intros keeps_read) (auto simp: wp_ok_suspect_apply wp_case_option wp_ret)

lemma keeps_ok_alive_apply: "keeps ml_ok (alive_apply e a bs fd p u)"
  unfolding alive_apply_def Let_def by (intro keeps_intros ml_ok_blocks) simp_all

lemma ml_ok_inserted:
  assumes "ml_ok m" and "nodeMap m n = None" and "ml_inv (inserted n st ns m)"
  shows "ml_ok (inserted n st ns m)"
proof -
  have "q \<noteq> heapNext m" if "nodeMap m k = Some q" for k q
    using ml_mem [of m, OF _ that] assms(1) by (auto simp: ml_ok_def ml_inv_def)
  with assms show ?thesis
    by (auto simp: ml_ok_def local_alive_iff inserted_def)
qed

lemma keeps_ok_aliveNode: "keeps ml_ok (aliveNode e b bs fd)"
proof -
  have "keeps ml_ok (alive_lookup e a)" for a
    by (rule keepsI, rule wp_alive_lookup) (simp_all add: ml_ok_inserted, simp_all add: ml_ok_def)
  then show ?thesis
    unfolding aliveNode_def Let_def
    by (intro keeps_intros keeps_ok_alive_apply) simp_all
qed


section \<open>What messages never touch\<close>

text \<open>The configuration, whether the node is leaving or shut down, and the hand-over stacks.\<close>

definition outer :: "memberlist \<Rightarrow> Config \<times> bool \<times> bool \<times> msgHandoff list \<times> msgHandoff list" where
  "outer m = (config m, leave m, shutdown m, highPriorityMsgQueue m, lowPriorityMsgQueue m)"

definition settled :: "(Config \<times> bool \<times> bool \<times> msgHandoff list \<times> msgHandoff list \<Rightarrow> bool) \<Rightarrow> memberlist \<Rightarrow> bool" where
  "settled P m \<longleftrightarrow> P (outer m)"

lemma outer_quiet: "quiet m m' \<Longrightarrow> outer m' = outer m"
  by (auto simp: outer_def quiet_def)

lemma settled_quiet: "quiet m m' \<Longrightarrow> settled P m' = settled P m"
  by (simp add: settled_def outer_quiet)

lemma outer_fields [simp]:
  "outer (m\<lparr>nodeMutex := b\<rparr>) = outer m" "outer (m\<lparr>heap := h\<rparr>) = outer m"
  "outer (m\<lparr>nodes := ns\<rparr>) = outer m" "outer (m\<lparr>nodeTimers := ts\<rparr>) = outer m"
  "outer (m\<lparr>nodeMap := nm\<rparr>) = outer m" "outer (m\<lparr>numNodes := k\<rparr>) = outer m"
  "outer (m\<lparr>heapNext := p\<rparr>) = outer m" "outer (m\<lparr>incarnation := i\<rparr>) = outer m"
  by (simp_all add: outer_def)

lemma settled_fields [simp]:
  "settled P (m\<lparr>nodeMutex := b\<rparr>) = settled P m" "settled P (m\<lparr>heap := h\<rparr>) = settled P m"
  "settled P (m\<lparr>nodes := ns\<rparr>) = settled P m" "settled P (m\<lparr>nodeTimers := ts\<rparr>) = settled P m"
  "settled P (m\<lparr>nodeMap := nm\<rparr>) = settled P m" "settled P (m\<lparr>numNodes := k\<rparr>) = settled P m"
  "settled P (m\<lparr>heapNext := p\<rparr>) = settled P m" "settled P (m\<lparr>incarnation := i\<rparr>) = settled P m"
  by (simp_all add: settled_def)

lemmas settled_blocks = keeps_quiet [of "settled P" for P, OF settled_quiet]

lemma keeps_settled_refute: "keeps (settled P) (refute e p acc)"
  by (auto intro!: keepsI wp_refute simp: settled_def outer_quiet) (simp add: refuted_def Let_def)

lemma keeps_settled_set_node: "keeps (settled P) (set_node p f)"
  unfolding set_node_def by (rule keeps_upd) (simp add: settled_def)

lemmas keeps_settled = keeps_intros settled_blocks keeps_settled_refute keeps_settled_set_node

lemma keeps_settled_dead: "keeps (settled P) (deadNode e b)"
  unfolding deadNode_def dead_apply_def mark_dead_def Let_def by (intro keeps_settled) simp_all

lemma keeps_settled_callback: "keeps (settled P) (suspicion_callback e f)"
  unfolding suspicion_callback_def by (intro keeps_settled keeps_settled_dead) simp

lemma keeps_settled_suspect: "keeps (settled P) (suspectNode e b)"
  unfolding suspectNode_def suspect_apply_def mark_suspect_def confirm_suspicion_def Let_def case_prod_beta
  by (intro keeps_settled keeps_settled_callback) simp_all

lemma keeps_settled_alive: "keeps (settled P) (aliveNode e b bs fd)"
  unfolding aliveNode_def alive_lookup_def alive_apply_def new_object_def insert_random_def Let_def
  by (intro keeps_settled) simp_all

section \<open>Handlers share a contract\<close>

text \<open>
  A handler of messages that keeps an invariant keeps it over any batch of messages. The
  invariants are those of the table, alone and with the local node.
\<close>

locale message_handler =
  fixes handle :: "'msg \<Rightarrow> ('w, unit) mprog"
  assumes keeps_table: "keeps ml_inv (handle b)"
    and keeps_local: "keeps ml_ok (handle b)"
    and keeps_settled: "keeps (settled P) (handle b)"
begin

lemma batch:
  "keeps ml_inv (forE bs handle)" "keeps ml_ok (forE bs handle)" "keeps (settled P) (forE bs handle)"
  by (intro keeps_forE keeps_table keeps_local keeps_settled)+

lemma local_stays:
  assumes "ml_inv m" "local_alive m" "\<not> leave m" "handle b (m, w) = (r, (m', w'))"
  shows "local_alive m' \<and> \<not> leave m'"
proof -
  have "settled (\<lambda>(_, l, _). \<not> l) m'"
    using assms(3) by (intro keeps_run [OF keeps_settled _ assms(4)]) (simp add: settled_def outer_def)
  moreover have "ml_ok m'"
    using assms(1,2) by (intro keeps_run [OF keeps_local _ assms(4)]) (auto simp: ml_ok_def local_alive_iff)
  ultimately show ?thesis by (simp add: settled_def outer_def ml_ok_def)
qed

lemma outcome: "ml_ok m \<Longrightarrow> handle b (m, w) = (r, (m', w')) \<Longrightarrow> ml_ok m'"
  by (rule keeps_run [OF keeps_local])

end

interpretation alive_msg: message_handler "\<lambda>b. aliveNode e b bs fd" for e bs fd
  by unfold_locales (rule keeps_inv_aliveNode keeps_ok_aliveNode keeps_settled_alive)+

interpretation suspect_msg: message_handler "suspectNode e" for e
  by unfold_locales (rule keeps_inv_suspectNode keeps_ok_suspectNode keeps_settled_suspect)+

interpretation dead_msg: message_handler "deadNode e" for e
  by unfold_locales (rule keeps_inv_deadNode keeps_ok_deadNode keeps_settled_dead)+

interpretation timeout_msg: message_handler "suspicion_callback e" for e
  by unfold_locales (rule keeps_inv_callback keeps_ok_callback keeps_settled_callback)+

lemmas handlers_keep = alive_msg.keeps_table suspect_msg.keeps_table dead_msg.keeps_table
  alive_msg.keeps_local suspect_msg.keeps_local dead_msg.keeps_local
  alive_msg.keeps_settled suspect_msg.keeps_settled dead_msg.keeps_settled

interpretation merged_state: message_handler "mergeNodeState e" for e
  by unfold_locales (auto simp: mergeNodeState_def intro!: keeps_intros handlers_keep)

lemma keeps_mergeRemoteState:
  "keeps ml_inv (mergeRemoteState e pp)" "keeps ml_ok (mergeRemoteState e pp)"
  unfolding mergeRemoteState_def by (rule merged_state.batch)+

text \<open>
  C28. Every handler of a membership message keeps the node table consistent, however it
  ends: the vector and the map hold the same distinct nodes, each under its own name, and
  the size estimate is their number.
\<close>

theorem handlers_keep_table:
  assumes "ml_inv m"
  shows "ml_inv (fst (snd (aliveNode e b bs fd (m, w)))) \<and> ml_inv (fst (snd (suspectNode e b (m, w)))) \<and>
     ml_inv (fst (snd (deadNode e b (m, w)))) \<and> ml_inv (fst (snd (mergeRemoteState e pp (m, w))))"
  using keeps_run [OF handlers_keep(1) assms] keeps_run [OF handlers_keep(2) assms]
    keeps_run [OF handlers_keep(3) assms] keeps_run [OF keeps_mergeRemoteState(1) assms]
  by (metis prod.collapse)

text \<open>
  C2. No message makes the local node suspect or dead: as long as the node is not leaving
  and its own entry is alive, it stays in the table and alive whatever arrives.
\<close>

theorem local_node_stays_alive:
  assumes "ml_inv m" and "local_alive m" and "\<not> leave m"
    and "h \<in> {aliveNode e b bs fd, suspectNode e b, deadNode e b, suspicion_callback e f, mergeNodeState e ns}"
    and "h (m, w) = (r, (m', w'))"
  shows "local_alive m' \<and> \<not> leave m'"
  using assms(4)
  by (elim insertE emptyE) (use assms(5) alive_msg.local_stays [OF assms(1-3)] suspect_msg.local_stays [OF assms(1-3)]
  dead_msg.local_stays [OF assms(1-3)] timeout_msg.local_stays [OF assms(1-3)]
  merged_state.local_stays [OF assms(1-3)] in simp_all)

section \<open>Refuting\<close>

text \<open>
  C29. Refuting an accusation gives the node an incarnation above the accused one, never
  below the counter it had, except that an accusation at the largest number wraps the
  counter, and with it the node's incarnation, to zero.
\<close>

theorem refute_outcome:
  "wp (refute e p acc) (\<lambda>r s'. Incarnation (heap (fst s') p) = incarnation (fst s') \<and>
     (if acc = UINT32_MAX then incarnation (fst s') = 0
      else acc < incarnation (fst s') \<and> incarnation m \<le> incarnation (fst s'))) (m, w)"
proof (rule wp_refute)
  fix r :: "exn + unit" and m' w'
  assume q: "quiet (refuted p acc m) m'"
  have succ: "acc < acc + 1" if "acc \<noteq> UINT32_MAX"
    using that by (rule word_less_plus_one)
  have top: "incarnation m \<le> UINT32_MAX"
    by (rule word_order.extremum)
  show "Incarnation (heap (fst (m', w')) p) = incarnation (fst (m', w')) \<and>
     (if acc = UINT32_MAX then incarnation (fst (m', w')) = 0
      else acc < incarnation (fst (m', w')) \<and> incarnation m \<le> incarnation (fst (m', w')))"
    using quietD(3,8) [OF q] succ top by (auto simp: refuted_def Let_def not_le)
qed


section \<open>Messages that change nothing\<close>

lemmas exec_defs = bindE_def thenE_def obj_def upd_def world_def call_def ret_def raise_def node_lock_def

text \<open>
  A suspect or dead message about an unknown node, or with an incarnation older than
  the one on record, changes nothing at all.
\<close>

lemma stale_messages_ignored:
  assumes "\<not> nodeMutex m"
    and "\<forall>p. nodeMap m n = Some p \<longrightarrow> inc < Incarnation (heap m p)"
  shows "suspectNode e (genSuspectBroadcast inc n from) (m, w) = (Inr (), (m, w)) \<and>
         deadNode e (genDeadBroadcast inc n from) (m, w) = (Inr (), (m, w))"
proof -
  have "m\<lparr>nodeMutex := False\<rparr> = m"
    using assms(1) by simp
  then show ?thesis
    using assms
    by (cases "nodeMap m n")
      (simp_all add: suspectNode_def deadNode_def suspect_apply_def dead_apply_def exec_defs Let_def)
qed

text \<open>
  An alive message for a known node that is neither dead nor gone, under another
  address, is dropped: the table keeps the node and its address.
\<close>

lemma address_conflict_dropped:
  assumes "\<not> nodeMutex m" and "nodeMap m n = Some p" and "\<not> DeadOrLeft (heap m p)"
    and "addr \<noteq> NAddr (N (heap m p)) \<or> port \<noteq> ucast (NPort (N (heap m p)))"
  shows "wp (aliveNode e (genAliveBroadcast inc n addr port) bs fd)
     (\<lambda>r s. fst s = m \<and> (r = Inr () \<or> r = Inl Undefined)) (m, w)"
proof -
  have "m\<lparr>nodeMutex := False\<rparr> = m"
    using assms(1) by simp
  then show ?thesis
    using assms
    by (auto simp: aliveNode_def alive_lookup_def now_us_def DeadOrLeft_def wp_simps Let_def)
qed


section \<open>What messages do\<close>

text \<open>
  With room in the queue, queueing makes the broadcast the pending one; it throws only when
  somebody is to be notified of what it replaces.
\<close>

definition silent :: "string \<Rightarrow> memberlist \<Rightarrow> bool" where
  "silent n m \<longleftrightarrow> (\<forall>b. bq_pending (TransmitLimitedQueue m) n = Some b \<longrightarrow> mb_notifyFd b = -1)"

lemma silent_fields [simp]:
  "silent n (m\<lparr>nodeMutex := b\<rparr>) = silent n m" "silent n (m\<lparr>nodeTimers := ts\<rparr>) = silent n m"
  "silent n (m\<lparr>heap := h\<rparr>) = silent n m" "silent n (m\<lparr>nodes := ns\<rparr>) = silent n m"
  "silent n (m\<lparr>nodeMap := nm\<rparr>) = silent n m" "silent n (m\<lparr>numNodes := k\<rparr>) = silent n m"
  "silent n (m\<lparr>heapNext := p\<rparr>) = silent n m" "silent n (m\<lparr>incarnation := i\<rparr>) = silent n m"
  "silent n (m\<lparr>leave := l\<rparr>) = silent n m"
  by (simp_all add: silent_def)

lemma wp_BroadcastNotify_room:
  assumes "0 < bq_room (TransmitLimitedQueue m)" and "silent n m"
    and "\<And>q w'. bq_pending q = (bq_pending (TransmitLimitedQueue m))(n \<mapsto> \<lparr>mb_node = n, mb_msg = b, mb_notifyFd = fd\<rparr>) \<Longrightarrow>
        bq_room (TransmitLimitedQueue m) \<le> Suc (bq_room q) \<Longrightarrow> Q (Inr ()) (m\<lparr>TransmitLimitedQueue := q\<rparr>, w')"
  shows "wp (BroadcastNotify e n b fd) Q (m, w)"
  unfolding BroadcastNotify_def on_queue_def wp_zoom
  by (rule wp_mono [OF bq.enqueue]) (use assms in \<open>auto simp: silent_def split: prod.splits\<close>)

lemma wp_BroadcastNotify_pending:
  assumes "0 < bq_room (TransmitLimitedQueue m)" and "silent n m"
    and "\<And>q w'. bq_pending q = (bq_pending (TransmitLimitedQueue m))(n \<mapsto> \<lparr>mb_node = n, mb_msg = b, mb_notifyFd = fd\<rparr>) \<Longrightarrow>
        Q (Inr ()) (m\<lparr>TransmitLimitedQueue := q\<rparr>, w')"
  shows "wp (BroadcastNotify e n b fd) Q (m, w)"
  using assms by (intro wp_BroadcastNotify_room)

text \<open>
  A fresh suspicion of node \<open>n\<close>, raised by \<open>from\<close> at time \<open>now\<close>, with its two timeouts; and
  the condition under which the timeouts can be computed.
\<close>

definition fresh_suspicion :: "string \<Rightarrow> string \<Rightarrow> int \<Rightarrow> int \<Rightarrow> int \<Rightarrow> suspicion \<Rightarrow> bool" where
  "fresh_suspicion n from now mn mx sus \<longleftrightarrow>
     sus_n sus = 0 \<and> sus_min sus = mn \<and> sus_max sus = mx \<and> sus_confirmations sus = {from} \<and> sus_f sus = \<lparr>st_node = n, st_now = now\<rparr> \<and>
     running (sus_t sus) \<and> task (sus_t sus) = Some \<lparr>st_node = n, st_now = now\<rparr> \<and>
     timeinterval (sus_t sus) = (if sus_k sus = 0 then sus_min sus else sus_max sus)"

definition timeouts :: "('w, 'e) env_scheme \<Rightarrow> memberlist \<Rightarrow> int \<Rightarrow> int \<Rightarrow> bool" where
  "timeouts e m mn mx \<longleftrightarrow>
     suspicionTimeout e (ucast (SuspicionMult (config m))) (numNodes m) (ProbeInterval (config m)) = Inr mn \<and>
     mx = uint (SuspicionMaxTimeoutMult (config m)) * mn \<and> INT64_MIN \<le> mx \<and> mx \<le> INT64_MAX"

lemma timeouts_fields [simp]:
  "timeouts e (m\<lparr>nodeMutex := b\<rparr>) mn mx = timeouts e m mn mx" "timeouts e (m\<lparr>heap := h\<rparr>) mn mx = timeouts e m mn mx"
  "timeouts e (m\<lparr>TransmitLimitedQueue := q\<rparr>) mn mx = timeouts e m mn mx"
  by (simp_all add: timeouts_def)

lemma ucast8_zero: "(ucast (k :: uint8) :: uint32) = 0 \<longleftrightarrow> k < 1"
proof -
  have "unat k < 256"
    using unsigned_less [of k, where ?'a = nat] by simp
  moreover have "(ucast k :: uint32) = of_nat (unat k)"
    by simp
  ultimately have "unat (ucast k :: uint32) = unat k"
    by (simp only: unat_of_nat) simp
  then show ?thesis
    by (metis unat_eq_zero word_less_1)
qed

lemma wp_start_suspicion_timer:
  assumes "timeouts e m mn mx"
    and "\<And>sus w'. fresh_suspicion (suspect_node s) (suspect_from s) now mn mx sus \<Longrightarrow>
      Q (Inr ()) (m\<lparr>nodeTimers := AList.update (suspect_node s) sus (nodeTimers m)\<rparr>, w')"
  shows "wp (start_suspicion e s now) Q (m, w)"
  using assms
  by (auto simp: start_suspicion_def timeouts_def wp_simps Let_def fresh_suspicion_def ucast8_zero
      intro!: wp_new_suspicion)

lemma suspectNode_run:
  assumes "\<not> nodeMutex m" and "0 < bq_room (TransmitLimitedQueue m)"
    and "nodeMap m n = Some p" and "NName (N (heap m p)) \<noteq> localName m"
    and "Incarnation (heap m p) \<le> inc" and "State (heap m p) = StateAlive"
    and "map_of (nodeTimers m) n = None" and "silent n m" and "timeouts e m mn mx"
  shows "wp (suspectNode e (genSuspectBroadcast inc n from))
     (\<lambda>r s. r = Inr () \<and> (\<exists>now sus.
        heap (fst s) = (heap m)(p := (heap m p)\<lparr>Incarnation := inc, State := StateSuspect, StateChange := now\<rparr>) \<and>
        nodes (fst s) = nodes m \<and> nodeMap (fst s) = nodeMap m \<and>
        map_of (nodeTimers (fst s)) n = Some sus \<and> fresh_suspicion n from now mn mx sus \<and>
        bq_pending (TransmitLimitedQueue (fst s)) n =
          Some \<lparr>mb_node = n, mb_msg = genSuspectBroadcast inc n from, mb_notifyFd = -1\<rparr>)) (m, w)"
proof -
  have g: "genSuspectBroadcast' (getSuspect inc n from) = genSuspectBroadcast inc n from"
    by (simp add: gen_broadcast_defs getSuspect_def)
  show ?thesis
    using assms
    by (auto simp: suspectNode_def suspect_apply_def mark_suspect_def onlyBroadcast_def set_node_def now_us_def
        wp_simps Let_def g update_conv' fun_upd_twist
        intro!: wp_BroadcastNotify_pending wp_start_suspicion_timer)
qed

text \<open>
  C11. A suspect message about another node that is alive, not older than what is
  known, marks exactly that node suspect with the message's incarnation, starts a suspicion
  timer for it with timeouts scaled to the size of the cluster, and queues the message for
  gossip.
\<close>

theorem suspectNode_marks:
  assumes "\<not> nodeMutex m" and "0 < bq_room (TransmitLimitedQueue m)"
    and "nodeMap m n = Some p" and "NName (N (heap m p)) \<noteq> localName m"
    and "Incarnation (heap m p) \<le> inc" and "State (heap m p) = StateAlive"
    and "map_of (nodeTimers m) n = None" and "silent n m" and "timeouts e m mn mx"
  shows "wp (suspectNode e (genSuspectBroadcast inc n from))
     (\<lambda>r s. r = Inr () \<and> (\<exists>now sus.
        heap (fst s) = (heap m)(p := (heap m p)\<lparr>Incarnation := inc, State := StateSuspect, StateChange := now\<rparr>) \<and>
        nodes (fst s) = nodes m \<and> nodeMap (fst s) = nodeMap m \<and>
        map_of (nodeTimers (fst s)) n = Some sus \<and> fresh_suspicion n from now mn mx sus \<and>
        bq_pending (TransmitLimitedQueue (fst s)) n =
          Some \<lparr>mb_node = n, mb_msg = genSuspectBroadcast inc n from, mb_notifyFd = -1\<rparr>)) (m, w)"
  using assms by (rule suspectNode_run)

lemma ucast_port: "ucast (ucast (p :: uint16) :: uint32) = p"
  by (rule bit_word_eqI) (auto simp: bit_simps)

text \<open>Erasing a timer, from another thread that is not waiting for the mutex, removes it.\<close>

definition erasable :: "string \<Rightarrow> memberlist \<Rightarrow> bool" where
  "erasable n m \<longleftrightarrow> (\<forall>sus. map_of (nodeTimers m) n = Some sus \<longrightarrow> can_join (self m) True (t_thread (sus_t sus)))"

lemma erasable_fields [simp]:
  "erasable n (m\<lparr>nodeMutex := b\<rparr>) = erasable n m" "erasable n (m\<lparr>leave := l\<rparr>) = erasable n m"
  by (simp_all add: erasable_def)

lemma can_join_weaken: "can_join me True t \<Longrightarrow> can_join me h t"
  by (auto simp: can_join_def join_thread_def split: option.splits if_splits)

lemma wp_erase_timer_gone:
  assumes "erasable n m" and "\<And>w'. Q (Inr ()) (m\<lparr>nodeTimers := AList.delete n (nodeTimers m)\<rparr>, w')"
  shows "wp (erase_timer n) Q (m, w)"
proof (cases "map_of (nodeTimers m) n")
  case None
  then have "AList.delete n (nodeTimers m) = nodeTimers m"
    by (simp add: map_of_eq_None_iff)
  then have "m\<lparr>nodeTimers := AList.delete n (nodeTimers m)\<rparr> = m"
    by simp
  with None assms(2) show ?thesis
    by (simp add: erase_timer_def wp_simps)
next
  case (Some sus)
  with assms(1) have "can_join (self m) (nodeMutex m) (t_thread (sus_t sus))"
    by (auto simp: erasable_def intro: can_join_weaken)
  with Some assms(2) show ?thesis
    by (simp add: erase_timer_def suspicion_destroy_def sus_timer_def onceTimer_destroy_def wp_simps can_join_def)
qed

lemma deadNode_run:
  assumes "\<not> nodeMutex m" and "0 < bq_room (TransmitLimitedQueue m)"
    and "nodeMap m n = Some p" and "NName (N (heap m p)) \<noteq> localName m"
    and "Incarnation (heap m p) \<le> inc" and "\<not> DeadOrLeft (heap m p)" and "silent n m" and "erasable n m"
  shows "wp (deadNode e (genDeadBroadcast inc n from))
     (\<lambda>r s. r = Inr () \<and> (\<exists>now.
        heap (fst s) = (heap m)(p := (heap m p)\<lparr>Incarnation := inc,
          State := (if n = from then StateLeft else StateDead), StateChange := now\<rparr>) \<and>
        nodes (fst s) = nodes m \<and> nodeMap (fst s) = nodeMap m \<and>
        map_of (nodeTimers (fst s)) n = None \<and>
        bq_pending (TransmitLimitedQueue (fst s)) n =
          Some \<lparr>mb_node = n, mb_msg = genDeadBroadcast inc n from, mb_notifyFd = -1\<rparr>)) (m, w)"
proof -
  have g: "genDeadBroadcast' (getDead inc n from) = genDeadBroadcast inc n from"
    by (simp add: gen_broadcast_defs getDead_def)
  show ?thesis
    using assms
    by (auto simp: deadNode_def dead_apply_def mark_dead_def onlyBroadcast_def set_node_def now_us_def
        wp_simps Let_def g delete_conv'
        intro!: wp_BroadcastNotify_pending wp_erase_timer_gone)
qed

text \<open>
  C12. A dead message about another node that is not older than what is known and finds
  it alive or suspect marks exactly that node, left when the node itself sent it and dead
  otherwise, ends its suspicion and queues the message for gossip, provided the suspicion's
  thread can be joined.
\<close>

theorem deadNode_marks:
  assumes "\<not> nodeMutex m" and "0 < bq_room (TransmitLimitedQueue m)"
    and "nodeMap m n = Some p" and "NName (N (heap m p)) \<noteq> localName m"
    and "Incarnation (heap m p) \<le> inc" and "\<not> DeadOrLeft (heap m p)" and "silent n m" and "erasable n m"
  shows "wp (deadNode e (genDeadBroadcast inc n from))
     (\<lambda>r s. r = Inr () \<and> (\<exists>now.
        heap (fst s) = (heap m)(p := (heap m p)\<lparr>Incarnation := inc,
          State := (if n = from then StateLeft else StateDead), StateChange := now\<rparr>) \<and>
        nodes (fst s) = nodes m \<and> nodeMap (fst s) = nodeMap m \<and>
        map_of (nodeTimers (fst s)) n = None \<and>
        bq_pending (TransmitLimitedQueue (fst s)) n =
          Some \<lparr>mb_node = n, mb_msg = genDeadBroadcast inc n from, mb_notifyFd = -1\<rparr>)) (m, w)"
  using assms by (rule deadNode_run)

lemma accusation_answered:
  assumes "\<not> nodeMutex m" and "0 < bq_room (TransmitLimitedQueue m)" and "\<not> leave m"
    and "nodeMap m (localName m) = Some p" and "NName (N (heap m p)) = localName m"
    and "State (heap m p) = StateAlive" and "Incarnation (heap m p) \<le> inc" and "inc \<noteq> UINT32_MAX"
    and "map_of (nodeTimers m) (localName m) = None" and "silent (localName m) m"
    and "b = genSuspectBroadcast inc (localName m) from \<and> h = suspectNode e b \<or>
         b = genDeadBroadcast inc (localName m) from \<and> h = deadNode e b"
  shows "wp h (\<lambda>r s. r = Inr () \<and> State (heap (fst s) p) = StateAlive \<and> inc < Incarnation (heap (fst s) p) \<and>
     bq_pending (TransmitLimitedQueue (fst s)) (localName m) =
       Some \<lparr>mb_node = localName m, mb_msg = genAliveBroadcast (Incarnation (heap (fst s) p)) (localName m)
               (NAddr (N (heap m p))) (ucast (NPort (N (heap m p)))), mb_notifyFd = -1\<rparr>) (m, w)"
proof -
  have succ: "inc < inc + 1"
    using assms(8) by (rule word_less_plus_one)
  have nl: "\<not> inc < Incarnation (heap m p)"
    using assms(7) by (rule leD)
  have suspect: "wp (suspectNode e (genSuspectBroadcast inc (localName m) from)) Q (m, w)"
    if "wp (refute e p inc) (\<lambda>r s'. (r = Inl Deadlock \<longrightarrow> Q r s') \<and>
      (r \<noteq> Inl Deadlock \<longrightarrow> Q r ((fst s')\<lparr>nodeMutex := False\<rparr>, snd s'))) (m\<lparr>nodeMutex := True\<rparr>, w)" for Q
    using assms(1-10) nl that by (simp add: suspectNode_def suspect_apply_def wp_simps Let_def)
  have dead: "wp (deadNode e (genDeadBroadcast inc (localName m) from)) Q (m, w)"
    if "wp (refute e p inc) (\<lambda>r s'. (r = Inl Deadlock \<longrightarrow> Q r s') \<and>
      (r \<noteq> Inl Deadlock \<longrightarrow> Q r ((fst s')\<lparr>nodeMutex := False\<rparr>, snd s'))) (m\<lparr>nodeMutex := True\<rparr>, w)" for Q
    using assms(1-10) nl that
    by (simp add: deadNode_def dead_apply_def DeadOrLeft_def erase_timer_def wp_simps Let_def)
  have answer: "wp (refute e p inc) (\<lambda>r s'. (r = Inl Deadlock \<longrightarrow> Q r s') \<and>
      (r \<noteq> Inl Deadlock \<longrightarrow> Q r ((fst s')\<lparr>nodeMutex := False\<rparr>, snd s'))) (m\<lparr>nodeMutex := True\<rparr>, w)"
    if "Q = (\<lambda>r s. r = Inr () \<and> State (heap (fst s) p) = StateAlive \<and> inc < Incarnation (heap (fst s) p) \<and>
     bq_pending (TransmitLimitedQueue (fst s)) (localName m) =
       Some \<lparr>mb_node = localName m, mb_msg = genAliveBroadcast (Incarnation (heap (fst s) p)) (localName m)
               (NAddr (N (heap m p))) (ucast (NPort (N (heap m p)))), mb_notifyFd = -1\<rparr>)" for Q
    using assms(1-10) succ unfolding that
    by (auto simp: refute_def skipIncarnation_def onlyBroadcast_def set_node_def wp_simps not_le
        intro!: wp_BroadcastNotify_pending)
  show ?thesis
    using assms(11) suspect [OF answer [OF refl]] dead [OF answer [OF refl]] by blast
qed


text \<open>A node never heard of is added, and its alive message passed on.\<close>

lemma aliveNode_added:
  assumes "\<not> nodeMutex m" and "0 < bq_room (TransmitLimitedQueue m)" and "ml_inv m"
    and "nodeMap m n = None" and "n \<noteq> localName m" and "0 < inc" and "map_of (nodeTimers m) n = None"
    and "silent n m"
  shows "wp (aliveNode e (genAliveBroadcast inc n addr port) False (-1))
     (\<lambda>r s. r = Inr () \<and> (\<exists>p now. p \<notin> set (nodes m) \<and> set (nodes (fst s)) = insert p (set (nodes m)) \<and>
        nodeMap (fst s) = (nodeMap m)(n \<mapsto> p) \<and> numNodes (fst s) = numNodes m + 1 \<and>
        heap (fst s) = (heap m)(p := \<lparr>N = \<lparr>NName = n, NAddr = addr, NPort = ucast port\<rparr>, Incarnation = inc,
          State = StateAlive, StateChange = now\<rparr>) \<and>
        \<not> nodeMutex (fst s) \<and> nodeTimers (fst s) = nodeTimers m \<and> incarnation (fst s) = incarnation m \<and>
        bq_pending (TransmitLimitedQueue (fst s)) = (bq_pending (TransmitLimitedQueue m))
          (n \<mapsto> \<lparr>mb_node = n, mb_msg = genAliveBroadcast inc n addr port, mb_notifyFd = -1\<rparr>) \<and>
        bq_room (TransmitLimitedQueue m) \<le> Suc (bq_room (TransmitLimitedQueue (fst s))))) (m, w)"
proof -
  have fresh: "heapNext m \<notin> set (nodes m)"
    using assms(3) by (auto simp: ml_inv_def)
  have g: "genAliveBroadcast' (getAlive inc n addr port) = genAliveBroadcast inc n addr port"
    by (simp add: gen_broadcast_defs getAlive_def)
  have nl: "\<not> inc \<le> 0"
    using assms(6) by simp
  show ?thesis
    using assms fresh nl
    apply (simp add: aliveNode_def alive_lookup_def new_nodeState_def new_object_def wp_simps)
    apply (intro allI impI wp_insert_random)
    apply (simp add: alive_apply_def erase_timer_def set_node_def now_us_def wp_simps Let_def g)
    apply (intro impI wp_BroadcastNotify_room)
      apply simp_all
    apply blast
    done
qed

text \<open>
  C14. An alive message with a positive incarnation about a node never heard of adds
  exactly that node, alive, under the address of the message, queues the message, and leaves
  the other nodes as they were.
\<close>

theorem aliveNode_adds:
  assumes "\<not> nodeMutex m" and "0 < bq_room (TransmitLimitedQueue m)" and "ml_inv m"
    and "nodeMap m n = None" and "n \<noteq> localName m" and "0 < inc" and "map_of (nodeTimers m) n = None"
    and "silent n m"
  shows "wp (aliveNode e (genAliveBroadcast inc n addr port) False (-1))
     (\<lambda>r s. r = Inr () \<and> (\<exists>p now. p \<notin> set (nodes m) \<and> set (nodes (fst s)) = insert p (set (nodes m)) \<and>
        nodeMap (fst s) = (nodeMap m)(n \<mapsto> p) \<and> numNodes (fst s) = numNodes m + 1 \<and>
        heap (fst s) = (heap m)(p := \<lparr>N = \<lparr>NName = n, NAddr = addr, NPort = ucast port\<rparr>, Incarnation = inc,
          State = StateAlive, StateChange = now\<rparr>) \<and>
        bq_pending (TransmitLimitedQueue (fst s)) n =
          Some \<lparr>mb_node = n, mb_msg = genAliveBroadcast inc n addr port, mb_notifyFd = -1\<rparr>)) (m, w)"
  by (rule wp_mono [OF aliveNode_added [OF assms]]) auto

section \<open>The suspicion timeout\<close>

text \<open>
  When a suspicion times out, the callback does nothing unless the node is still suspect since
  the very moment the suspicion was raised: a refuted, removed or newer suspicion is left alone.
\<close>

lemma outdated_timeout_ignored:
  assumes "\<not> nodeMutex m"
    and "\<forall>p. nodeMap m (st_node f) = Some p \<longrightarrow>
       State (heap m p) \<noteq> StateSuspect \<or> StateChange (heap m p) \<noteq> st_now f"
  shows "suspicion_callback e f (m, w) = (Inr (), (m, w))"
proof -
  have "m\<lparr>nodeMutex := False\<rparr> = m"
    using assms(1) by simp
  then show ?thesis
    using assms by (cases "nodeMap m (st_node f)") (auto simp: suspicion_callback_def exec_defs Let_def)
qed

text \<open>
  When a suspicion is still current, its callback, running on the suspicion's own timer thread,
  reaches \<^verbatim>\<open>deadNode\<close>, which erases the suspicion and so joins that thread from itself: the program
  terminates before the node is marked dead.
\<close>

definition same_table :: "memberlist \<Rightarrow> memberlist \<Rightarrow> bool" where
  "same_table m m' \<longleftrightarrow> heap m' = heap m \<and> nodes m' = nodes m \<and> nodeMap m' = nodeMap m \<and> numNodes m' = numNodes m \<and>
     TransmitLimitedQueue m' = TransmitLimitedQueue m"

lemma current_timeout_terminates:
  assumes "\<not> nodeMutex m" and "ml_inv m" and "nodeMap m (st_node f) = Some p"
    and "State (heap m p) = StateSuspect" and "StateChange (heap m p) = st_now f"
    and "map_of (nodeTimers m) (st_node f) = Some sus"
    and "t_thread (sus_t sus) = Some th" and "th_id th = self m"
  shows "wp (suspicion_callback e f) (\<lambda>r s. r = Inl Terminated \<and> same_table m (fst s)) (m, w)"
proof -
  have "NName (N (heap m p)) = st_node f"
    using assms(2,3) by (rule ml_name)
  then show ?thesis
    using assms
    by (simp add: suspicion_callback_def deadNode_def dead_apply_def erase_timer_def suspicion_destroy_def
        sus_timer_def onceTimer_destroy_def join_thread_def wp_simps Let_def same_table_def)
qed

text \<open>
  C31. A confirmation that comes so late that no time remains makes
  \<^verbatim>\<open>suspectNode\<close> call the timeout callback itself while it holds \<^verbatim>\<open>nodeMutex\<close>: the callback waits
  for the mutex and the call never returns.
\<close>

theorem late_confirmation_deadlocks:
  assumes "\<not> nodeMutex m" and "nodeMap m n = Some p" and "Incarnation (heap m p) \<le> inc"
    and "map_of (nodeTimers m) n = Some sus" and "sus_n sus \<le> sus_k sus" and "from \<notin> sus_confirmations sus"
    and "running (sus_t sus)"
    and "suspicion_timeout e (sus_n sus + 1) (sus_k sus) (sus_min sus) (sus_max sus) = Inr t"
    and "0 \<le> t" and "t \<le> 2 ^ 62" and "0 \<le> sus_start sus"
    and "fst (sys_now e w) < 2 ^ 62" and "sus_start sus + t \<le> fst (sys_now e w)"
  shows "fst (suspectNode e (genSuspectBroadcast inc n from) (m, w)) = Inl Deadlock"
proof -
  obtain now w' where now: "sys_now e w = (now, w')"
    by (cases "sys_now e w")
  have nl: "\<not> inc < Incarnation (heap m p)" "\<not> sus_k sus < sus_n sus"
    using assms(3,5) by (simp_all add: leD)
  have r: "INT64_MIN \<le> now - sus_start sus" "now - sus_start sus \<le> INT64_MAX"
    "INT64_MIN \<le> t - (now - sus_start sus)" "t - (now - sus_start sus) \<le> INT64_MAX"
    "\<not> 0 < t - (now - sus_start sus)"
    using assms(9-13) now by simp_all
  have "wp (suspectNode e (genSuspectBroadcast inc n from)) (\<lambda>r s. r = Inl Deadlock) (m, w)"
    using assms(1,2,4,6,7,8) nl r now
    by (simp add: suspectNode_def suspect_apply_def confirm_suspicion_def suspicion_callback_def Confirm_def
        remainingSuspicionTime_def sus_timer_def wp_simps Let_def)
  then show ?thesis
    by (simp add: wp_def split: prod.splits)
qed


section \<open>A concrete member list\<close>

text \<open>Node \<^verbatim>\<open>a\<close>, ourselves, with the settings of \<^verbatim>\<open>DefaultLocalConfig\<close>, knows node \<^verbatim>\<open>b\<close>.\<close>

definition sample_config :: Config where
  "sample_config = \<lparr>Name = ''a'', BindAddr = ''0.0.0.0'', BindPort = DEFAULT_PORT, AdvertiseAddr = ''127.0.0.1'',
     AdvertisePort = DEFAULT_PORT, TCPTimeout = 1000000, IndirectChecks = 1, cfg_RetransmitMult = 2,
     SuspicionMult = 3, SuspicionMaxTimeoutMult = 6, PushPullInterval = 15000000, ProbeInterval = 1000000,
     ProbeTimeout = 200000, AllowTcpPing = True, GossipInterval = 100000, GossipNodes = 3,
     GossipToTheDeadTime = 15000000, HandoffQueueDepth = 1024, UDPBufferSize = 1400,
     DeadNodeReclaimTime = 10000000\<rparr>"

definition sample_node :: "string \<Rightarrow> NodeStateType \<Rightarrow> nodeState" where
  "sample_node n st =
     \<lparr>N = \<lparr>NName = n, NAddr = ''127.0.0.1'', NPort = 6666\<rparr>, Incarnation = 1, State = st, StateChange = 0\<rparr>"

definition sample_list :: "NodeStateType \<Rightarrow> memberlist" where
  "sample_list st = (memberlist0 sample_config)\<lparr>incarnation := 1, numNodes := 2, nodes := [1, 2],
     nodeMap := [''a'' \<mapsto> 1, ''b'' \<mapsto> 2], heapNext := 3,
     heap := (\<lambda>p. if p = 1 then sample_node ''a'' StateAlive else sample_node ''b'' st)\<rparr>"

definition suspected_list :: memberlist where
  "suspected_list = (sample_list StateSuspect)\<lparr>nodeTimers := [(''b'', sample_suspicion)], self := 5\<rparr>"

lemmas sample_defs = sample_list_def memberlist0_def sample_config_def sample_node_def

lemma sample_map: "nodeMap (sample_list st) = [''a'' \<mapsto> 1, ''b'' \<mapsto> 2]"
  by (simp add: sample_list_def)

lemma sample_inv: "ml_inv (sample_list st)"
  by (auto simp: ml_inv_def sample_defs)

lemma sample_local: "local_alive (sample_list st)" "\<not> leave (sample_list st)" "\<not> nodeMutex (sample_list st)"
  by (simp_all add: local_alive_iff sample_defs)

lemma sample_ok: "ml_ok (sample_list st)"
  by (simp add: ml_ok_def sample_inv sample_local) (simp add: sample_defs)

lemma sample_room: "0 < bq_room (TransmitLimitedQueue (sample_list st))"
  by (simp add: bq_room_def sample_defs bq_inv_new) (simp add: new_broadcastQueue_def)

lemma sample_silent: "silent n (sample_list st)"
  by (simp add: silent_def sample_defs bq_pending_def new_broadcastQueue_def)

lemma sample_timeouts: "timeouts ref_env (sample_list st) 3000000 18000000"
  using suspicionTimeout_eq [OF ref_ieee, of 1000000 3 2]
  by (simp add: timeouts_def sample_defs)

lemma sample_fields:
  "heap (sample_list st) (Suc 0) = sample_node ''a'' StateAlive" "heap (sample_list st) 2 = sample_node ''b'' st"
  "localName (sample_list st) = ''a''" "nodeTimers (sample_list st) = []"
  by (simp_all add: sample_defs)

theorem handlers_keep_table_witness:
  "ml_inv (fst (snd (aliveNode ref_env (genAliveBroadcast 3 ''c'' ''127.0.0.1'' 7) False (-1) (sample_list StateAlive, world0)))) \<and>
   ml_inv (fst (snd (suspectNode ref_env (genAliveBroadcast 3 ''c'' ''127.0.0.1'' 7) (sample_list StateAlive, world0)))) \<and>
   ml_inv (fst (snd (deadNode ref_env (genAliveBroadcast 3 ''c'' ''127.0.0.1'' 7) (sample_list StateAlive, world0)))) \<and>
   ml_inv (fst (snd (mergeRemoteState ref_env PushPull0 (sample_list StateAlive, world0))))"
  by (rule handlers_keep_table [OF sample_inv])

theorem local_node_stays_alive_witness:
  "local_alive (fst (snd (deadNode ref_env (genDeadBroadcast 9 ''a'' ''b'') (sample_list StateAlive, world0)))) \<and>
   \<not> leave (fst (snd (deadNode ref_env (genDeadBroadcast 9 ''a'' ''b'') (sample_list StateAlive, world0))))"
proof (rule local_node_stays_alive [OF sample_inv sample_local(1,2)])
  let ?h = "deadNode ref_env (genDeadBroadcast 9 ''a'' ''b'')"
  show "?h \<in> {aliveNode ref_env b bs fd, suspectNode ref_env b, ?h, suspicion_callback ref_env f, mergeNodeState ref_env ns}"
    for b bs fd f ns by simp
  show "?h (sample_list StateAlive, world0) = (fst (?h (sample_list StateAlive, world0)),
     (fst (snd (?h (sample_list StateAlive, world0))), snd (snd (?h (sample_list StateAlive, world0)))))"
    by simp
qed

theorem suspectNode_marks_witness:
  "wp (suspectNode ref_env (genSuspectBroadcast 1 ''b'' ''c''))
     (\<lambda>r s. r = Inr () \<and> (\<exists>now sus.
        heap (fst s) = (heap (sample_list StateAlive))(2 := (heap (sample_list StateAlive) 2)
          \<lparr>Incarnation := 1, State := StateSuspect, StateChange := now\<rparr>) \<and>
        nodes (fst s) = nodes (sample_list StateAlive) \<and> nodeMap (fst s) = nodeMap (sample_list StateAlive) \<and>
        map_of (nodeTimers (fst s)) ''b'' = Some sus \<and> fresh_suspicion ''b'' ''c'' now 3000000 18000000 sus \<and>
        bq_pending (TransmitLimitedQueue (fst s)) ''b'' =
          Some \<lparr>mb_node = ''b'', mb_msg = genSuspectBroadcast 1 ''b'' ''c'', mb_notifyFd = -1\<rparr>))
     (sample_list StateAlive, world0)"
  by (rule suspectNode_marks)
    (simp_all add: sample_local sample_room sample_map sample_fields sample_silent sample_timeouts,
      simp_all add: sample_node_def)

theorem deadNode_marks_witness:
  "wp (deadNode ref_env (genDeadBroadcast 1 ''b'' ''c''))
     (\<lambda>r s. r = Inr () \<and> (\<exists>now.
        heap (fst s) = (heap (sample_list StateSuspect))(2 := (heap (sample_list StateSuspect) 2)\<lparr>Incarnation := 1,
          State := (if ''b'' = ''c'' then StateLeft else StateDead), StateChange := now\<rparr>) \<and>
        nodes (fst s) = nodes (sample_list StateSuspect) \<and> nodeMap (fst s) = nodeMap (sample_list StateSuspect) \<and>
        map_of (nodeTimers (fst s)) ''b'' = None \<and>
        bq_pending (TransmitLimitedQueue (fst s)) ''b'' =
          Some \<lparr>mb_node = ''b'', mb_msg = genDeadBroadcast 1 ''b'' ''c'', mb_notifyFd = -1\<rparr>))
     (sample_list StateSuspect, world0)"
  by (rule deadNode_marks)
    (simp_all add: sample_local sample_room sample_map sample_fields sample_silent,
      simp_all add: sample_node_def DeadOrLeft_def erasable_def sample_fields)


theorem aliveNode_adds_witness:
  "wp (aliveNode ref_env (genAliveBroadcast 3 ''c'' ''127.0.0.1'' 7) False (-1))
     (\<lambda>r s. r = Inr () \<and> (\<exists>p now. p \<notin> set (nodes (sample_list StateAlive)) \<and>
        set (nodes (fst s)) = insert p (set (nodes (sample_list StateAlive))) \<and>
        nodeMap (fst s) = (nodeMap (sample_list StateAlive))(''c'' \<mapsto> p) \<and>
        numNodes (fst s) = numNodes (sample_list StateAlive) + 1 \<and>
        heap (fst s) = (heap (sample_list StateAlive))(p :=
          \<lparr>N = \<lparr>NName = ''c'', NAddr = ''127.0.0.1'', NPort = ucast (7 :: uint32)\<rparr>, Incarnation = 3,
          State = StateAlive, StateChange = now\<rparr>) \<and>
        bq_pending (TransmitLimitedQueue (fst s)) ''c'' =
          Some \<lparr>mb_node = ''c'', mb_msg = genAliveBroadcast 3 ''c'' ''127.0.0.1'' 7, mb_notifyFd = -1\<rparr>))
     (sample_list StateAlive, world0)"
  by (rule aliveNode_adds [OF sample_local(3) sample_room sample_inv]) (simp_all add: sample_map sample_fields sample_silent)

lemma suspected_inv: "ml_inv suspected_list"
  by (simp add: suspected_list_def sample_inv)

definition confirmed_list :: memberlist where
  "confirmed_list = (sample_list StateSuspect)\<lparr>nodeTimers := [(''b'', sample_suspicion\<lparr>sus_n := 1\<rparr>)]\<rparr>"

lemma sample_timeout: "suspicion_timeout ref_env 2 2 1000000 6000000 = Inr 1000000"
  using suspicion_timeout_eq [OF ref_ieee, of 2 2 1000000 6000000] trunc_real_of_int [of 1000000] by simp

theorem late_confirmation_deadlocks_witness:
  "fst (suspectNode ref_env (genSuspectBroadcast 1 ''b'' ''d'') (confirmed_list, world0)) = Inl Deadlock"
  by (rule late_confirmation_deadlocks [where p = 2 and sus = "sample_suspicion\<lparr>sus_n := 1\<rparr>" and t = 1000000])
    (simp_all add: confirmed_list_def sample_suspicion_def sample_local sample_map sample_fields sample_node_def
      sample_timeout, simp_all add: ref_env_def world0_def)

end
