(* ===== verification/Protocol.thy ===== *)
theory Protocol
  imports NodeTable
begin

text \<open>
  The protocol around the node table: probing (\<^verbatim>\<open>probe\<close>, \<^verbatim>\<open>probeNode\<close> and the acknowledgement
  handlers), gossip, the exchange of whole states, and the handlers of incoming messages,
  from \<^verbatim>\<open>memberlist/state.cpp\<close> and \<^verbatim>\<open>memberlist/handlemsg.cpp\<close>. A listener that runs forever
  is given by one round of its loop; detached threads are recorded with what they captured
  and run as programs of their own. Log lines are left out, except that one about a connection
  asks the system for the peer's address; so is everything under \<^verbatim>\<open>DEBUG\<close>, which only logs.
\<close>

section \<open>Exchanging states\<close>

definition local_state :: "bool \<Rightarrow> memberlist \<Rightarrow> MessageData" where
  "local_state join m =
     foldl (\<lambda>md st. addPushNodeState md (NName (N st)) (NAddr (N st)) (ucast (NPort (N st)))
        (Incarnation st) (state_number (State st)))
       (genPushPull join) (map (heap m) (nodes m))"

definition sendLocalState :: "('w, 'e) env_scheme \<Rightarrow> int \<Rightarrow> bool \<Rightarrow> ('w, unit) mprog" where
  "sendLocalState e fd join =
     bindE (node_lock (obj (local_state join))) (\<lambda>pushpull. world (encodeSendTCP e fd pushpull))"

text \<open>A stream socket, connected within a timeout and with that timeout for its transfers.\<close>

definition set_transfer_timeouts :: "('w, 'e) env_scheme \<Rightarrow> int \<Rightarrow> int \<Rightarrow> ('w, unit) prog" where
  "set_transfer_timeouts e fd us =
     bindE (timeval_usec e us) (\<lambda>t. bindE (call (sys_set_timeouts e fd t)) (\<lambda>_. ret ()))"

definition sendAndReceiveState :: "('w, 'e) env_scheme \<Rightarrow> sockaddr_in \<Rightarrow> bool \<Rightarrow> ('w, MessageData) mprog" where
  "sendAndReceiveState e remote_addr join =
     bindE (obj (TCPTimeout \<circ> config)) (\<lambda>tcpTimeout.
     bindE (world (Socket e AF_INET SOCK_STREAM 0)) (\<lambda>fd.
     thenE (world (ConnectTimeout e fd remote_addr (word_of_int tcpTimeout)))
     (thenE (world (set_transfer_timeouts e fd tcpTimeout))
     (thenE (sendLocalState e fd join)
     (bindE (world (decodeReceiveTCP e fd)) (\<lambda>pushpull.
     thenE (world (Close e fd))
     (if md_head pushpull = errMsg then ret MessageData0
      else if md_head pushpull \<noteq> pushPullMsg then ret MessageData0
      else ret pushpull)))))))"

definition pushPullNode :: "('w, 'e) env_scheme \<Rightarrow> sockaddr_in \<Rightarrow> bool \<Rightarrow> ('w, unit) mprog" where
  "pushPullNode e remote_addr join =
     bindE (sendAndReceiveState e remote_addr join) (\<lambda>md.
     if md_head md = pushPullMsg then mergeRemoteState e (md_pushpull md) else ret ())"

text \<open>\<^verbatim>\<open>kRandomNodes\<close> over the table, under the mutex.\<close>

definition random_members ::
  "('w, 'e) env_scheme \<Rightarrow> uint8 \<Rightarrow> (nodeState \<Rightarrow> ('w, bool) prog) \<Rightarrow> ('w, nodeState list) mprog" where
  "random_members e k exclude =
     node_lock (bindE (obj (\<lambda>m. map (heap m) (nodes m))) (\<lambda>ns. world (kRandomNodes e k ns exclude)))"

text \<open>The exclusion of \<^verbatim>\<open>pushPull\<close> and of the indirect probe: ourselves and nodes not alive.\<close>

definition not_other_alive :: "string \<Rightarrow> nodeState \<Rightarrow> bool" where
  "not_other_alive me n = (NName (N n) = me \<or> State n \<noteq> StateAlive)"

definition pushPull :: "('w, 'e) env_scheme \<Rightarrow> ('w, unit) mprog" where
  "pushPull e =
     bindE (obj localName) (\<lambda>me.
     bindE (random_members e 1 (\<lambda>n. ret (not_other_alive me n))) (\<lambda>v.
     case v of
       [] \<Rightarrow> ret ()
     | n # _ \<Rightarrow>
         catchWrap (bindE (world (FullAddr e (N n))) (\<lambda>a. pushPullNode e a False)) (\<lambda>_. ret ())))"

section \<open>Gossip\<close>

text \<open>Ourselves and nodes that left are excluded, dead ones once they have been dead for long.\<close>

definition gossip_exclude :: "('w, 'e) env_scheme \<Rightarrow> Config \<Rightarrow> nodeState \<Rightarrow> ('w, bool) prog" where
  "gossip_exclude e c n =
     (if NName (N n) = Name c then ret True
      else case State n of
        StateAlive \<Rightarrow> ret False
      | StateSuspect \<Rightarrow> ret False
      | StateDead \<Rightarrow>
          bindE (call (sys_now e)) (\<lambda>ts.
          bindE (int64 (ts - StateChange n)) (\<lambda>d. ret (d \<ge> GossipToTheDeadTime c)))
      | StateLeft \<Rightarrow> ret True)"

fun gossip_loop :: "nodeState list \<Rightarrow> ('w, 'e) env_scheme \<Rightarrow> ('w, unit) mprog" where
  "gossip_loop [] e = ret ()"
| "gossip_loop (n # ns) e =
     bindE (obj (\<lambda>m. ucast (UDPBufferSize (config m)))) (\<lambda>bytesAvail.
     bindE (getBroadcasts e MessageDataOverhead bytesAvail ComBroadcast0) (\<lambda>(haveMsg, cbc).
     if \<not> haveMsg then ret ()
     else
       bindE (world (FullAddr e (N n))) (\<lambda>remote_addr.
       bindE (obj udpFd) (\<lambda>fd.
       thenE (world (encodeSendUDP e fd remote_addr (genComMsg cbc))) (gossip_loop ns e)))))"

definition gossip :: "('w, 'e) env_scheme \<Rightarrow> ('w, unit) mprog" where
  "gossip e =
     bindE (obj config) (\<lambda>c.
     bindE (random_members e (GossipNodes c) (gossip_exclude e c)) (\<lambda>v. gossip_loop v e))"

section \<open>Acknowledgement handlers\<close>

definition ackHandler_destroy :: "nat \<Rightarrow> bool \<Rightarrow> ackHandler \<Rightarrow> ('w, unit) mprog" where
  "ackHandler_destroy me holdsMutex ah = bindE (on_object (ah_t ah) (onceTimer_destroy me holdsMutex)) (\<lambda>_. ret ())"

text \<open>\<^verbatim>\<open>ackHandlers[seqNo] = h\<close> releases a handler that was there; \<^verbatim>\<open>erase\<close> releases the one it finds.\<close>

definition release_handler :: "uint32 \<Rightarrow> ('w, unit) mprog" where
  "release_handler seqNo =
     bindE (obj id) (\<lambda>m.
     case map_of (ackHandlers m) seqNo of
       None \<Rightarrow> ret ()
     | Some ah \<Rightarrow>
         thenE (upd (\<lambda>m. m\<lparr>ackHandlers := AList.delete seqNo (ackHandlers m)\<rparr>))
         (ackHandler_destroy (self m) (nodeMutex m) ah))"

definition put_handler :: "uint32 \<Rightarrow> ackHandler \<Rightarrow> ('w, unit) mprog" where
  "put_handler seqNo ah =
     thenE (release_handler seqNo)
     (upd (\<lambda>m. m\<lparr>ackHandlers := AList.update seqNo ah (ackHandlers m)\<rparr>))"

definition setProbePipes :: "('w, 'e) env_scheme \<Rightarrow> uint32 \<Rightarrow> int \<Rightarrow> int \<Rightarrow> uint32 \<Rightarrow> ('w, unit) mprog" where
  "setProbePipes e seqNo ackPipe nackPipe probeInterval =
     (let t = new_timer (uint probeInterval) (Some (AckTimeout ackPipe)) False;
          ah = new_ackHandler (AckToPipe ackPipe) (Some (NackToPipe nackPipe)) t
      in thenE (put_handler seqNo ah)
        (bindE (obj id) (\<lambda>m.
        bindE (on_object (ah_t ah) (onceTimer_Run e (self m) (nodeMutex m))) (\<lambda>(_, t').
        upd (\<lambda>m. m\<lparr>ackHandlers := AList.update seqNo (ah\<lparr>ah_t := t'\<rparr>) (ackHandlers m)\<rparr>)))))"

definition setAckHandler :: "uint32 \<Rightarrow> ackFn \<Rightarrow> int \<Rightarrow> ('w, unit) mprog" where
  "setAckHandler seqNo f timeout = put_handler seqNo (new_ackHandler f None (new_timer timeout None False))"

text \<open>The task of a probe's timer: report that no acknowledgement came.\<close>

definition ack_timeout :: "('w, 'e) env_scheme \<Rightarrow> ackTask \<Rightarrow> ('w, unit) mprog" where
  "ack_timeout e t =
     (case t of AckTimeout ackPipe \<Rightarrow>
        bindE (now_us e) (\<lambda>now.
        world (Write_ack e ackPipe \<lparr>Complete = False, Timestamp = now\<rparr>)))"

definition run_ackFn :: "('w, 'e) env_scheme \<Rightarrow> ackFn \<Rightarrow> int \<Rightarrow> ('w, unit) mprog" where
  "run_ackFn e f timestamp =
     (case f of
        AckToPipe ackPipe \<Rightarrow>
          world (Write_ack e ackPipe \<lparr>Complete = True, Timestamp = timestamp\<rparr>)
      | RelayAck cancelFd remote_addr seqno \<Rightarrow>
          thenE (world (Close e cancelFd))
          (bindE (obj udpFd) (\<lambda>fd. world (encodeSendUDP e fd remote_addr (genAckResp seqno)))))"

definition run_nackFn :: "('w, 'e) env_scheme \<Rightarrow> nackFn \<Rightarrow> ('w, unit) mprog" where
  "run_nackFn e f =
     (case f of NackToPipe nackPipe \<Rightarrow> bindE (world (Write e nackPipe [CHR 0x00])) (\<lambda>_. ret ()))"

section \<open>Probing\<close>

definition clearProbePipes ::
  "('w, 'e) env_scheme \<Rightarrow> int \<times> int \<Rightarrow> int \<times> int \<Rightarrow> (int \<times> int) option \<Rightarrow> ('w, unit) prog" where
  "clearProbePipes e ackPipe nackPipe fallbackPipe =
     thenE (case fallbackPipe of
              None \<Rightarrow> ret ()
            | Some fb \<Rightarrow> thenE (Close e (fst fb)) (thenE (Close e (snd fb)) (ret ())))
     (thenE (Close e (fst ackPipe))
     (thenE (Close e (snd ackPipe))
     (thenE (Close e (fst nackPipe))
     (thenE (Close e (snd nackPipe)) (ret ())))))"

definition sendPingAndWaitForAck ::
  "('w, 'e) env_scheme \<Rightarrow> sockaddr_in \<Rightarrow> MessageData \<Rightarrow> int \<Rightarrow> ('w, bool) mprog" where
  "sendPingAndWaitForAck e a ping deadline =
     bindE (world (Socket e AF_INET SOCK_STREAM 0)) (\<lambda>fd.
     bindE (now_us e) (\<lambda>now.
     if deadline - now \<le> 0 then ret False
     else
       thenE (world (ConnectTimeout e fd a (word_of_int (deadline - now))))
       (bindE (now_us e) (\<lambda>now.
       if deadline - now < 0 then ret False
       else
         thenE (world (set_transfer_timeouts e fd (deadline - now)))
         (thenE (world (encodeSendTCP e fd ping))
         (bindE (world (decodeReceiveTCP e fd)) (\<lambda>resp.
         if md_head resp \<noteq> ackRespMsg then
           bindE (world (LogCoon e fd)) (\<lambda>_. thenE (world (Close e fd)) (ret False))
         else if ack_seqno (md_ackresp resp) \<noteq> ping_seqno (md_ping ping) then thenE (world (Close e fd)) (ret False)
         else thenE (world (Close e fd)) (ret True))))))))"

text \<open>
  The direct probe: send the ping (and, to a suspect, the suspicion) and wait for the
  acknowledgement; a timeout message is put back into the pipe. Gives whether it was answered.
\<close>

definition direct_probe ::
  "('w, 'e) env_scheme \<Rightarrow> nodeState \<Rightarrow> MessageData \<Rightarrow> sockaddr_in \<Rightarrow> int \<times> int \<Rightarrow> ('w, bool) mprog" where
  "direct_probe e node ping addr ackfd =
     bindE (obj id) (\<lambda>m.
     thenE (world (encodeSendUDP e (udpFd m) addr ping))
     (thenE (if State node = StateAlive then ret ()
             else world (encodeSendUDP e (udpFd m) addr
               (genSuspectMsg (Incarnation node) (NName (N node)) (localName m))))
     (bindE (world (timeval_usec e (ProbeTimeout (config m)))) (\<lambda>probetimeout.
     bindE (world (Select e (fst ackfd + 1) \<lparr>readfds = [fst ackfd], writefds = []\<rparr> (Some probetimeout))) (\<lambda>(_, rset).
     if fst ackfd \<in> set (readfds rset) then
       bindE (world (Read_object e (fst ackfd) 16)) (\<lambda>ackmsg.
       if ackMessage_complete ackmsg then ret True
       else bindE (world (Write e (snd ackfd) ackmsg)) (\<lambda>_. ret False))
     else ret False)))))"

text \<open>The indirect probe: ask other members to ping the node, and start a ping over TCP.\<close>

definition indirect_probe ::
  "('w, 'e) env_scheme \<Rightarrow> nodeState \<Rightarrow> uint32 \<Rightarrow> MessageData \<Rightarrow> int \<Rightarrow> ('w, int \<times> int) mprog" where
  "indirect_probe e node seqno ping deadline =
     bindE (obj id) (\<lambda>m.
     let c = config m
     in bindE (random_members e (IndirectChecks c) (\<lambda>n. ret (not_other_alive (Name c) n))) (\<lambda>kNodes.
        thenE (forE kNodes (\<lambda>k.
          bindE (world (FullAddr e (N k))) (\<lambda>addr.
          world (encodeSendUDP e (udpFd m) addr
            (genIndirectPing seqno (NName (N node)) (NAddr (N node)) (ucast (NPort (N node))) True
              (AdvertiseAddr c) (ucast (AdvertisePort c)) (Name c))))))
        (bindE (world (Pipe e)) (\<lambda>fallbackfd.
        thenE (if AllowTcpPing c
               then upd (\<lambda>m. m\<lparr>detached := detached m @ [TcpPing (snd fallbackfd) (N node) ping deadline]\<rparr>)
               else ret ())
        (ret fallbackfd)))))"

definition probeNode :: "('w, 'e) env_scheme \<Rightarrow> nodeState \<Rightarrow> ('w, unit) mprog" where
  "probeNode e node =
     bindE nextSeqNum (\<lambda>seqno.
     bindE (obj config) (\<lambda>c.
     let ping = genPing seqno (NName (N node)) (AdvertiseAddr c) (ucast (AdvertisePort c)) (Name c)
     in bindE (world (Pipe e)) (\<lambda>ackfd.
        bindE (world (Pipe2 e O_DIRECT)) (\<lambda>nackfd.
        thenE (setProbePipes e seqno (snd ackfd) (snd nackfd) (word_of_int (ProbeInterval c)))
        (bindE (world (FullAddr e (N node))) (\<lambda>addr.
        bindE (now_us e) (\<lambda>sendtime.
        bindE (int64 (sendtime + ProbeInterval c)) (\<lambda>deadline.
        bindE (direct_probe e node ping addr ackfd) (\<lambda>answered.
        if answered then world (clearProbePipes e ackfd nackfd None)
        else
          bindE (indirect_probe e node seqno ping deadline) (\<lambda>fallbackfd.
          bindE (world (Read_object e (fst ackfd) 16)) (\<lambda>ackmsg.
          if ackMessage_complete ackmsg then world (clearProbePipes e ackfd nackfd (Some fallbackfd))
          else
            bindE (world (Read_object e (fst fallbackfd) 1)) (\<lambda>didConnect.
            if AllowTcpPing c \<and> ackMessage_complete didConnect
            then world (clearProbePipes e ackfd nackfd (Some fallbackfd))
            else
              thenE (release_handler seqno)
              (thenE (world (clearProbePipes e ackfd nackfd (Some fallbackfd)))
              (suspectNode e (genSuspectBroadcast (Incarnation node) (NName (N node)) (Name c))))))))))))))))"

text \<open>
  \<^verbatim>\<open>probe\<close>: from the current index on, wrapping around with a shuffle, the first node that is
  neither ourselves nor dead is probed. Every \<^verbatim>\<open>goto START\<close> counts a check, and there are no
  more checks than nodes, so one round more than there are nodes suffices.
\<close>

datatype probeStep = ProbeStop | ProbeWrap | ProbeAt nodeState

definition probe_step :: "('w, 'e) env_scheme \<Rightarrow> nat \<Rightarrow> ('w, probeStep) mprog" where
  "probe_step e numCheck =
     node_lock (bindE (obj id) (\<lambda>m.
       if numCheck \<ge> length (nodes m) then ret ProbeStop
       else if probeIndex m \<ge> length (nodes m) then
         bindE (world (random_shuffle e (nodes m))) (\<lambda>ns.
         thenE (upd (\<lambda>m. m\<lparr>nodes := ns\<rparr>)) (ret ProbeWrap))
       else ret (ProbeAt (heap m (nodes m ! probeIndex m)))))"

fun probe_loop :: "nat \<Rightarrow> ('w, 'e) env_scheme \<Rightarrow> nat \<Rightarrow> ('w, unit) mprog" where
  "probe_loop 0 e numCheck = raise OutOfFuel"
| "probe_loop (Suc fuel) e numCheck =
     bindE (probe_step e numCheck) (\<lambda>step.
     case step of
       ProbeStop \<Rightarrow> ret ()
     | ProbeWrap \<Rightarrow> thenE (upd (\<lambda>m. m\<lparr>probeIndex := 0\<rparr>)) (probe_loop fuel e (Suc numCheck))
     | ProbeAt node \<Rightarrow>
         bindE (obj localName) (\<lambda>me.
         thenE (upd (\<lambda>m. m\<lparr>probeIndex := Suc (probeIndex m)\<rparr>))
         (if NName (N node) = me \<or> DeadOrLeft node then probe_loop fuel e (Suc numCheck)
          else probeNode e node)))"

definition probe :: "('w, 'e) env_scheme \<Rightarrow> ('w, unit) mprog" where
  "probe e = bindE (obj nodes) (\<lambda>ns. probe_loop (Suc (length ns)) e 0)"

section \<open>Incoming packets\<close>

definition handlePing_udp :: "('w, 'e) env_scheme \<Rightarrow> Ping \<Rightarrow> sockaddr_in \<Rightarrow> ('w, unit) mprog" where
  "handlePing_udp e ping remote_addr =
     bindE (obj udpFd) (\<lambda>fd. world (encodeSendUDP e fd remote_addr (genAckResp (ping_seqno ping))))"

text \<open>The target port of an indirect ping is used without conversion to network byte order.\<close>

definition handleIndirectPing :: "('w, 'e) env_scheme \<Rightarrow> IndirectPing \<Rightarrow> sockaddr_in \<Rightarrow> ('w, unit) mprog" where
  "handleIndirectPing e ip remote_addr =
     bindE nextSeqNum (\<lambda>localSeqNo.
     bindE (obj id) (\<lambda>m.
     let c = config m;
         ping = genPing localSeqNo (iping_node ip) (AdvertiseAddr c) (ucast (AdvertisePort c)) (Name c)
     in bindE (world (Pipe e)) (\<lambda>cancelFd.
        thenE (setAckHandler localSeqNo (RelayAck (snd cancelFd) remote_addr (iping_seqno ip)) (ProbeTimeout c))
        (bindE (case inet_pton4 e (c_str (iping_targetaddr ip)) of
                  Some a \<Rightarrow> ret a
                | None \<Rightarrow> thenE (world (modify (sys_set_errno e 1))) (ret 0)) (\<lambda>a.
        thenE (world (encodeSendUDP e (udpFd m)
          \<lparr>sin_family = AF_INET, sin_port = ucast (iping_targetport ip), sin_addr = a\<rparr> ping))
        (if iping_nack ip
         then upd (\<lambda>m. m\<lparr>detached := detached m @
           [NackWaiter (fst cancelFd) (snd cancelFd) remote_addr (iping_seqno ip) localSeqNo]\<rparr>)
         else ret ()))))))"

text \<open>The handler is taken out of the map, stopped and called; its last owner destroys it.\<close>

definition handleAck :: "('w, 'e) env_scheme \<Rightarrow> AckResp \<Rightarrow> int \<Rightarrow> ('w, unit) mprog" where
  "handleAck e ack ts =
     bindE (obj id) (\<lambda>m.
     case map_of (ackHandlers m) (ack_seqno ack) of
       None \<Rightarrow> ret ()
     | Some ah \<Rightarrow>
         thenE (upd (\<lambda>m. m\<lparr>ackHandlers := AList.delete (ack_seqno ack) (ackHandlers m)\<rparr>))
         (bindE (on_object (ah_t ah) onceTimer_Stop) (\<lambda>(_, t).
         finallyE (run_ackFn e (ah_ackFn ah) ts) (ackHandler_destroy (self m) (nodeMutex m) (ah\<lparr>ah_t := t\<rparr>)))))"

definition handleNack :: "('w, 'e) env_scheme \<Rightarrow> NackResp \<Rightarrow> ('w, unit) mprog" where
  "handleNack e nack =
     bindE (obj (\<lambda>m. map_of (ackHandlers m) (nack_seqno nack))) (\<lambda>found.
     case found of
       None \<Rightarrow> ret ()
     | Some ah \<Rightarrow> (case ah_nackFn ah of None \<Rightarrow> ret () | Some f \<Rightarrow> run_nackFn e f))"

text \<open>
  Broadcasts go to the hand-over stacks, alive messages to the one served first, each with a
  byte on the hand-over pipe; a full stack drops the message.
\<close>

definition handoff_one :: "('w, 'e) env_scheme \<Rightarrow> sockaddr_in \<Rightarrow> Broadcast \<Rightarrow> ('w, unit) mprog" where
  "handoff_one e remote_addr bc =
     bindE (obj id) (\<lambda>m.
     if bc_type bc = aliveMsg then
       (if length (highPriorityMsgQueue m) < unat (HandoffQueueDepth (config m)) then
          thenE (upd (\<lambda>m. m\<lparr>highPriorityMsgQueue := \<lparr>mh_b = bc, mh_from = remote_addr\<rparr> # highPriorityMsgQueue m\<rparr>))
          (bindE (world (Write e (snd (handoffFd m)) [CHR 0x00])) (\<lambda>_. ret ()))
        else ret ())
     else
       (if length (lowPriorityMsgQueue m) < unat (HandoffQueueDepth (config m)) then
          thenE (upd (\<lambda>m. m\<lparr>lowPriorityMsgQueue := \<lparr>mh_b = bc, mh_from = remote_addr\<rparr> # lowPriorityMsgQueue m\<rparr>))
          (bindE (world (Write e (snd (handoffFd m)) [CHR 0x00])) (\<lambda>_. ret ()))
        else ret ()))"

definition handleComBroadcast :: "('w, 'e) env_scheme \<Rightarrow> ComBroadcast \<Rightarrow> sockaddr_in \<Rightarrow> ('w, unit) mprog" where
  "handleComBroadcast e cbc remote_addr = forE (cbc_bs cbc) (handoff_one e remote_addr)"

definition handleUser :: "User \<Rightarrow> ('w, unit) mprog" where
  "handleUser u = ret ()"

definition handleCommand :: "('w, 'e) env_scheme \<Rightarrow> MessageData \<Rightarrow> sockaddr_in \<Rightarrow> int \<Rightarrow> ('w, unit) mprog" where
  "handleCommand e md remote_addr ts =
     (if md_head md = pingMsg then handlePing_udp e (md_ping md) remote_addr
      else if md_head md = indirectPingMsg then handleIndirectPing e (md_indirectping md) remote_addr
      else if md_head md = ackRespMsg then handleAck e (md_ackresp md) ts
      else if md_head md = nackRespMsg then handleNack e (md_nackresp md)
      else if md_head md = userMsg then handleUser (md_user md)
      else if md_head md = compoundBroad then handleComBroadcast e (md_combroadcast md) remote_addr
      else ret ())"

section \<open>Incoming connections\<close>

definition handlePushPull :: "('w, 'e) env_scheme \<Rightarrow> PushPull \<Rightarrow> int \<Rightarrow> ('w, unit) mprog" where
  "handlePushPull e pp connfd =
     thenE (upd (\<lambda>m. m\<lparr>pushPullReq := pushPullReq m + 1\<rparr>))
     (thenE (sendLocalState e connfd (pp_join pp))
     (thenE (mergeRemoteState e pp)
     (upd (\<lambda>m. m\<lparr>pushPullReq := pushPullReq m - 1\<rparr>))))"

definition handlePing_tcp :: "('w, 'e) env_scheme \<Rightarrow> Ping \<Rightarrow> int \<Rightarrow> ('w, unit) mprog" where
  "handlePing_tcp e ping connfd =
     bindE (obj localName) (\<lambda>me.
     thenE (if ping_node ping \<noteq> [] \<and> ping_node ping \<noteq> me then bindE (world (LogCoon e connfd)) (\<lambda>_. ret ()) else ret ())
     (world (encodeSendTCP e connfd (genAckResp (ping_seqno ping)))))"

definition handleConn :: "('w, 'e) env_scheme \<Rightarrow> int \<Rightarrow> ('w, unit) mprog" where
  "handleConn e connfd =
     bindE (obj (TCPTimeout \<circ> config)) (\<lambda>tcptimeout.
     thenE (world (set_transfer_timeouts e connfd tcptimeout))
     (bindE (world (decodeReceiveTCP e connfd)) (\<lambda>md.
     thenE (if md_head md = pushPullMsg then handlePushPull e (md_pushpull md) connfd
            else if md_head md = pingMsg then handlePing_tcp e (md_ping md) connfd
            else if md_head md = userMsg then handleUser (md_user md)
            else bindE (world (LogCoon e connfd)) (\<lambda>_. ret ()))
     (bindE (world (Close e connfd)) (\<lambda>_. ret ())))))"

section \<open>Broadcasts taken from the hand-over stacks\<close>

definition getNextMessage :: "('w, msgHandoff option) mprog" where
  "getNextMessage =
     bindE (obj id) (\<lambda>m.
     case highPriorityMsgQueue m of
       msg # rest \<Rightarrow> thenE (upd (\<lambda>m. m\<lparr>highPriorityMsgQueue := rest\<rparr>)) (ret (Some msg))
     | [] \<Rightarrow>
         (case lowPriorityMsgQueue m of
            msg # rest \<Rightarrow> thenE (upd (\<lambda>m. m\<lparr>lowPriorityMsgQueue := rest\<rparr>)) (ret (Some msg))
          | [] \<Rightarrow> ret None))"

definition handleAlive :: "('w, 'e) env_scheme \<Rightarrow> Broadcast \<Rightarrow> ('w, unit) mprog" where
  "handleAlive e a = (if bc_type a \<noteq> aliveMsg then ret () else aliveNode e a False (-1))"

definition handleDead :: "('w, 'e) env_scheme \<Rightarrow> Broadcast \<Rightarrow> ('w, unit) mprog" where
  "handleDead e d = (if bc_type d \<noteq> deadMsg then ret () else deadNode e d)"

definition handleSuspect :: "('w, 'e) env_scheme \<Rightarrow> Broadcast \<Rightarrow> ('w, unit) mprog" where
  "handleSuspect e s = (if bc_type s \<noteq> suspectMsg then ret () else suspectNode e s)"

definition dispatch_broadcast :: "('w, 'e) env_scheme \<Rightarrow> Broadcast \<Rightarrow> ('w, unit) mprog" where
  "dispatch_broadcast e bc =
     (if bc_type bc = aliveMsg then handleAlive e bc
      else if bc_type bc = deadMsg then handleDead e bc
      else if bc_type bc = suspectMsg then handleSuspect e bc
      else ret ())"

text \<open>The inner loop of \<^verbatim>\<open>packetHandler\<close>: no handler adds to the stacks, so it ends with them.\<close>

fun drain_loop :: "nat \<Rightarrow> ('w, 'e) env_scheme \<Rightarrow> ('w, unit) mprog" where
  "drain_loop 0 e = raise OutOfFuel"
| "drain_loop (Suc fuel) e =
     bindE getNextMessage (\<lambda>msg.
     case msg of
       None \<Rightarrow> ret ()
     | Some h \<Rightarrow> thenE (dispatch_broadcast e (mh_b h)) (drain_loop fuel e))"

definition drain :: "('w, 'e) env_scheme \<Rightarrow> ('w, unit) mprog" where
  "drain e = bindE (obj id) (\<lambda>m.
     drain_loop (Suc (length (highPriorityMsgQueue m) + length (lowPriorityMsgQueue m))) e)"

section \<open>The listeners\<close>

text \<open>One round of each \<^verbatim>\<open>for (;;)\<close>; the result says whether the loop goes on.\<close>

definition listen_round ::
  "('w, 'e) env_scheme \<Rightarrow> nat \<Rightarrow> int \<Rightarrow> ('w, unit) mprog \<Rightarrow> ('w, bool) mprog" where
  "listen_round e shutdownBytes fd serve =
     bindE (obj shutdownFd) (\<lambda>sfd.
     bindE (world (Select e (max (fst sfd) fd + 1) \<lparr>readfds = [fst sfd, fd], writefds = []\<rparr> None)) (\<lambda>(_, rset).
     if fst sfd \<in> set (readfds rset) then
       bindE (world (Read e (fst sfd) shutdownBytes)) (\<lambda>_. ret False)
     else if fd \<in> set (readfds rset) then thenE serve (ret True)
     else ret True))"

definition streamListen_round :: "('w, 'e) env_scheme \<Rightarrow> ('w, bool) mprog" where
  "streamListen_round e =
     bindE (obj tcpFd) (\<lambda>fd.
     listen_round e 1 fd
       (bindE (world (Accept e fd)) (\<lambda>(connfd, _). upd (\<lambda>m. m\<lparr>detached := detached m @ [ConnHandler connfd]\<rparr>))))"

definition packetListen_round :: "('w, 'e) env_scheme \<Rightarrow> ('w, bool) mprog" where
  "packetListen_round e =
     bindE (obj udpFd) (\<lambda>fd.
     listen_round e 1 fd
       (bindE (world (decodeReceiveUDP e fd)) (\<lambda>(md, remote_addr).
        bindE (now_us e) (\<lambda>ts. handleCommand e md remote_addr ts))))"

definition packetHandler_round :: "('w, 'e) env_scheme \<Rightarrow> ('w, bool) mprog" where
  "packetHandler_round e =
     bindE (obj (fst \<circ> handoffFd)) (\<lambda>fd.
     listen_round e 1024 fd (bindE (world (Read e fd 1024)) (\<lambda>_. drain e)))"

section \<open>Detached threads\<close>

definition run_detached :: "('w, 'e) env_scheme \<Rightarrow> detachedThread \<Rightarrow> ('w, unit) mprog" where
  "run_detached e t =
     (case t of
        TcpPing fallbackfd node ping deadline \<Rightarrow>
          bindE (world (FullAddr e node)) (\<lambda>a.
          bindE (sendPingAndWaitForAck e a ping deadline) (\<lambda>didConnect.
          bindE (world (Write e fallbackfd [if didConnect then CHR 0x01 else CHR 0x00])) (\<lambda>_. ret ())))
      | NackWaiter cancelR cancelW remote_addr seqno localSeqNo \<Rightarrow>
          bindE (obj (ProbeTimeout \<circ> config)) (\<lambda>us.
          bindE (world (timeval_usec e us)) (\<lambda>t.
          bindE (world (Select e (cancelR + 1) \<lparr>readfds = [cancelR], writefds = []\<rparr> (Some t))) (\<lambda>(_, rset).
          if cancelR \<in> set (readfds rset) then thenE (world (Close e cancelR)) (ret ())
          else
            thenE (release_handler localSeqNo)
            (thenE (world (Close e cancelR))
            (thenE (world (Close e cancelW))
            (bindE (obj udpFd) (\<lambda>fd. world (encodeSendUDP e fd remote_addr (genNackResp seqno)))))))))
      | ConnHandler connfd \<Rightarrow> handleConn e connfd)"

end
