(* ===== verification/Lifecycle.thy ===== *)
theory Lifecycle
  imports Protocol
begin

text \<open>
  The life of a member list, from \<^verbatim>\<open>memberlist/memberlist.cpp\<close>: construction, joining,
  updating, leaving and shutting down, the scheduled tasks, and the queries.
\<close>

section \<open>Scheduling\<close>

definition start_task :: "('w, 'e) env_scheme \<Rightarrow> nat \<Rightarrow> int \<Rightarrow> schedTask \<Rightarrow> bool \<Rightarrow> ('w, unit) mprog" where
  "start_task e slot interval tsk scal =
     (if interval > 0 then
        bindE (obj id) (\<lambda>m.
        bindE (on_object (new_timer interval (Some tsk) scal) (repeatTimer_Run e (self m) (nodeMutex m))) (\<lambda>(_, t).
        upd (\<lambda>m. m\<lparr>schedule_timer := (schedule_timer m)[slot := Some t]\<rparr>)))
      else ret ())"

definition schedule :: "('w, 'e) env_scheme \<Rightarrow> ('w, unit) mprog" where
  "schedule e =
     bindE (obj id) (\<lambda>m.
     if scheduled m then ret ()
     else
       thenE (upd (\<lambda>m. m\<lparr>scheduled := True\<rparr>))
       (thenE (start_task e 0 (ProbeInterval (config m)) TaskProbe False)
       (thenE (start_task e 1 (PushPullInterval (config m)) TaskPushPull True)
       (start_task e 2 (GossipInterval (config m)) TaskGossip False))))"

text \<open>\<^verbatim>\<open>schedule_timer[i].reset()\<close> destroys the timer, joining its thread.\<close>

definition reset_task :: "nat \<Rightarrow> int \<Rightarrow> ('w, unit) mprog" where
  "reset_task slot interval =
     (if interval > 0 then
        bindE (obj id) (\<lambda>m.
        case schedule_timer m ! slot of
          None \<Rightarrow> ret ()
        | Some t \<Rightarrow>
            thenE (upd (\<lambda>m. m\<lparr>schedule_timer := (schedule_timer m)[slot := None]\<rparr>))
            (bindE (on_object t (repeatTimer_destroy (self m) (nodeMutex m))) (\<lambda>_. ret ())))
      else ret ())"

definition deschedule :: "('w, unit) mprog" where
  "deschedule =
     bindE (obj id) (\<lambda>m.
     if \<not> scheduled m then ret ()
     else
       thenE (upd (\<lambda>m. m\<lparr>scheduled := False\<rparr>))
       (thenE (reset_task 0 (ProbeInterval (config m)))
       (thenE (reset_task 1 (PushPullInterval (config m)))
       (reset_task 2 (GossipInterval (config m))))))"

definition run_task :: "('w, 'e) env_scheme \<Rightarrow> schedTask \<Rightarrow> ('w, unit) mprog" where
  "run_task e t =
     (case t of TaskProbe \<Rightarrow> probe e | TaskPushPull \<Rightarrow> pushPull e | TaskGossip \<Rightarrow> gossip e)"

section \<open>Queries\<close>

definition anyAlive :: "('w, bool) mprog" where
  "anyAlive = node_lock (obj (\<lambda>m.
     \<exists>p \<in> set (nodes m). \<not> DeadOrLeft (heap m p) \<and> NName (N (heap m p)) \<noteq> localName m))"

text \<open>\<^verbatim>\<open>nodeMap[config->Name]\<close> adds a null pointer when the name is missing; reading through it is undefined.\<close>

definition local_entry :: "('w, nat) mprog" where
  "local_entry =
     node_lock (bindE (obj id) (\<lambda>m.
       case nodeMap m (localName m) of
         Some p \<Rightarrow> ret p
       | None \<Rightarrow> thenE (upd (\<lambda>m. m\<lparr>nodeMap := (nodeMap m)(localName m \<mapsto> 0)\<rparr>)) (ret 0)))"

definition LocalNode :: "('w, Node) mprog" where
  "LocalNode =
     bindE local_entry (\<lambda>p. if p = 0 then raise Undefined else obj (\<lambda>m. N (heap m p)))"

definition Members :: "('w, Node list) mprog" where
  "Members = node_lock (obj (\<lambda>m. map N (filter (\<lambda>s. \<not> DeadOrLeft s) (map (heap m) (nodes m)))))"

definition NumMembers :: "('w, nat) mprog" where
  "NumMembers = node_lock (obj (\<lambda>m. length (filter (\<lambda>s. \<not> DeadOrLeft s) (map (heap m) (nodes m)))))"

section \<open>User messages\<close>

definition SendBestEffort :: "('w, 'e) env_scheme \<Rightarrow> Node \<Rightarrow> string \<Rightarrow> ('w, unit) mprog" where
  "SendBestEffort e to msg =
     bindE (world (FullAddr e to)) (\<lambda>a.
     bindE (obj udpFd) (\<lambda>fd. world (encodeSendUDP e fd a (genUser msg))))"

definition SendReliable :: "('w, 'e) env_scheme \<Rightarrow> Node \<Rightarrow> string \<Rightarrow> ('w, unit) mprog" where
  "SendReliable e to msg =
     bindE (world (FullAddr e to)) (\<lambda>a.
     bindE (world (Socket e AF_INET SOCK_STREAM 0)) (\<lambda>fd.
     bindE (obj (TCPTimeout \<circ> config)) (\<lambda>tcpTimeout.
     thenE (world (ConnectTimeout e fd a (word_of_int tcpTimeout)))
     (world (encodeSendTCP e fd (genUser msg))))))"

section \<open>Joining, leaving, updating, shutting down\<close>

definition ShutDown :: "('w, 'e) env_scheme \<Rightarrow> ('w, unit) mprog" where
  "ShutDown e =
     node_lock (bindE (obj id) (\<lambda>m.
       if shutdown m then ret ()
       else
         thenE (world (Close e (tcpFd m)))
         (thenE (upd (\<lambda>m. m\<lparr>shutdown := True\<rparr>))
         (thenE (world (Close e (snd (shutdownFd m)))) deschedule))))"

text \<open>Ten attempts, five seconds apart; after the last one \<^verbatim>\<open>LOG(FATAL)\<close> aborts the program.\<close>

fun join_loop :: "nat \<Rightarrow> ('w, 'e) env_scheme \<Rightarrow> sockaddr_in \<Rightarrow> ('w, unit) mprog" where
  "join_loop 0 e remote_addr = ret ()"
| "join_loop (Suc k) e remote_addr =
     bindE (catchWrap (thenE (pushPullNode e remote_addr True) (ret True))
       (\<lambda>_. thenE (if k = 0 then thenE (ShutDown e) (raise Aborted) else ret ())
          (thenE (world (modify (sys_sleep e (seconds 5)))) (ret False)))) (\<lambda>joined.
     if joined then ret () else join_loop k e remote_addr)"

definition Join :: "('w, 'e) env_scheme \<Rightarrow> string \<Rightarrow> ('w, unit) mprog" where
  "Join e cluster_addr =
     bindE (world (resolveAddr e cluster_addr)) (\<lambda>remote_addr. join_loop 10 e remote_addr)"

text \<open>Wait until a pipe can be read, at most for a positive timeout.\<close>

definition await_pipe :: "('w, 'e) env_scheme \<Rightarrow> int \<Rightarrow> int \<Rightarrow> ('w, unit) prog" where
  "await_pipe e fd timeout =
     bindE (if timeout > 0 then bindE (timeval_usec e timeout) (\<lambda>t. ret (Some t)) else ret None) (\<lambda>t.
     bindE (Select e (fd + 1) \<lparr>readfds = [fd], writefds = []\<rparr> t) (\<lambda>(_, rset).
     if fd \<in> set (readfds rset) then bindE (Read e fd 1) (\<lambda>_. ret ()) else ret ()))"

definition Leave :: "('w, 'e) env_scheme \<Rightarrow> int \<Rightarrow> ('w, unit) mprog" where
  "Leave e timeout =
     bindE (obj id) (\<lambda>m.
     if shutdown m then raise Aborted
     else if leave m then ret ()
     else
       thenE (upd (\<lambda>m. m\<lparr>leave := True\<rparr>))
       (bindE (node_lock (obj (\<lambda>m. nodeMap m (localName m)))) (\<lambda>found.
       case found of
         None \<Rightarrow> ret ()
       | Some p \<Rightarrow>
           bindE (obj (\<lambda>m. heap m p)) (\<lambda>st.
           thenE (deadNode e (genDeadBroadcast (Incarnation st) (NName (N st)) (NName (N st))))
           (bindE anyAlive (\<lambda>any.
           if any then world (await_pipe e (fst (leaveFd m)) timeout) else ret ()))))))"

definition UpdateNode :: "('w, 'e) env_scheme \<Rightarrow> int \<Rightarrow> ('w, unit) mprog" where
  "UpdateNode e timeout =
     bindE local_entry (\<lambda>p.
     bindE nextIncarnation (\<lambda>inc.
     if p = 0 then raise Undefined
     else
       bindE (obj id) (\<lambda>m.
       bindE (world (Pipe e)) (\<lambda>notifyFd.
       thenE (aliveNode e (genAliveBroadcast inc (localName m) (NAddr (N (heap m p))) (ucast (NPort (N (heap m p)))))
         False (snd notifyFd))
       (bindE anyAlive (\<lambda>any.
       if any then
         thenE (world (await_pipe e (fst notifyFd) timeout))
         (thenE (world (Close e (fst notifyFd)))
         (bindE (world (Close e (snd notifyFd))) (\<lambda>_. ret ())))
       else ret ()))))))"

section \<open>Construction and destruction\<close>

definition newmemberlist :: "('w, 'e) env_scheme \<Rightarrow> Config \<Rightarrow> ('w, unit) mprog" where
  "newmemberlist e c =
     thenE (upd (\<lambda>m. m\<lparr>sequenceNum := 0, incarnation := 0, numNodes := 0, pushPullReq := 0, config := c,
       leave := False, shutdown := False\<rparr>))
     (bindE (world (Pipe e)) (\<lambda>lfd.
     thenE (upd (\<lambda>m. m\<lparr>leaveFd := lfd\<rparr>))
     (bindE (world (Pipe e)) (\<lambda>sfd.
     thenE (upd (\<lambda>m. m\<lparr>shutdownFd := sfd\<rparr>))
     (bindE (case inet_pton4 e (c_str (BindAddr c)) of
               Some a \<Rightarrow> ret a
             | None \<Rightarrow> thenE (world (modify (sys_set_errno e 1))) (ret 0)) (\<lambda>a.
     let local_addr = \<lparr>sin_family = AF_INET, sin_port = htons (BindPort c), sin_addr = a\<rparr>
     in bindE (world (Socket e AF_INET SOCK_STREAM 0)) (\<lambda>tfd.
        thenE (upd (\<lambda>m. m\<lparr>tcpFd := tfd\<rparr>))
        (thenE (world (Bind e tfd local_addr))
        (thenE (world (Listen e tfd 1024))
        (bindE (world (Socket e AF_INET SOCK_DGRAM 0)) (\<lambda>ufd.
        thenE (upd (\<lambda>m. m\<lparr>udpFd := ufd\<rparr>))
        (thenE (world (Bind e ufd local_addr))
        (bindE (world (Pipe2 e O_DIRECT)) (\<lambda>hfd.
        upd (\<lambda>m. m\<lparr>handoffFd := hfd, TransmitLimitedQueue := new_broadcastQueue (cfg_RetransmitMult c),
          scheduled := False, probeIndex := 0\<rparr>)))))))))))))))"

definition memberlist_ctor :: "('w, 'e) env_scheme \<Rightarrow> Config \<Rightarrow> ('w, unit) mprog" where
  "memberlist_ctor e c = thenE (newmemberlist e c) (thenE (setAlive e) (schedule e))"

definition memberlist_default :: "('w, 'e) env_scheme \<Rightarrow> ('w, unit) mprog" where
  "memberlist_default e = bindE (world (DefaultLANConfig e)) (memberlist_ctor e)"

definition clear_timers :: "('w, unit) mprog" where
  "clear_timers =
     bindE (obj id) (\<lambda>m.
     thenE (upd (\<lambda>m. m\<lparr>nodeTimers := []\<rparr>))
     (forE (nodeTimers m) (\<lambda>(_, s). bindE (on_object s (suspicion_destroy (self m) (nodeMutex m))) (\<lambda>_. ret ()))))"

definition clearmemberlist :: "('w, 'e) env_scheme \<Rightarrow> ('w, unit) mprog" where
  "clearmemberlist e =
     thenE (upd (\<lambda>m. m\<lparr>sequenceNum := 0, incarnation := 0, numNodes := 0, pushPullReq := 0,
       tcpFd := -1, udpFd := -1\<rparr>))
     (bindE (obj handoffFd) (\<lambda>hfd.
     thenE (world (Close e (fst hfd)))
     (thenE (world (Close e (snd hfd)))
     (thenE (upd (\<lambda>m. m\<lparr>highPriorityMsgQueue := [], lowPriorityMsgQueue := []\<rparr>))
     (thenE (node_lock (thenE (upd (\<lambda>m. m\<lparr>nodes := [], nodeMap := Map.empty\<rparr>)) clear_timers))
     (thenE (upd (\<lambda>m. m\<lparr>probeIndex := 0\<rparr>))
     (bindE (obj id) (\<lambda>m.
     thenE (upd (\<lambda>m. m\<lparr>ackHandlers := []\<rparr>))
     (forE (ackHandlers m) (\<lambda>(_, ah). ackHandler_destroy (self m) (nodeMutex m) ah))))))))))"

text \<open>The destructor, up to joining the three listeners.\<close>

definition memberlist_dtor :: "('w, 'e) env_scheme \<Rightarrow> ('w, unit) mprog" where
  "memberlist_dtor e =
     bindE (obj id) (\<lambda>m.
     thenE (if \<not> shutdown m \<and> \<not> leave m then Leave e 1000000 else ret ())
     (bindE (obj shutdown) (\<lambda>sd.
     thenE (if \<not> sd then ShutDown e else ret ()) (clearmemberlist e))))"

end
