(* ===== verification/Invariants.thy ===== *)
theory Invariants
  imports Lifecycle
begin

text \<open>
  What every operation of the running member list keeps. An invariant of the program is a
  predicate of the state that ignores the fields no invariant speaks of, survives a
  permutation of the nodes and is kept by the message handlers; the locale derives, once,
  that every task, handler, listener, detached thread and public operation keeps it.
\<close>

section \<open>Invariants of the program\<close>

locale program_invariant =
  fixes P :: "memberlist \<Rightarrow> bool" and e :: "('w, 'e) env_scheme"
  assumes mutex: "P (m\<lparr>nodeMutex := held\<rparr>) = P m"
    and who: "P m \<Longrightarrow> P (m\<lparr>self := thr\<rparr>)"
    and seq: "P m \<Longrightarrow> P (m\<lparr>sequenceNum := i\<rparr>)"
    and inc: "P m \<Longrightarrow> P (m\<lparr>incarnation := i\<rparr>)"
    and req: "P m \<Longrightarrow> P (m\<lparr>pushPullReq := i\<rparr>)"
    and index: "P m \<Longrightarrow> P (m\<lparr>probeIndex := k\<rparr>)"
    and acks: "P m \<Longrightarrow> P (m\<lparr>ackHandlers := ah\<rparr>)"
    and threads: "P m \<Longrightarrow> P (m\<lparr>detached := dt\<rparr>)"
    and queue: "P m \<Longrightarrow> P (m\<lparr>TransmitLimitedQueue := q\<rparr>)"
    and sched: "P m \<Longrightarrow> P (m\<lparr>scheduled := sc\<rparr>)"
    and timers: "P m \<Longrightarrow> P (m\<lparr>schedule_timer := st\<rparr>)"
    and ticks: "P m \<Longrightarrow> (\<And>t. task (g t) = task t) \<Longrightarrow>
      P (m\<lparr>nodeTimers := map (apsnd (\<lambda>s. s\<lparr>sus_t := g (sus_t s)\<rparr>)) (nodeTimers m)\<rparr>)"
    and down: "P m \<Longrightarrow> P (m\<lparr>shutdown := True\<rparr>)"
    and leaving: "P m \<Longrightarrow> P (m\<lparr>leave := True\<rparr>)"
    and shuffled: "P m \<Longrightarrow> mset ns = mset (nodes m) \<Longrightarrow> P (m\<lparr>nodes := ns\<rparr>)"
    and alive: "keeps P (aliveNode e b bs fd)"
    and suspect: "keeps P (suspectNode e b)"
    and dead: "keeps P (deadNode e b)"
    and timeout: "keeps P (suspicion_callback e f)"
    and merge: "keeps P (mergeNodeState e pns)"
    and handoff: "keeps P (handoff_one e a b)"
    and handover: "keeps P (getNextMessage :: ('w, msgHandoff option) mprog)"
    and entry: "keeps P (local_entry :: ('w, nat) mprog)"
begin

lemma lock: "keeps P p \<Longrightarrow> keeps P (node_lock p)"
  by (rule keeps_node_lock) (simp_all add: mutex)

lemmas frame = seq inc req index acks threads queue sched timers down leaving

lemma counters: "keeps P nextSeqNum" "keeps P nextIncarnation"
  unfolding nextSeqNum_def nextIncarnation_def by (intro keeps_intros frame; assumption)+

lemma merge_all: "keeps P (mergeRemoteState e pp)"
  unfolding mergeRemoteState_def by (intro keeps_forE merge)

lemma exchange: "keeps P (sendLocalState e fd j)" "keeps P (sendAndReceiveState e a j)" "keeps P (pushPullNode e a j)"
proof -
  show send: "keeps P (sendLocalState e fd j)" for fd
    unfolding sendLocalState_def by (intro keeps_intros lock)
  show "keeps P (sendAndReceiveState e a j)"
    unfolding sendAndReceiveState_def by (intro keeps_intros send)
  then show "keeps P (pushPullNode e a j)"
    unfolding pushPullNode_def by (intro keeps_intros merge_all)
qed

lemma members: "keeps P (random_members e k ex)"
  unfolding random_members_def by (intro keeps_intros lock)

lemma push_pull: "keeps P (pushPull e)"
  unfolding pushPull_def by (intro keeps_intros members exchange)

lemma gossips: "keeps P (gossip e)"
proof -
  have "keeps P (gossip_loop ns e)" for ns
    by (induction ns)
      (simp_all, (intro keeps_intros | simp add: getBroadcasts_def on_queue_def queue)+)
  then show ?thesis
    unfolding gossip_def by (intro keeps_intros members)
qed

lemma handler_map: "keeps P (release_handler n)" "keeps P (put_handler n ah)"
proof -
  show rel: "keeps P (release_handler n)"
    unfolding release_handler_def ackHandler_destroy_def by (intro keeps_intros acks)
  show "keeps P (put_handler n ah)"
    unfolding put_handler_def by (intro keeps_intros rel acks)
qed

lemma handler_set: "keeps P (setProbePipes e n a b i)" "keeps P (setAckHandler n g t)"
  unfolding setProbePipes_def setAckHandler_def Let_def by (intro keeps_intros handler_map acks; assumption?)+

lemma probing: "keeps P (direct_probe e node ping addr fd)" "keeps P (indirect_probe e node n ping d)"
  unfolding direct_probe_def indirect_probe_def Let_def
  by (intro keeps_intros members threads; assumption?)+

lemma probe_one: "keeps P (probeNode e node)"
  unfolding probeNode_def Let_def
  by (intro keeps_intros counters handler_set probing handler_map suspect)

lemma steps: "keeps P (probe_step e n)"
proof -
  have "keeps P (bindE (obj id) (\<lambda>m.
       if n \<ge> length (nodes m) then ret ProbeStop
       else if probeIndex m \<ge> length (nodes m) then
         bindE (world (random_shuffle e (nodes m))) (\<lambda>ns.
         thenE (upd (\<lambda>m. m\<lparr>nodes := ns\<rparr>)) (ret ProbeWrap))
       else ret (ProbeAt (heap m (nodes m ! probeIndex m)))))"
    by (rule keeps_read) (auto simp: wp_simps intro!: wp_random_shuffle shuffled)
  then show ?thesis
    unfolding probe_step_def by (rule lock)
qed

lemma probes: "keeps P (probe e)"
proof -
  have "keeps P (probe_loop fuel e n)" for fuel n
    by (induction fuel arbitrary: n)
      (simp_all, (intro keeps_intros steps | simp add: index probe_one split: probeStep.split | safe)+)
  then show ?thesis
    unfolding probe_def by (intro keeps_intros)
qed

section \<open>Incoming messages\<close>

lemma packets: "keeps P (handleCommand e md a ts)"
proof -
  have "keeps P (run_ackFn e g ts)" for g ts
    unfolding run_ackFn_def by (cases g) (simp_all, (intro keeps_intros)+)
  then have "keeps P (handleAck e ack ts)" for ack
    unfolding handleAck_def ackHandler_destroy_def by (intro keeps_intros acks)
  moreover have "keeps P (handleNack e nack)" for nack
    unfolding handleNack_def run_nackFn_def
    by (intro keeps_intros) (simp split: nackFn.split, intro allI impI keeps_intros)
  moreover have "keeps P (handleIndirectPing e ip a)" for ip
    unfolding handleIndirectPing_def Let_def by (intro keeps_intros counters handler_set threads)
  moreover have "keeps P (handlePing_udp e p a)" for p
    unfolding handlePing_udp_def by (intro keeps_intros)
  ultimately show ?thesis
    unfolding handleCommand_def handleComBroadcast_def handleUser_def by (intro keeps_intros handoff)
qed

lemma connections: "keeps P (handleConn e fd)"
  unfolding handleConn_def handlePushPull_def handlePing_tcp_def handleUser_def
  by (intro keeps_intros req exchange merge_all; assumption?)

lemma broadcasts: "keeps P (dispatch_broadcast e bc)"
  unfolding dispatch_broadcast_def handleAlive_def handleDead_def handleSuspect_def
  by (intro keeps_intros alive suspect dead)

lemma drains: "keeps P (drain e)"
proof -
  have "keeps P (drain_loop fuel e)" for fuel
    by (induction fuel) (simp_all, (intro keeps_intros broadcasts | rule handover | assumption)+)
  then show ?thesis
    unfolding drain_def by (intro keeps_intros)
qed

lemma listeners: "keeps P (streamListen_round e)" "keeps P (packetListen_round e)" "keeps P (packetHandler_round e)"
proof -
  have round: "keeps P (listen_round e n fd serve)" if "keeps P serve" for n fd serve
    unfolding listen_round_def using that by (intro keeps_intros)
  show "keeps P (streamListen_round e)" "keeps P (packetListen_round e)" "keeps P (packetHandler_round e)"
    unfolding streamListen_round_def packetListen_round_def packetHandler_round_def
    by (intro keeps_intros round threads packets drains; assumption?)+
qed

lemma threads_run: "keeps P (run_detached e t)"
proof (cases t)
  case (TcpPing fd node ping d)
  then show ?thesis
    unfolding run_detached_def sendPingAndWaitForAck_def by simp (intro keeps_intros)
next
  case (NackWaiter r w a n k)
  then show ?thesis
    unfolding run_detached_def by simp (intro keeps_intros handler_map)
next
  case (ConnHandler fd)
  then show ?thesis
    unfolding run_detached_def by (simp add: connections)
qed

section \<open>Tasks and public operations\<close>

lemma tasks: "keeps P (run_task e t)" "keeps P (ack_timeout e k)"
  unfolding run_task_def ack_timeout_def
  by (cases t, simp_all add: probes push_pull gossips) (cases k, simp, intro keeps_intros)

lemma scheduling: "keeps P (schedule e)" "keeps P deschedule"
proof -
  have "keeps P (start_task e n i tsk sc)" for n i tsk sc
    unfolding start_task_def by (intro keeps_intros timers)
  then show "keeps P (schedule e)"
    unfolding schedule_def by (intro keeps_intros sched)
  have "keeps P (reset_task n i)" for n i
    unfolding reset_task_def by (intro keeps_intros timers)
  then show "keeps P deschedule"
    unfolding deschedule_def by (intro keeps_intros sched)
qed

lemma shutting: "keeps P (ShutDown e)"
  unfolding ShutDown_def by (intro keeps_intros lock down scheduling)

lemma joins: "keeps P (Join e addr)"
proof -
  have "keeps P (join_loop k e a)" for k a
    by (induction k) (simp_all only: join_loop.simps, (intro keeps_intros exchange shutting | assumption)+)
  then show ?thesis
    unfolding Join_def by (intro keeps_intros)
qed

lemma queries: "keeps P anyAlive" "keeps P Members" "keeps P NumMembers" "keeps P (LocalNode :: ('w, Node) mprog)"
  unfolding anyAlive_def Members_def NumMembers_def LocalNode_def
  by (rule lock keeps_intros entry)+

lemma leaves: "keeps P (Leave e t)"
  unfolding Leave_def by (intro keeps_intros leaving lock dead queries)

lemma updates: "keeps P (UpdateNode e t)"
  unfolding UpdateNode_def by (rule entry | intro keeps_intros counters alive queries)+

lemma sends: "keeps P (SendBestEffort e to msg)" "keeps P (SendReliable e to msg)"
  unfolding SendBestEffort_def SendReliable_def by (intro keeps_intros)+

end


section \<open>The invariants\<close>

text \<open>The table is consistent and holds the local node, alive until it leaves.\<close>

lemma ml_ok_shuffled:
  assumes "ml_ok m" and "mset ns = mset (nodes m)"
  shows "ml_ok (m\<lparr>nodes := ns\<rparr>)"
proof -
  have "set ns = set (nodes m)" "length ns = length (nodes m)" "distinct ns \<longleftrightarrow> distinct (nodes m)"
    using assms(2) by (metis set_mset_mset, metis size_mset, metis mset_eq_imp_distinct_iff)
  then show ?thesis
    using assms(1) by (auto simp: ml_ok_def ml_inv_def local_alive_iff)
qed

lemma ml_ok_leaving: "ml_ok m \<Longrightarrow> ml_ok (m\<lparr>leave := True\<rparr>)"
  by (simp add: ml_ok_def)

lemma keeps_ok_local_entry: "keeps ml_ok local_entry"
  unfolding local_entry_def
  by (intro keeps_node_lock keeps_read) (auto simp: wp_simps, auto simp: ml_ok_def)

lemma keeps_handover:
  assumes "\<And>m hs. P m \<Longrightarrow> length hs \<le> length (highPriorityMsgQueue m) \<Longrightarrow> P (m\<lparr>highPriorityMsgQueue := hs\<rparr>)"
    and "\<And>m ls. P m \<Longrightarrow> length ls \<le> length (lowPriorityMsgQueue m) \<Longrightarrow> P (m\<lparr>lowPriorityMsgQueue := ls\<rparr>)"
  shows "keeps P getNextMessage"
  unfolding getNextMessage_def
  by (rule keeps_read) (auto simp: wp_simps split: list.split intro: assms)

lemma keeps_handoff:
  assumes "\<And>m hs. P m \<Longrightarrow> length hs \<le> max (length (highPriorityMsgQueue m)) (unat (HandoffQueueDepth (config m))) \<Longrightarrow>
      P (m\<lparr>highPriorityMsgQueue := hs\<rparr>)"
    and "\<And>m ls. P m \<Longrightarrow> length ls \<le> max (length (lowPriorityMsgQueue m)) (unat (HandoffQueueDepth (config m))) \<Longrightarrow>
      P (m\<lparr>lowPriorityMsgQueue := ls\<rparr>)"
  shows "keeps P (handoff_one e a b)"
  unfolding handoff_one_def
  by (rule keeps_read) (auto simp: wp_simps Write_def max_def intro!: assms)

interpretation table: program_invariant ml_ok e for e
  by unfold_locales
    (simp_all add: ml_ok_leaving ml_ok_shuffled handlers_keep timeout_msg.keeps_local merged_state.keeps_local
      keeps_ok_local_entry keeps_handover keeps_handoff)

text \<open>
  The configuration stays, leaving and shutting down are final, and the hand-over stacks
  stay within their depth.
\<close>

definition history :: "bool \<Rightarrow> bool \<Rightarrow> Config \<Rightarrow> memberlist \<Rightarrow> bool" where
  "history l d c m \<longleftrightarrow> config m = c \<and> (l \<longrightarrow> leave m) \<and> (d \<longrightarrow> shutdown m) \<and>
     length (highPriorityMsgQueue m) \<le> unat (HandoffQueueDepth c) \<and>
     length (lowPriorityMsgQueue m) \<le> unat (HandoffQueueDepth c)"

lemma history_settled:
  "history l d c = settled (\<lambda>(c', l', d', hs, ls). c' = c \<and> (l \<longrightarrow> l') \<and> (d \<longrightarrow> d') \<and>
     length hs \<le> unat (HandoffQueueDepth c) \<and> length ls \<le> unat (HandoffQueueDepth c))"
  by (simp add: fun_eq_iff history_def settled_def outer_def)

lemma keeps_history_local_entry: "keeps (history l d c) local_entry"
  unfolding local_entry_def by (intro keeps_intros) (simp_all add: history_def)

interpretation past: program_invariant "history l d c" e for l d c e
proof unfold_locales
  show "keeps (history l d c) (aliveNode e b bs fd)" "keeps (history l d c) (suspectNode e b)"
    "keeps (history l d c) (deadNode e b)" "keeps (history l d c) (suspicion_callback e f)"
    "keeps (history l d c) (mergeNodeState e pns)" for b bs fd f pns
    unfolding history_settled
    by (rule alive_msg.keeps_settled suspect_msg.keeps_settled dead_msg.keeps_settled
        timeout_msg.keeps_settled merged_state.keeps_settled)+
  show "keeps (history l d c) (handoff_one e a b)" for a b
    by (rule keeps_handoff) (auto simp: history_def)
  show "keeps (history l d c) getNextMessage"
    by (rule keeps_handover) (auto simp: history_def)
qed (simp_all add: keeps_history_local_entry, simp_all add: history_def)

text \<open>A node once heard of stays known.\<close>

definition knows :: "string set \<Rightarrow> memberlist \<Rightarrow> bool" where
  "knows S m \<longleftrightarrow> S \<subseteq> dom (nodeMap m)"

lemma knows_fields [simp]:
  "knows S (m\<lparr>nodeMutex := b\<rparr>) = knows S m" "knows S (m\<lparr>heap := h\<rparr>) = knows S m"
  "knows S (m\<lparr>nodes := ns\<rparr>) = knows S m" "knows S (m\<lparr>nodeTimers := ts\<rparr>) = knows S m"
  "knows S (m\<lparr>numNodes := k\<rparr>) = knows S m" "knows S (m\<lparr>heapNext := p\<rparr>) = knows S m"
  "knows S (m\<lparr>incarnation := i\<rparr>) = knows S m" "knows S (m\<lparr>TransmitLimitedQueue := q\<rparr>) = knows S m"
  by (simp_all add: knows_def)

lemma knows_quiet: "quiet m m' \<Longrightarrow> knows S m' = knows S m"
  by (simp add: knows_def quietD)

lemma knows_more: "knows S m \<Longrightarrow> knows S (m\<lparr>nodeMap := (nodeMap m)(n \<mapsto> p)\<rparr>)"
  by (auto simp: knows_def)

lemmas knows_blocks = keeps_quiet [of "knows S" for S, OF knows_quiet]

lemma keeps_knows_refute: "keeps (knows S) (refute e p acc)"
  by (auto intro!: keepsI wp_refute simp: knows_quiet) (simp add: refuted_def Let_def knows_def)

lemma keeps_knows_set_node: "keeps (knows S) (set_node p f)"
  unfolding set_node_def by (rule keeps_upd) simp

lemmas keeps_knows = keeps_intros knows_blocks keeps_knows_refute keeps_knows_set_node

lemma keeps_knows_dead: "keeps (knows S) (deadNode e b)"
  unfolding deadNode_def dead_apply_def mark_dead_def Let_def by (intro keeps_knows) simp_all

lemma keeps_knows_callback: "keeps (knows S) (suspicion_callback e f)"
  unfolding suspicion_callback_def by (intro keeps_knows keeps_knows_dead) simp

lemma keeps_knows_suspect: "keeps (knows S) (suspectNode e b)"
  unfolding suspectNode_def suspect_apply_def mark_suspect_def confirm_suspicion_def Let_def case_prod_beta
  by (intro keeps_knows keeps_knows_callback) simp_all

lemma keeps_knows_alive: "keeps (knows S) (aliveNode e b bs fd)"
  unfolding aliveNode_def alive_lookup_def alive_apply_def new_object_def insert_random_def Let_def
  by (intro keeps_knows) (simp_all add: knows_more)

lemma keeps_knows_local_entry: "keeps (knows S) local_entry"
  unfolding local_entry_def by (intro keeps_intros) (auto simp: knows_def)

interpretation memory: program_invariant "knows S" e for S e
  by unfold_locales
    (auto simp: keeps_knows_alive keeps_knows_suspect keeps_knows_dead keeps_knows_callback mergeNodeState_def
      keeps_knows_local_entry intro!: keeps_intros keeps_handoff keeps_handover, simp_all add: knows_def)

end
