(* ===== verification/Timeouts.thy ===== *)
theory Timeouts
  imports Invariants
begin

text \<open>
  The map of suspicions: every entry stands under the name of the node its callback is
  about, and its timer's task is that callback. Every operation keeps this, so a suspicion that
  runs out always finds itself under the name it is about to erase.
\<close>

definition timers_ok :: "memberlist \<Rightarrow> bool" where
  "timers_ok m \<longleftrightarrow> distinct (map fst (nodeTimers m)) \<and>
     (\<forall>(n, s) \<in> set (nodeTimers m). st_node (sus_f s) = n \<and> task (sus_t s) = Some (sus_f s))"

lemma timers_ok_map_of:
  "timers_ok m \<longleftrightarrow> distinct (map fst (nodeTimers m)) \<and>
     (\<forall>n s. map_of (nodeTimers m) n = Some s \<longrightarrow> st_node (sus_f s) = n \<and> task (sus_t s) = Some (sus_f s))"
  by (auto simp: timers_ok_def dest: map_of_SomeD)

lemma timers_okD:
  assumes "timers_ok m" and "map_of (nodeTimers m) n = Some s"
  shows "st_node (sus_f s) = n" "task (sus_t s) = Some (sus_f s)"
  using assms by (simp_all add: timers_ok_map_of)

lemma timers_ok_entry:
  assumes "timers_ok m" and "(n, s) \<in> set (nodeTimers m)"
  shows "map_of (nodeTimers m) n = Some s"
  using assms by (simp add: timers_ok_def)

lemma timers_ok_same: "nodeTimers m' = nodeTimers m \<Longrightarrow> timers_ok m' = timers_ok m"
  by (simp add: timers_ok_def)

lemma timers_ok_fields [simp]:
  "timers_ok (m\<lparr>nodeMutex := b\<rparr>) = timers_ok m" "timers_ok (m\<lparr>heap := h\<rparr>) = timers_ok m"
  "timers_ok (m\<lparr>nodes := ns\<rparr>) = timers_ok m" "timers_ok (m\<lparr>nodeMap := nm\<rparr>) = timers_ok m"
  "timers_ok (m\<lparr>numNodes := k\<rparr>) = timers_ok m" "timers_ok (m\<lparr>heapNext := p\<rparr>) = timers_ok m"
  "timers_ok (m\<lparr>incarnation := i\<rparr>) = timers_ok m" "timers_ok (m\<lparr>TransmitLimitedQueue := q\<rparr>) = timers_ok m"
  by (simp_all add: timers_ok_def)

lemma timers_ok_update:
  assumes "timers_ok m" and "st_node (sus_f s) = n" and "task (sus_t s) = Some (sus_f s)"
  shows "timers_ok (m\<lparr>nodeTimers := AList.update n s (nodeTimers m)\<rparr>)"
  using assms by (simp add: timers_ok_map_of distinct_update update_conv')

lemma timers_ok_delete:
  assumes "timers_ok m"
  shows "timers_ok (m\<lparr>nodeTimers := AList.delete n (nodeTimers m)\<rparr>)"
  using assms by (simp add: timers_ok_map_of distinct_delete delete_conv')

lemma timers_ok_ticks:
  assumes "timers_ok m" and "\<And>t. task (g t) = task t"
  shows "timers_ok (m\<lparr>nodeTimers := map (apsnd (\<lambda>s. s\<lparr>sus_t := g (sus_t s)\<rparr>)) (nodeTimers m)\<rparr>)"
  using assms by (auto simp: timers_ok_def)

section \<open>Every operation keeps the map\<close>

lemma keeps_timers_notify: "keeps timers_ok (BroadcastNotify e n b fd)" "keeps timers_ok (onlyBroadcast e n b)"
  unfolding onlyBroadcast_def BroadcastNotify_def on_queue_def by (intro keeps_intros; simp)+

lemma keeps_timers_erase: "keeps timers_ok (erase_timer n)"
  unfolding erase_timer_def by (intro keeps_intros timers_ok_delete)

lemma keeps_timers_set_node: "keeps timers_ok (set_node p f)"
  unfolding set_node_def by (rule keeps_upd) simp

lemma keeps_timers_refute: "keeps timers_ok (refute e p acc)"
  unfolding refute_def skipIncarnation_def
  by (intro keeps_intros keeps_timers_set_node keeps_timers_notify) simp

lemma keeps_timers_start: "keeps timers_ok (start_suspicion e s now)"
  by (auto intro!: keepsI wp_new_suspicion timers_ok_update simp: start_suspicion_def wp_simps Let_def)

lemma wp_onceTimer_Run_task:
  "(\<And>r t' w'. task t' = task t \<Longrightarrow> Q r (t', w')) \<Longrightarrow> wp (onceTimer_Run e me h) Q (t, w)"
  by (auto simp: onceTimer_Run_def start_runner_def wp_simps split: sum.split)

lemma wp_Confirm_task:
  assumes "\<And>r s' w'. sus_f s' = sus_f s \<Longrightarrow> task (sus_t s') = task (sus_t s) \<Longrightarrow> Q r (s', w')"
  shows "wp (Confirm e me h from) Q (s, w)"
  unfolding Confirm_def
  by (auto simp: wp_simps sus_timer_def timer_Restart_def intro!: assms wp_remaining wp_onceTimer_Run_task)

lemmas keeps_timers = keeps_intros keeps_timers_notify keeps_timers_erase keeps_timers_set_node
  keeps_timers_refute keeps_timers_start

lemma keeps_timers_dead: "keeps timers_ok (deadNode e b)"
  unfolding deadNode_def dead_apply_def mark_dead_def Let_def by (intro keeps_timers) simp

lemma keeps_timers_callback: "keeps timers_ok (suspicion_callback e f)"
  unfolding suspicion_callback_def by (intro keeps_timers keeps_timers_dead) simp

lemma wp_timers_confirm:
  assumes "timers_ok m" and "map_of (nodeTimers m) (suspect_node s) = Some sus"
  shows "wp (confirm_suspicion e s sus) (\<lambda>r s'. timers_ok (fst s')) (m, w)"
proof -
  have upd: "timers_ok (m\<lparr>nodeTimers := AList.update (suspect_node s) sus' (nodeTimers m)\<rparr>)"
    if "sus_f sus' = sus_f sus" "task (sus_t sus') = task (sus_t sus)" for sus'
    using assms(1) timers_okD [OF assms] that by (intro timers_ok_update) simp_all
  show ?thesis
    unfolding confirm_suspicion_def
    by (simp add: wp_bindE wp_obj wp_on_object, rule wp_Confirm_task)
      (auto simp: wp_thenE [of "upd f" for f] wp_upd assms(1) upd split: sum.split
        intro!: keepsD [where P = timers_ok] keeps_timers keeps_timers_callback)
qed

lemma keeps_timers_suspect: "keeps timers_ok (suspectNode e b)"
proof -
  have "keeps timers_ok (mark_suspect e s p)" for s p
    unfolding mark_suspect_def by (intro keeps_timers)
  then have "keeps timers_ok (suspect_apply e s p)" for s p
    unfolding suspect_apply_def
    by (intro keeps_read)
      (auto simp: Let_def wp_ret wp_timers_confirm keeps_timers_refute keepsD split: option.split)
  then show ?thesis
    unfolding suspectNode_def Let_def by (intro keeps_timers) simp_all
qed

lemma keeps_timers_alive: "keeps timers_ok (aliveNode e b bs fd)"
  unfolding aliveNode_def alive_lookup_def alive_apply_def new_object_def insert_random_def Let_def
  by (intro keeps_timers) simp_all

lemma keeps_timers_local_entry: "keeps timers_ok local_entry"
  unfolding local_entry_def by (intro keeps_intros) (auto simp: timers_ok_def)

interpretation alarms: program_invariant timers_ok e for e
  by unfold_locales
    (auto simp: keeps_timers_alive keeps_timers_suspect keeps_timers_dead keeps_timers_callback mergeNodeState_def
      keeps_timers_local_entry timers_ok_ticks intro!: keeps_intros keeps_handoff keeps_handover, simp_all add: timers_ok_def)

end
