(* ===== verification/Rounds.thy ===== *)
theory Rounds
  imports Protocol
begin

text \<open>
  What one round of the periodic and listening loops does: which node \<^verbatim>\<open>probe\<close> turns to, in
  which order the handed-over broadcasts are taken and served, and that none of these loops
  runs out of the bound the model gives it.
\<close>

section \<open>Probing\<close>

text \<open>A node that is worth probing: another one, neither dead nor gone.\<close>

definition eligible :: "memberlist \<Rightarrow> nat \<Rightarrow> bool" where
  "eligible m p \<longleftrightarrow> NName (N (heap m p)) \<noteq> localName m \<and> \<not> DeadOrLeft (heap m p)"

lemma eligible_index [simp]: "eligible (m\<lparr>probeIndex := i\<rparr>) = eligible m"
  by (simp add: eligible_def fun_eq_iff)

lemma relock: "\<not> nodeMutex m \<Longrightarrow> m\<lparr>nodeMutex := True, nodeMutex := False\<rparr> = m" "\<not> nodeMutex m \<Longrightarrow> m\<lparr>nodeMutex := False\<rparr> = m"
  by simp_all

lemma drop_Cons:
  assumes "drop i xs = y # ys"
  shows "i < length xs" and "xs ! i = y" and "drop (Suc i) xs = ys"
proof -
  show i: "i < length xs"
    using assms by (cases "i < length xs") simp_all
  show "xs ! i = y" "drop (Suc i) xs = ys"
    using assms Cons_nth_drop_Suc [OF i] by simp_all
qed

lemma probe_loop_at:
  assumes "\<not> nodeMutex m" and "k < length (nodes m)" and "probeIndex m < length (nodes m)"
  shows "probe_loop (Suc fuel) e k (m, w) =
     (if eligible m (nodes m ! probeIndex m) then probeNode e (heap m (nodes m ! probeIndex m))
      else probe_loop fuel e (Suc k)) (m\<lparr>probeIndex := Suc (probeIndex m)\<rparr>, w)"
  using assms by (auto simp: probe_step_def exec_defs eligible_def relock)

lemma probe_loop_skips:
  assumes "\<not> nodeMutex m" and "drop (probeIndex m) (nodes m) = skipped @ p # rest"
    and "\<And>q. q \<in> set skipped \<Longrightarrow> \<not> eligible m q" and "eligible m p" and "k \<le> probeIndex m" and "length skipped < fuel"
  shows "probe_loop fuel e k (m, w) =
     probeNode e (heap m p) (m\<lparr>probeIndex := probeIndex m + length skipped + 1\<rparr>, w)"
  using assms
proof (induction skipped arbitrary: m k fuel)
  case Nil
  then have "drop (probeIndex m) (nodes m) = p # rest"
    by simp
  note i = drop_Cons [OF this]
  show ?case
    using Nil i by (cases fuel) (auto simp: probe_loop_at simp del: probe_loop.simps)
next
  case (Cons q skipped)
  let ?m = "m\<lparr>probeIndex := Suc (probeIndex m)\<rparr>"
  have "drop (probeIndex m) (nodes m) = q # skipped @ p # rest"
    using Cons.prems(2) by simp
  note i = drop_Cons [OF this]
  obtain f where f: "fuel = Suc f"
    using Cons.prems(6) by (cases fuel) auto
  have "probe_loop f e (Suc k) (?m, w) = probeNode e (heap ?m p) (?m\<lparr>probeIndex := probeIndex ?m + length skipped + 1\<rparr>, w)"
    using Cons.prems f i by (intro Cons.IH) simp_all
  then show ?case
    using Cons.prems i f by (simp add: probe_loop_at del: probe_loop.simps)
qed

lemma probe_skips:
  assumes "\<not> nodeMutex m" and "drop (probeIndex m) (nodes m) = skipped @ p # rest"
    and "list_all (\<lambda>q. \<not> eligible m q) skipped" and "eligible m p"
  shows "probe e (m, w) = probeNode e (heap m p) (m\<lparr>probeIndex := probeIndex m + length skipped + 1\<rparr>, w)"
proof -
  have "length skipped < Suc (length (nodes m))"
    using arg_cong [OF assms(2), of length] by simp
  then show ?thesis
    unfolding probe_def using assms by (simp add: exec_defs list_all_iff probe_loop_skips del: probe_loop.simps)
qed

text \<open>
  C24. A round of the failure detector probes the next node in turn: starting at the current
  index, ourselves and nodes that are dead or gone are passed over, the first other node is
  probed, and the index then points behind it.
\<close>

theorem probe_next:
  assumes "\<not> nodeMutex m" and "drop (probeIndex m) (nodes m) = skipped @ p # rest"
    and "list_all (\<lambda>q. \<not> eligible m q) skipped" and "eligible m p"
  shows "probe e (m, w) = probeNode e (heap m p) (m\<lparr>probeIndex := probeIndex m + length skipped + 1\<rparr>, w)"
  using assms by (rule probe_skips)

theorem probe_next_witness:
  "probe ref_env (sample_list StateAlive, world0) =
     probeNode ref_env (sample_node ''b'' StateAlive) ((sample_list StateAlive)\<lparr>probeIndex := 2\<rparr>, world0)"
  using probe_next [of "sample_list StateAlive" "[1]" 2 "[]" ref_env world0]
  by (simp add: sample_defs eligible_def DeadOrLeft_def numeral_2_eq_2)

section \<open>The hand-over stacks\<close>

text \<open>What is handed over, in the order it is taken: the stack for alive messages first.\<close>

definition handed_over :: "memberlist \<Rightarrow> msgHandoff list" where
  "handed_over m = highPriorityMsgQueue m @ lowPriorityMsgQueue m"

definition pop_message :: "memberlist \<Rightarrow> memberlist" where
  "pop_message m =
     (if highPriorityMsgQueue m \<noteq> [] then m\<lparr>highPriorityMsgQueue := tl (highPriorityMsgQueue m)\<rparr>
      else m\<lparr>lowPriorityMsgQueue := tl (lowPriorityMsgQueue m)\<rparr>)"

definition serve :: "('w, 'e) env_scheme \<Rightarrow> msgHandoff \<Rightarrow> ('w, unit) mprog" where
  "serve e h = thenE (upd pop_message) (dispatch_broadcast e (mh_b h))"

lemma handed_over_pop: "handed_over m = h # hs \<Longrightarrow> handed_over (pop_message m) = hs"
  by (cases "highPriorityMsgQueue m") (auto simp: handed_over_def pop_message_def)

lemma getNextMessage_run:
  "getNextMessage (m, w) =
     (case handed_over m of [] \<Rightarrow> (Inr None, (m, w)) | h # hs \<Rightarrow> (Inr (Some h), (pop_message m, w)))"
  by (auto simp: getNextMessage_def handed_over_def pop_message_def exec_defs split: list.split)

lemma dispatch_outer:
  assumes "dispatch_broadcast e b (m, w) = (r, (m', w'))"
  shows "outer m' = outer m"
proof -
  have "keeps (settled (\<lambda>x. x = outer m)) (dispatch_broadcast e b)"
    unfolding dispatch_broadcast_def handleAlive_def handleDead_def handleSuspect_def
    by (intro keeps_intros keeps_settled_alive keeps_settled_dead keeps_settled_suspect)
  from keeps_run [OF this _ assms] show ?thesis
    by (simp add: settled_def)
qed

lemma dispatch_handed_over:
  "dispatch_broadcast e b (m, w) = (r, (m', w')) \<Longrightarrow> handed_over m' = handed_over m"
  by (drule dispatch_outer) (simp add: outer_def handed_over_def)

lemma drain_loop_serves:
  "length (handed_over m) < fuel \<Longrightarrow> drain_loop fuel e (m, w) = forE (handed_over m) (serve e) (m, w)"
proof (induction "handed_over m" arbitrary: m w fuel)
  case Nil
  then show ?case by (cases fuel) (simp_all add: exec_defs getNextMessage_run)
next
  case (Cons h hs)
  obtain f where f: "fuel = Suc f"
    using Cons.prems by (cases fuel) simp_all
  obtain r m' w' where d: "dispatch_broadcast e (mh_b h) (pop_message m, w) = (r, (m', w'))"
    by (metis prod.exhaust)
  have pop: "handed_over (pop_message m) = hs"
    using handed_over_pop Cons.hyps(2) [symmetric] .
  then have hs: "hs = handed_over m'"
    using dispatch_handed_over [OF d] by simp
  moreover have "length (handed_over m') < f"
    using Cons.prems Cons.hyps(2) f hs by (metis Suc_less_eq length_Cons)
  ultimately have "drain_loop f e (m', w') = forE hs (serve e) (m', w')"
    using Cons.hyps(1) by blast
  then show ?case
    using Cons.hyps(2) [symmetric] d f
    by (cases r) (simp_all add: getNextMessage_run serve_def exec_defs)
qed

text \<open>
  The packet handler serves every broadcast that was handed over and then stops: draining the
  stacks is serving, one after the other, first the alive messages and then the rest, each kind
  latest first, and each is off its stack before it is served.
\<close>

lemma drain_run: "drain e (m, w) = forE (handed_over m) (serve e) (m, w)"
  by (simp add: drain_def exec_defs drain_loop_serves handed_over_def del: drain_loop.simps)

text \<open>What a stack of a given depth becomes when messages are pushed until it is full.\<close>

definition pushed :: "nat \<Rightarrow> sockaddr_in \<Rightarrow> Broadcast list \<Rightarrow> msgHandoff list \<Rightarrow> msgHandoff list" where
  "pushed depth a bs st = rev (map (\<lambda>b. \<lparr>mh_b = b, mh_from = a\<rparr>) (take (depth - length st) bs)) @ st"

lemma pushed_Nil [simp]: "pushed d a [] st = st"
  by (simp add: pushed_def)

lemma pushed_Cons:
  "pushed d a (b # bs) st = (if length st < d then pushed d a bs (\<lparr>mh_b = b, mh_from = a\<rparr> # st) else st)"
  by (auto simp: pushed_def Suc_diff_Suc take_Cons')

definition handed :: "sockaddr_in \<Rightarrow> Broadcast list \<Rightarrow> memberlist \<Rightarrow> memberlist" where
  "handed a bs m = (let d = unat (HandoffQueueDepth (config m)) in m\<lparr>
     highPriorityMsgQueue := pushed d a (filter (\<lambda>b. bc_type b = aliveMsg) bs) (highPriorityMsgQueue m),
     lowPriorityMsgQueue := pushed d a (filter (\<lambda>b. bc_type b \<noteq> aliveMsg) bs) (lowPriorityMsgQueue m)\<rparr>)"

lemma handed_fields [simp]: "config (handed a bs m) = config m" "handoffFd (handed a bs m) = handoffFd m"
  by (simp_all add: handed_def Let_def)

lemma handed_Cons: "handed a (b # bs) m = handed a bs (handed a [b] m)"
  by (simp add: handed_def Let_def pushed_Cons) (simp add: pushed_def)

lemma wp_handoff_one:
  assumes "\<And>w'. Q (Inr ()) (handed a [b] m, w')"
    and "\<And>n m' w'. \<exists>w. fst (sys_write e (snd (handoffFd m)) [CHR 0x00] w) < 0 \<Longrightarrow> Q (Inl (WrapException n)) (m', w')"
  shows "wp (handoff_one e a b) Q (m, w)"
proof -
  have "sys_write e (snd (handoffFd m)) [CHR 0x00] v = (k, v') \<Longrightarrow> k < 0 \<Longrightarrow> Q (Inl (WrapException n)) (m', w')" for v v' k n m' w'
    using assms(2) by (metis fst_conv)
  then show ?thesis
    unfolding handoff_one_def using assms(1)
    by (auto simp: wp_simps Write_def handed_def Let_def pushed_Cons)
qed

text \<open>
  A packet of broadcasts is handed over in order: alive messages go to their own stack and
  all others to the second one, each until its stack has reached the configured depth, beyond
  which messages are dropped. Only a failing write to the hand-over pipe interrupts this.
\<close>

lemma handleComBroadcast_hands_over:
  "wp (handleComBroadcast e cbc a)
     (\<lambda>r s. (r = Inr () \<and> fst s = handed a (cbc_bs cbc) m) \<or>
        ((\<exists>n. r = Inl (WrapException n)) \<and> (\<exists>w. fst (sys_write e (snd (handoffFd m)) [CHR 0x00] w) < 0))) (m, w)"
proof -
  have "wp (forE bs (handoff_one e a))
     (\<lambda>r s. (r = Inr () \<and> fst s = handed a bs m) \<or>
        ((\<exists>n. r = Inl (WrapException n)) \<and> (\<exists>w. fst (sys_write e (snd (handoffFd m)) [CHR 0x00] w) < 0))) (m, w)" for bs
  proof (induction bs arbitrary: m w)
    case Nil
    then show ?case by (simp add: wp_simps handed_def)
  next
    case (Cons b bs)
    have "wp (forE bs (handoff_one e a))
       (\<lambda>r s. (r = Inr () \<and> fst s = handed a (b # bs) m) \<or>
          ((\<exists>n. r = Inl (WrapException n)) \<and> (\<exists>w. fst (sys_write e (snd (handoffFd m)) [CHR 0x00] w) < 0)))
       (handed a [b] m, w')" for w'
      using Cons.IH [of "handed a [b] m" w'] by (simp add: handed_Cons [of a b bs])
    then show ?case
      unfolding forE.simps wp_thenE by (auto intro!: wp_handoff_one)
  qed
  then show ?thesis
    unfolding handleComBroadcast_def .
qed

end
