(* ===== verification/Outcomes.thy ===== *)
theory Outcomes
  imports Lifecycle Rounds
begin

text \<open>
  That the loops of the program end. A loop of the model that is not bounded by its data has
  a bound on its rounds and ends in \<open>OutOfFuel\<close> when the bound does not suffice; here every
  task, handler, listener and public operation is shown never to end that way. The queries of
  the table and the destructor have no such loop and are left out.
\<close>

abbreviation ends :: "('s, 'a) prog \<Rightarrow> bool" where
  "ends m \<equiv> may (- {OutOfFuel}) m"

text \<open>Where an exception is caught, it may be thrown.\<close>

lemma ends_or_throws: "- {OutOfFuel} \<union> range WrapException = - {OutOfFuel}"
  by auto

section \<open>The platform and the components\<close>

lemma ends_call [may_intros]: "ends (call f)" "ends (call_blocking g)"
  by (auto intro!: mayI simp: wp_simps)

lemma may_case_prod_fun [may_intros]:
  "(\<And>a b. x = (a, b) \<Longrightarrow> may E (f a b y)) \<Longrightarrow> may E ((case x of (a, b) \<Rightarrow> f a b) y)"
  by (cases x) simp

lemma ends_checked [may_intros]: "ends m \<Longrightarrow> ends (checked e code m)"
  unfolding checked_def throwErrno_def by (intro may_intros) auto

lemma ends_wrappers [may_intros]:
  "ends (Socket e d t p)" "ends (Write e fd buf)" "ends (Read e fd n)" "ends (Close e fd)" "ends (Sendto e fd buf a)"
  "ends (Recvfrom e fd n)" "ends (Pipe e)" "ends (Pipe2 e fl)" "ends (Select e nfds fds tv)" "ends (Accept e fd)"
  "ends (timeval_usec e us)"
  unfolding Socket_def Write_def Read_def Close_def Sendto_def Recvfrom_def Pipe_def Pipe2_def Select_def Accept_def
    timeval_usec_def
  by (intro may_intros)+

lemma ends_ConnectTimeout [may_intros]: "ends (ConnectTimeout e fd a t)"
  unfolding ConnectTimeout_def connect_done_def connect_wait_def throwErrno_def by (intro may_intros) simp_all

lemma ends_int64 [may_intros]: "ends (int64 x)"
  unfolding int64_def by (intro may_intros; simp)

lemma ends_net [may_intros]: "ends (encodeSendTCP e fd md)" "ends (encodeSendUDP e fd a md)"
  "ends (decodeReceiveUDP e fd)" "ends (decodeReceiveTCP e fd)"
  unfolding encodeSendTCP_def encodeSendUDP_def decodeReceiveUDP_def decodeReceiveTCP_def parse_buffer_def
  by (intro may_intros; simp)+

lemma ends_node [may_intros]: "ends (FullAddr e n)" "ends (new_nodeState e n i s)" "ends (LogCoon e fd)"
  "ends (Read_object e fd k)" "ends (Write_ack e fd am)"
  unfolding FullAddr_def new_nodeState_def LogCoon_def Read_object_def Write_ack_def by (intro may_intros; simp?)+

lemma ends_join [may_intros]: "ends (join_in_destructor me h)" "ends (start_runner e me h)"
  unfolding join_in_destructor_def start_runner_def join_thread_def
  by (auto intro!: mayI simp: wp_simps split: option.splits)

lemma ends_timers [may_intros]: "ends (onceTimer_Run e me h)" "ends (repeatTimer_Run e me h)" "ends onceTimer_Stop"
  "ends repeatTimer_Stop" "ends (onceTimer_destroy me h)" "ends (repeatTimer_destroy me h)"
  unfolding onceTimer_Run_def repeatTimer_Run_def onceTimer_Stop_def repeatTimer_Stop_def onceTimer_destroy_def
    repeatTimer_destroy_def
  by (intro may_intros)+

lemma double_ends: "double_to_int64 x \<noteq> Inl OutOfFuel"
  by (simp add: double_to_int64_def)

lemma ends_suspicion [may_intros]: "ends (new_suspicion e me h from k mn mx f)" "ends (Confirm e me h from)"
  "ends (suspicion_destroy me h)"
proof -
  have "suspicion_timeout e n k mn mx \<noteq> Inl OutOfFuel" for n k mn mx
    by (auto simp: suspicion_timeout_def Let_def double_ends)
  then have "ends (remainingSuspicionTime e)"
    unfolding remainingSuspicionTime_def by (intro may_intros) auto
  then show "ends (Confirm e me h from)"
    unfolding Confirm_def sus_timer_def timer_Restart_def by (intro may_intros)
  show "ends (new_suspicion e me h from k mn mx f)" "ends (suspicion_destroy me h)"
    unfolding new_suspicion_def suspicion_destroy_def sus_timer_def by (intro may_intros)+
qed

lemma ends_QueueBroadcast [may_intros]: "ends (QueueBroadcast e b)"
  unfolding QueueBroadcast_def queueBroadcast_def deleteItem_def Finished_def Let_def by (intro may_intros)

lemma ends_shuffle [may_intros]: "ends (random_shuffle e xs)"
proof -
  have "ends (shuffle_from k i e xs)" for k i
    by (induction k arbitrary: i xs) (simp_all only: shuffle_from.simps, (intro may_intros | assumption)+)
  then show ?thesis
    unfolding random_shuffle_def .
qed

lemma ends_kRandomNodes [may_intros]:
  assumes "\<And>n. ends (exclude n)"
  shows "ends (kRandomNodes e k ns exclude)"
proof -
  have "ends (kRandomNodes_loop i e k ns exclude kn)" for i kn
    by (induction i arbitrary: kn) (simp_all only: kRandomNodes_loop.simps, (intro may_intros assms | assumption)+)
  then show ?thesis
    unfolding kRandomNodes_def .
qed

section \<open>The node table\<close>

lemma ends_node_lock [may_intros]: "ends p \<Longrightarrow> ends (node_lock p)"
  by (rule mayI) (auto simp: wp_node_lock intro!: wp_mono [OF mayD])

lemma ends_table_parts [may_intros]: "ends (now_us e)" "ends (set_node p f)" "ends nextSeqNum" "ends nextIncarnation"
  "ends (onlyBroadcast e n b)" "ends (BroadcastNotify e n b fd)" "ends (erase_timer n)"
  unfolding now_us_def set_node_def nextSeqNum_def nextIncarnation_def onlyBroadcast_def BroadcastNotify_def on_queue_def
    erase_timer_def
  by (intro may_intros)+

lemma ends_refute [may_intros]: "ends (refute e p i)"
  unfolding refute_def skipIncarnation_def by (intro may_intros)

lemma ends_deadNode [may_intros]: "ends (deadNode e b)"
  unfolding deadNode_def dead_apply_def mark_dead_def Let_def by (intro may_intros)

lemma ends_callback [may_intros]: "ends (suspicion_callback e f)"
  unfolding suspicion_callback_def by (intro may_intros)

lemma ends_suspectNode [may_intros]: "ends (suspectNode e b)"
proof -
  have "suspicionTimeout e k n i \<noteq> Inl OutOfFuel" for k n i
    by (simp add: suspicionTimeout_def Let_def double_ends)
  then have "ends (start_suspicion e s now)" for s now
    unfolding start_suspicion_def Let_def by (intro may_intros) auto
  then show ?thesis
    unfolding suspectNode_def suspect_apply_def mark_suspect_def confirm_suspicion_def Let_def by (intro may_intros)
qed

lemma ends_aliveNode [may_intros]: "ends (aliveNode e b bs fd)"
  unfolding aliveNode_def alive_lookup_def alive_apply_def insert_random_def new_object_def Let_def by (intro may_intros)

lemma ends_merge [may_intros]: "ends (mergeRemoteState e pp)"
  unfolding mergeRemoteState_def mergeNodeState_def by (intro may_intros)

section \<open>Tasks and handlers\<close>

lemma ends_exchange [may_intros]: "ends (sendLocalState e fd j)" "ends (pushPullNode e a j)"
proof -
  show send: "ends (sendLocalState e fd j)" for fd
    unfolding sendLocalState_def by (intro may_intros)
  show "ends (pushPullNode e a j)"
    unfolding pushPullNode_def sendAndReceiveState_def set_transfer_timeouts_def by (intro may_intros send)
qed

lemma ends_random_members [may_intros]: "(\<And>n. ends (ex n)) \<Longrightarrow> ends (random_members e k ex)"
  unfolding random_members_def by (intro may_intros)

lemma ends_handler_map [may_intros]: "ends (release_handler n)" "ends (put_handler n ah)"
  unfolding put_handler_def release_handler_def ackHandler_destroy_def by (intro may_intros)+

lemma ends_probeNode [may_intros]: "ends (probeNode e node)"
  unfolding probeNode_def setProbePipes_def direct_probe_def indirect_probe_def clearProbePipes_def Let_def
  by (intro may_intros)

lemma ends_probe_loop:
  assumes "k \<le> length (nodes m)" and "length (nodes m) < k + fuel"
  shows "wp (probe_loop fuel e k) (\<lambda>r s. r \<noteq> Inl OutOfFuel) (m, w)"
  using assms
proof (induction fuel arbitrary: k m w)
  case (Suc fuel)
  have node: "wp (probeNode e node) (\<lambda>r s. r \<noteq> Inl OutOfFuel) s" for node s
    by (rule wp_mono [OF mayD [OF ends_probeNode]]) auto
  show ?case
    using Suc.prems
    by (auto simp: probe_step_def wp_simps node dest: mset_eq_length intro!: wp_random_shuffle Suc.IH split: probeStep.split)
qed simp

lemma ends_probe [may_intros]: "ends (probe e)"
  unfolding probe_def by (rule mayI) (auto simp: wp_simps simp del: probe_loop.simps intro!: wp_mono [OF ends_probe_loop])

lemma ends_drain [may_intros]: "ends (drain e)"
proof -
  have "ends (dispatch_broadcast e b)" for b
    unfolding dispatch_broadcast_def handleAlive_def handleDead_def handleSuspect_def by (intro may_intros)
  then have served: "ends (forE hs (serve e))" for hs
    unfolding serve_def by (intro may_intros)
  show ?thesis
  proof (rule mayI)
    fix s :: "memberlist \<times> 'a"
    show "wp (drain e) (\<lambda>r s'. \<forall>x. r = Inl x \<longrightarrow> x \<in> - {OutOfFuel}) s"
      using mayD [OF served, of "handed_over (fst s)" s] by (cases s) (simp add: wp_def drain_run)
  qed
qed

text \<open>
  Gossip takes packets from the queue, whose loop ends while the queue is consistent and no
  message has been sent \<open>2 ^ 31\<close> times, which its limit prevents.
\<close>

definition queue_ok :: "broadcastQueue \<Rightarrow> bool" where
  "queue_ok q \<longleftrightarrow> bq_inv q \<and> idGen q \<noteq> UINT32_MAX \<and> (\<forall>x \<in> set (tq q). unat (transmits x) < 2 ^ 31 - 1)"

lemma limit_small:
  assumes "ieee_rounding (fp_round e)" and "retransmitLimit e k n = Inr tlim"
  shows "unat tlim < 2 ^ 31"
proof -
  have n: "n \<noteq> UINT32_MAX"
    using assms(2) by (auto simp: retransmitLimit_def)
  have digits: "decimal_digits (unat n) \<le> 10"
    using unsigned_less [of n, where ?'a = nat] by (intro decimal_digits_le) simp
  have "unat k \<le> 255"
    using unsigned_less [of k, where ?'a = nat] by simp
  then have "unat k * decimal_digits (unat n) \<le> 255 * 10"
    using digits by (intro mult_le_mono)
  then show ?thesis
    using assms retransmitLimit_eq [OF assms(1) n] retransmit_product [OF digits, of k] by simp
qed

lemma queue_ok_sent:
  assumes "queue_ok q" and "gb_post q cbc space tlim (Inr a) s" and "unat tlim < 2 ^ 31"
  shows "queue_ok (fst s)"
  using assms(2)
proof (cases rule: gb_post_cases)
  case (packet S h)
  have "unat (transmits y) < 2 ^ 31 - 1" if y: "y \<in> set (tq (fst s))" for y
  proof (cases "y \<in> set (tq q)")
    case False
    then obtain x where "y = bumped x" "transmits x + 1 < tlim" "x \<in> set S"
      using y packet(9) by auto
    then show ?thesis
      using assms(3) by (simp add: bumped_def word_less_nat_alt)
  qed (use assms(1) in \<open>simp add: queue_ok_def\<close>)
  then show ?thesis
    using packet(8) assms(1,2) by (auto simp: queue_ok_def gb_post_def)
qed simp

lemma wp_getBroadcasts_ok:
  assumes "ieee_rounding (fp_round e)" and "queue_ok (TransmitLimitedQueue m)"
    and "\<And>a m' w'. queue_ok (TransmitLimitedQueue m') \<Longrightarrow> Q (Inr a) (m', w')"
    and "\<And>x m' w'. x \<noteq> OutOfFuel \<Longrightarrow> Q (Inl x) (m', w')"
  shows "wp (getBroadcasts e overhead limit cbc) Q (m, w)"
proof (cases "retransmitLimit e (RetransmitMult (TransmitLimitedQueue m)) (EstNumNodes m)")
  case (Inl x)
  then have "x \<noteq> OutOfFuel"
    by (auto simp: retransmitLimit_def double_to_uint32_def split: if_splits)
  then show ?thesis
    using Inl assms(2-4) by (auto simp: getBroadcasts_def on_queue_def GetBroadcasts_def wp_simps)
next
  case (Inr tlim)
  note q = assms(2) [unfolded queue_ok_def]
  show ?thesis
    unfolding getBroadcasts_def on_queue_def wp_bindE wp_obj wp_zoom
  proof (clarsimp, rule wp_mono [OF wp_GetBroadcasts])
    fix r and s :: "broadcastQueue \<times> 'a" assume post: "gb_post (TransmitLimitedQueue m) cbc (limit - overhead) tlim r s"
    show "Q r (m\<lparr>TransmitLimitedQueue := fst s\<rparr>, snd s)"
    proof (cases r)
      case (Inl x)
      then show ?thesis
        using post assms(4) by (auto simp: gb_post_def)
    next
      case (Inr a)
      then have "queue_ok (fst s)"
        using queue_ok_sent [OF assms(2) post [unfolded Inr] limit_small [OF assms(1) \<open>retransmitLimit _ _ _ = Inr tlim\<close>]]
        by simp
      then show ?thesis
        using Inr assms(3) by simp
    qed
  qed (use q Inr in auto)
qed

lemma wp_ends_keeps:
  assumes "ends p" and "keeps P p" and "P (fst s)"
    and "\<And>a s'. P (fst s') \<Longrightarrow> Q (Inr a) s'" and "\<And>x s'. x \<noteq> OutOfFuel \<Longrightarrow> Q (Inl x) s'"
  shows "wp p Q s"
proof (rule wpI)
  fix r s' assume run: "p s = (r, s')"
  show "Q r s'"
  proof (cases r)
    case (Inl x)
    then show ?thesis
      using may_run [OF assms(1)] run assms(5) by auto
  next
    case (Inr a)
    then show ?thesis
      using wp_run [OF keepsD [OF assms(2,3)] run] assms(4) by simp
  qed
qed

lemma ends_gossip:
  assumes "ieee_rounding (fp_round e)" and "queue_ok (TransmitLimitedQueue m)"
  shows "wp (gossip e) (\<lambda>r s. r \<noteq> Inl OutOfFuel) (m, w)"
proof -
  let ?P = "\<lambda>m. queue_ok (TransmitLimitedQueue m)"
  have loop: "wp (gossip_loop ns e) (\<lambda>r s. r \<noteq> Inl OutOfFuel) s" if "?P (fst s)" for ns s
    using that
  proof (induction ns arbitrary: s)
    case (Cons n ns)
    have send: "wp (world (encodeSendUDP e fd a md)) (\<lambda>r s'. (\<forall>x. r = Inl x \<longrightarrow> x \<noteq> OutOfFuel) \<and>
        (r = Inr () \<longrightarrow> wp (gossip_loop ns e) (\<lambda>r s. r \<noteq> Inl OutOfFuel) s')) s'" if "?P (fst s')" for fd a md s'
      using that by (intro wp_ends_keeps [of _ ?P]) (auto intro!: may_intros keeps_intros Cons.IH)
    show ?case
      using Cons.prems send
      by (cases s) (auto simp: wp_bindE wp_thenE wp_obj wp_if wp_ret wp_case_prod wp_world wp_FullAddr
          intro!: wp_getBroadcasts_ok [OF assms(1)])
  qed (simp add: wp_simps)
  have "ends (gossip_exclude e c n)" for c n
    unfolding gossip_exclude_def by (intro may_intros; simp split: NodeStateType.split; intro conjI impI may_intros)
  then have "wp (random_members e k (gossip_exclude e c)) (\<lambda>r s'. (\<forall>x. r = Inl x \<longrightarrow> x \<noteq> OutOfFuel) \<and>
     (\<forall>v. r = Inr v \<longrightarrow> wp (gossip_loop v e) (\<lambda>r s. r \<noteq> Inl OutOfFuel) s')) (m, w)" for k c
    using assms(2)
    by (intro wp_ends_keeps [of _ ?P]) (auto intro!: may_intros keeps_intros loop simp: random_members_def)
  then show ?thesis
    unfolding gossip_def by (simp add: wp_bindE wp_obj)
qed

lemma ends_pushPull [may_intros]: "ends (pushPull e)"
  unfolding pushPull_def by (intro may_intros | simp only: ends_or_throws)+

lemma ends_handlers [may_intros]: "ends (handleCommand e md a ts)" "ends (handleConn e fd)"
proof -
  have "ends (run_ackFn e f ts)" for f
    unfolding run_ackFn_def by (cases f) (simp_all, (intro may_intros)+)
  moreover have "ends (run_nackFn e f)" for f
    unfolding run_nackFn_def by (cases f) (simp, intro may_intros)
  ultimately show "ends (handleCommand e md a ts)"
    unfolding handleCommand_def handlePing_udp_def handleIndirectPing_def setAckHandler_def handleAck_def
      ackHandler_destroy_def handleNack_def handleUser_def handleComBroadcast_def handoff_one_def Let_def
    by (intro may_intros)
  show "ends (handleConn e fd)"
    unfolding handleConn_def handlePushPull_def handlePing_tcp_def handleUser_def set_transfer_timeouts_def
    by (intro may_intros)
qed

lemma ends_listeners [may_intros]: "ends (streamListen_round e)" "ends (packetListen_round e)" "ends (packetHandler_round e)"
  unfolding streamListen_round_def packetListen_round_def packetHandler_round_def listen_round_def
  by (intro may_intros)+

lemma ends_detached [may_intros]: "ends (run_detached e t)"
  unfolding run_detached_def sendPingAndWaitForAck_def set_transfer_timeouts_def
  by (cases t) (simp_all, (intro may_intros)+)

section \<open>Public operations\<close>

lemma ends_ShutDown [may_intros]: "ends (ShutDown e)"
  unfolding ShutDown_def deschedule_def reset_task_def by (intro may_intros)

lemma ends_operations [may_intros]: "ends (Join e addr)" "ends (Leave e t)" "ends (UpdateNode e t)"
  "ends (SendBestEffort e n msg)" "ends (SendReliable e n msg)"
proof -
  have loop: "ends (join_loop k e a)" for k a
    by (induction k) (simp_all only: join_loop.simps, (intro may_intros | assumption | simp add: ends_or_throws)+)
  have "stoul s \<noteq> Inl OutOfFuel" for s
    by (auto simp: stoul_def Let_def)
  then have "ends (resolveAddr e addr)"
    unfolding resolveAddr_def Let_def by (intro may_intros) auto
  then show "ends (Join e addr)"
    unfolding Join_def by (intro may_intros loop)
  show "ends (Leave e t)" "ends (UpdateNode e t)"
    unfolding Leave_def UpdateNode_def local_entry_def anyAlive_def await_pipe_def by (intro may_intros; simp)+
  show "ends (SendBestEffort e n msg)" "ends (SendReliable e n msg)"
    unfolding SendBestEffort_def SendReliable_def by (intro may_intros)+
qed

end
