(* ===== verification/Locking.thy ===== *)
theory Locking
  imports Lifecycle
begin

text \<open>
  The mutex of the node table is free between operations: whatever an operation of the member
  list does, when it ends, by returning or by an exception, it has released \<^verbatim>\<open>nodeMutex\<close>. Only
  a deadlock ends with the mutex held. So the theorems that ask for a free mutex apply in every
  state a running node can reach.
\<close>

section \<open>Programs that release the mutex\<close>

named_theorems unlocks_intros

definition unlocks :: "('w, 'a) mprog \<Rightarrow> bool" where
  "unlocks p \<longleftrightarrow>
     (\<forall>s. \<not> nodeMutex (fst s) \<longrightarrow> wp p (\<lambda>r s'. r \<noteq> Inl Deadlock \<longrightarrow> \<not> nodeMutex (fst s')) s)"

lemma unlocksI:
  "(\<And>m w. \<not> nodeMutex m \<Longrightarrow> wp p (\<lambda>r s'. r \<noteq> Inl Deadlock \<longrightarrow> \<not> nodeMutex (fst s')) (m, w)) \<Longrightarrow> unlocks p"
  by (simp add: unlocks_def)

lemma unlocksD: "unlocks p \<Longrightarrow> \<not> nodeMutex (fst s) \<Longrightarrow> wp p (\<lambda>r s'. r \<noteq> Inl Deadlock \<longrightarrow> \<not> nodeMutex (fst s')) s"
  unfolding unlocks_def by blast

lemma unlocks_run:
  "unlocks p \<Longrightarrow> \<not> nodeMutex m \<Longrightarrow> p (m, w) = (r, (m', w')) \<Longrightarrow> r \<noteq> Inl Deadlock \<Longrightarrow> \<not> nodeMutex m'"
  using wp_run [OF unlocksD] by fastforce

text \<open>A locked block releases the mutex whatever it does.\<close>

lemma unlocks_node_lock [unlocks_intros]: "unlocks (node_lock p)"
  by (rule unlocksI) (simp add: wp_simps)

lemma unlocks_atomic [unlocks_intros]:
  "unlocks (ret a)" "unlocks (raise x)" "unlocks (obj f)" "unlocks (world p)" "unlocks (on_object v q)"
  by (simp_all add: unlocks_def wp_simps)

lemma unlocks_upd [unlocks_intros]: "(\<And>m. nodeMutex (f m) = nodeMutex m) \<Longrightarrow> unlocks (upd f)"
  by (simp add: unlocks_def wp_simps)

lemma unlocks_bindE [unlocks_intros]:
  assumes "unlocks p" and "\<And>a. unlocks (f a)"
  shows "unlocks (bindE p f)"
  unfolding unlocks_def wp_bindE
  by (intro allI impI wp_mono [OF unlocksD [OF assms(1)]]) (auto intro: unlocksD [OF assms(2)])

lemma unlocks_thenE [unlocks_intros]: "unlocks p \<Longrightarrow> unlocks q \<Longrightarrow> unlocks (thenE p q)"
  unfolding thenE_def by (rule unlocks_bindE)

lemma unlocks_catchWrap [unlocks_intros]:
  assumes "unlocks p" and "\<And>x. unlocks (h x)"
  shows "unlocks (catchWrap p h)"
  unfolding unlocks_def wp_catchWrap
  by (intro allI impI wp_mono [OF unlocksD [OF assms(1)]]) (auto intro: unlocksD [OF assms(2)])

lemma unlocks_finallyE [unlocks_intros]:
  assumes "unlocks p" and "unlocks d"
  shows "unlocks (finallyE p d)"
proof (rule unlocksI)
  fix m :: memberlist and w :: 'a
  assume m: "\<not> nodeMutex m"
  obtain r m' w' where p: "p (m, w) = (r, (m', w'))"
    by (metis prod.exhaust)
  have "wp (thenE d q) (\<lambda>r s'. r \<noteq> Inl Deadlock \<longrightarrow> \<not> nodeMutex (fst s')) (m', w')"
    if "unlocks q" "r \<noteq> Inl Deadlock" for q :: "('a, 'b) mprog"
    using unlocks_run [OF assms(1) m p that(2)] by (intro unlocksD unlocks_thenE assms(2) that(1)) simp
  from this [OF unlocks_atomic(1)] this [OF unlocks_atomic(2)] unlocks_run [OF assms(1) m p]
  show "wp (finallyE p d) (\<lambda>r s'. r \<noteq> Inl Deadlock \<longrightarrow> \<not> nodeMutex (fst s')) (m, w)"
    by (auto simp: wp_def finallyE_def p split: sum.split exn.split)
qed

lemma unlocks_forE [unlocks_intros]: "(\<And>x. unlocks (f x)) \<Longrightarrow> unlocks (forE xs f)"
  by (induction xs) (simp_all add: unlocks_atomic unlocks_thenE)

lemma unlocks_cases [unlocks_intros]:
  "(b \<Longrightarrow> unlocks p) \<Longrightarrow> (\<not> b \<Longrightarrow> unlocks q) \<Longrightarrow> unlocks (if b then p else q)"
  "unlocks (g v) \<Longrightarrow> unlocks (let y = v in g y)"
  "unlocks p \<Longrightarrow> (\<And>a. unlocks (h a)) \<Longrightarrow> unlocks (case opt of None \<Rightarrow> p | Some a \<Rightarrow> h a)"
  "(\<And>a b. unlocks (k a b)) \<Longrightarrow> unlocks (case pair of (a, b) \<Rightarrow> k a b)"
  "unlocks p \<Longrightarrow> (\<And>z zs. unlocks (l z zs)) \<Longrightarrow> unlocks (case list of [] \<Rightarrow> p | z # zs \<Rightarrow> l z zs)"
  by (simp_all split: option.split prod.split list.split)

lemma unlocks_queue [unlocks_intros]: "unlocks (on_queue p)"
  by (simp add: unlocks_def on_queue_def wp_simps)

section \<open>The operations\<close>

lemma unlocks_handlers [unlocks_intros]:
  "unlocks (aliveNode e b bs fd)" "unlocks (suspectNode e b)" "unlocks (deadNode e b)" "unlocks (suspicion_callback e f)"
  "unlocks (mergeNodeState e pns)" "unlocks (mergeRemoteState e pp)"
  unfolding aliveNode_def suspectNode_def deadNode_def suspicion_callback_def mergeNodeState_def mergeRemoteState_def
  by (intro unlocks_intros)+

lemma unlocks_exchange [unlocks_intros]: "unlocks (sendLocalState e fd j)" "unlocks (sendAndReceiveState e a j)"
  "unlocks (pushPullNode e a j)" "unlocks (random_members e k ex)"
  unfolding sendLocalState_def sendAndReceiveState_def pushPullNode_def random_members_def by (intro unlocks_intros)+

lemma unlocks_gossip_loop [unlocks_intros]: "unlocks (gossip_loop ns e)"
  by (induction ns) (simp_all, (intro unlocks_intros | simp add: getBroadcasts_def)+)

lemma unlocks_acks [unlocks_intros]: "unlocks (release_handler n)" "unlocks (put_handler n ah)" "unlocks (setProbePipes e n a b i)"
  "unlocks (setAckHandler n g t)"
  unfolding release_handler_def put_handler_def setProbePipes_def setAckHandler_def ackHandler_destroy_def Let_def
  by (intro unlocks_intros; simp)+

lemma unlocks_blocks [unlocks_intros]: "unlocks (now_us e)" "unlocks (int64 x)" "unlocks nextSeqNum" "unlocks nextIncarnation"
  unfolding now_us_def int64_def nextSeqNum_def nextIncarnation_def by (intro unlocks_intros; simp)+

lemma unlocks_probeNode [unlocks_intros]: "unlocks (probeNode e node)"
  unfolding probeNode_def direct_probe_def indirect_probe_def Let_def by (intro unlocks_intros; simp)

lemma unlocks_probe_loop [unlocks_intros]: "unlocks (probe_loop fuel e n)"
  by (induction fuel arbitrary: n)
    (simp_all add: probe_step_def, (intro unlocks_intros | simp split: probeStep.split | safe)+)

lemma unlocks_tasks [unlocks_intros]: "unlocks (run_task e t)" "unlocks (ack_timeout e k)"
proof -
  have "unlocks (probe e)" "unlocks (pushPull e)" "unlocks (gossip e)"
    unfolding probe_def pushPull_def gossip_def by (intro unlocks_intros)+
  then show "unlocks (run_task e t)"
    by (cases t) (simp_all add: run_task_def)
  show "unlocks (ack_timeout e k)"
    unfolding ack_timeout_def by (cases k) (simp, intro unlocks_intros)
qed

lemma unlocks_handleCommand [unlocks_intros]: "unlocks (handleCommand e md a ts)"
proof -
  have "unlocks (run_ackFn e g ts)" "unlocks (run_nackFn e h)" for g ts h
    by (cases g; simp add: run_ackFn_def; intro unlocks_intros) (cases h; simp add: run_nackFn_def; intro unlocks_intros)
  then have "unlocks (handleAck e ack ts)" "unlocks (handleNack e nack)" for ack nack
    unfolding handleAck_def handleNack_def ackHandler_destroy_def by (intro unlocks_intros; simp)+
  moreover have "unlocks (handleIndirectPing e ip a)" "unlocks (handlePing_udp e p a)" "unlocks (handoff_one e a b)" for ip p b
    unfolding handleIndirectPing_def handlePing_udp_def handoff_one_def Let_def by (intro unlocks_intros; simp)+
  ultimately show ?thesis
    unfolding handleCommand_def handleComBroadcast_def handleUser_def by (intro unlocks_intros)
qed

lemma unlocks_connections [unlocks_intros]: "unlocks (handleConn e fd)"
  unfolding handleConn_def handlePushPull_def handlePing_tcp_def handleUser_def by (intro unlocks_intros; simp)

lemma unlocks_dispatch [unlocks_intros]: "unlocks (dispatch_broadcast e b)" "unlocks getNextMessage"
  unfolding dispatch_broadcast_def handleAlive_def handleDead_def handleSuspect_def getNextMessage_def
  by (intro unlocks_intros; simp)+

lemma unlocks_drain_loop [unlocks_intros]: "unlocks (drain_loop fuel e)"
  by (induction fuel) (simp_all, (intro unlocks_intros | assumption)+)

lemma unlocks_listeners [unlocks_intros]: "unlocks (streamListen_round e)" "unlocks (packetListen_round e)"
  "unlocks (packetHandler_round e)"
  unfolding streamListen_round_def packetListen_round_def packetHandler_round_def listen_round_def drain_def
  by (intro unlocks_intros; simp)+

lemma unlocks_detached [unlocks_intros]: "unlocks (run_detached e t)"
  unfolding run_detached_def sendPingAndWaitForAck_def
  by (cases t; simp; intro unlocks_intros)

section \<open>Public operations\<close>

lemma unlocks_public [unlocks_intros]: "unlocks (Join e addr)" "unlocks (Leave e t)" "unlocks (UpdateNode e t)" "unlocks (ShutDown e)"
  "unlocks (SendBestEffort e n s)" "unlocks (SendReliable e n s)"
proof -
  show shut: "unlocks (ShutDown e)" for e :: "('w, 'e) env_scheme"
    unfolding ShutDown_def by (rule unlocks_node_lock)
  have "unlocks (join_loop k e a)" for k a
    by (induction k) (simp_all only: join_loop.simps, (intro unlocks_intros shut | assumption)+)
  then show "unlocks (Join e addr)"
    unfolding Join_def by (intro unlocks_intros)
  show "unlocks (Leave e t)" "unlocks (UpdateNode e t)" "unlocks (SendBestEffort e n s)" "unlocks (SendReliable e n s)"
    unfolding Leave_def UpdateNode_def SendBestEffort_def SendReliable_def anyAlive_def NumMembers_def local_entry_def
    by (intro unlocks_intros; simp)+
qed

end
