(* ===== verification/Runs.thy ===== *)
theory Runs
  imports Timeouts Outcomes Locking
begin

text \<open>
  Runs of a node: from the constructor on, its threads take steps. A step is one round of a
  listener, one firing of a timer, one detached thread, or one public operation, executed by
  some thread; between steps the world outside may change in any way. A step runs to its end
  before the next one begins: the operations take \<^verbatim>\<open>nodeMutex\<close> for every access to the table, and
  races on what that mutex does not protect are outside the model.
\<close>

section \<open>Steps\<close>

datatype event =
    Scheduled schedTask
  | StreamListen
  | PacketListen
  | PacketHandler
  | Thread detachedThread
  | SuspicionTimeout suspicionTask
  | AckExpired ackTask
  | CallJoin string
  | CallLeave int
  | CallUpdate int
  | CallShutDown
  | CallSendBestEffort Node string
  | CallSendReliable Node string

text \<open>
  A timer fires while it is running, on its own thread; a detached thread runs once, after it
  has been started. \<open>self\<close> is the thread that takes the step.
\<close>

definition fires :: "'t \<Rightarrow> nat \<Rightarrow> 't timer \<Rightarrow> bool" where
  "fires k me t \<longleftrightarrow> running t \<and> task t = Some k \<and> map_option th_id (t_thread t) = Some me"

fun enabled :: "memberlist \<Rightarrow> event \<Rightarrow> bool" where
  "enabled m (Scheduled k) = (\<exists>t \<in> set (schedule_timer m). \<exists>t'. t = Some t' \<and> fires k (self m) t')"
| "enabled m (Thread t) = (t \<in> set (detached m))"
| "enabled m (SuspicionTimeout f) = (\<exists>(n, s) \<in> set (nodeTimers m). fires f (self m) (sus_t s))"
| "enabled m (AckExpired k) = (\<exists>(n, ah) \<in> set (ackHandlers m). fires k (self m) (ah_t ah))"
| "enabled m ev = True"

text \<open>What the runner does to its own timer, wherever it is kept.\<close>

definition schedule_runner :: "(schedTask timer \<Rightarrow> schedTask timer) \<Rightarrow> ('w, unit) mprog" where
  "schedule_runner g =
     upd (\<lambda>m. m\<lparr>schedule_timer := map (map_option (own_timer (self m) g)) (schedule_timer m)\<rparr>)"

definition suspicion_runner :: "(suspicionTask timer \<Rightarrow> suspicionTask timer) \<Rightarrow> ('w, unit) mprog" where
  "suspicion_runner g =
     upd (\<lambda>m. m\<lparr>nodeTimers := map (apsnd (\<lambda>s. s\<lparr>sus_t := own_timer (self m) g (sus_t s)\<rparr>)) (nodeTimers m)\<rparr>)"

definition ack_runner :: "(ackTask timer \<Rightarrow> ackTask timer) \<Rightarrow> ('w, unit) mprog" where
  "ack_runner g =
     upd (\<lambda>m. m\<lparr>ackHandlers := map (apsnd (\<lambda>h. h\<lparr>ah_t := own_timer (self m) g (ah_t h)\<rparr>)) (ackHandlers m)\<rparr>)"

definition discard :: "('w, 'a) mprog \<Rightarrow> ('w, unit) mprog" where
  "discard p = bindE p (\<lambda>_. ret ())"

text \<open>
  The tasks of the member list and the callback of a suspicion begin by locking \<^verbatim>\<open>nodeMutex\<close>; an
  acknowledgement's timer begins with a write.
\<close>

fun run_event :: "('w, 'e) env_scheme \<Rightarrow> event \<Rightarrow> ('w, unit) mprog" where
  "run_event e (Scheduled k) =
     thenE (schedule_runner (runner_wakes LockingNodeMutex)) (thenE (run_task e k) (schedule_runner repeatTimer_task_done))"
| "run_event e StreamListen = discard (streamListen_round e)"
| "run_event e PacketListen = discard (packetListen_round e)"
| "run_event e PacketHandler = discard (packetHandler_round e)"
| "run_event e (Thread t) = thenE (upd (\<lambda>m. m\<lparr>detached := remove1 t (detached m)\<rparr>)) (run_detached e t)"
| "run_event e (SuspicionTimeout f) =
     thenE (suspicion_runner (runner_wakes LockingNodeMutex)) (thenE (suspicion_callback e f) (suspicion_runner onceTimer_task_done))"
| "run_event e (AckExpired k) =
     thenE (ack_runner (runner_wakes InTask)) (thenE (ack_timeout e k) (ack_runner onceTimer_task_done))"
| "run_event e (CallJoin a) = Join e a"
| "run_event e (CallLeave t) = Leave e t"
| "run_event e (CallUpdate t) = UpdateNode e t"
| "run_event e CallShutDown = ShutDown e"
| "run_event e (CallSendBestEffort n s) = SendBestEffort e n s"
| "run_event e (CallSendReliable n s) = SendReliable e n s"

text \<open>
  The process goes on after a normal return and after an exception the caller of a public
  operation may catch; an exception nobody catches ends it, and every other outcome stops it or
  the thread for good.
\<close>

fun by_caller :: "event \<Rightarrow> bool" where
  "by_caller (CallJoin a) = True"
| "by_caller (CallLeave t) = True"
| "by_caller (CallUpdate t) = True"
| "by_caller CallShutDown = True"
| "by_caller (CallSendBestEffort n s) = True"
| "by_caller (CallSendReliable n s) = True"
| "by_caller ev = False"

fun survives :: "event \<Rightarrow> exn + unit \<Rightarrow> bool" where
  "survives ev (Inr _) = True"
| "survives ev (Inl (WrapException _)) = by_caller ev"
| "survives ev (Inl (StdException _)) = by_caller ev"
| "survives ev (Inl x) = False"

inductive step :: "('w, 'e) env_scheme \<Rightarrow> memberlist \<Rightarrow> event \<Rightarrow> memberlist \<Rightarrow> bool" for e where
  "enabled (m\<lparr>self := t\<rparr>) ev \<Longrightarrow> run_event e ev (m\<lparr>self := t\<rparr>, w) = (r, (m', w')) \<Longrightarrow> survives ev r \<Longrightarrow>
     step e m ev m'"

inductive steps :: "('w, 'e) env_scheme \<Rightarrow> memberlist \<Rightarrow> event list \<Rightarrow> memberlist \<Rightarrow> bool" for e where
  stop: "steps e m [] m"
| more: "step e m ev m' \<Longrightarrow> steps e m' evs m'' \<Longrightarrow> steps e m (ev # evs) m''"

inductive reachable :: "('w, 'e) env_scheme \<Rightarrow> Config \<Rightarrow> memberlist \<Rightarrow> bool" for e c where
  start: "memberlist_ctor e c (memberlist0 c, w) = (Inr (), (m, w')) \<Longrightarrow> reachable e c m"
| move: "reachable e c m \<Longrightarrow> step e m ev m' \<Longrightarrow> reachable e c m'"

inductive_cases step_cases: "step e m ev m'"
inductive_cases steps_cases: "steps e m (ev # evs) m''"

section \<open>Every step keeps every invariant of the program\<close>

context program_invariant
begin

lemma runners: "keeps P (schedule_runner g)" "keeps P (ack_runner h)"
  "(\<And>t. task (k t) = task t) \<Longrightarrow> keeps P (suspicion_runner k)"
  unfolding schedule_runner_def ack_runner_def suspicion_runner_def
  by (rule keeps_upd, (rule frame ticks | simp)+)+

lemma event: "keeps P (run_event e ev)"
  by (cases ev)
    (auto simp: discard_def threads_run timeout joins leaves updates shutting sends listeners threads tasks
      intro!: keeps_intros runners)

lemma step: "P m \<Longrightarrow> step e m ev m' \<Longrightarrow> P m'"
  by (erule step_cases) (rule keeps_run [OF event who])

lemma steps: "steps e m evs m' \<Longrightarrow> P m \<Longrightarrow> P m'"
  by (induction rule: steps.induct) (blast intro: step)+

end

text \<open>Between steps the mutex of the table is free.\<close>

lemma unlocks_event: "unlocks (run_event e ev)"
  unfolding schedule_runner_def suspicion_runner_def ack_runner_def
  by (cases ev) (simp_all add: discard_def schedule_runner_def suspicion_runner_def ack_runner_def,
    (intro unlocks_intros; simp)+)

lemma step_unlocked:
  assumes "step e m ev m'" and "\<not> nodeMutex m"
  shows "\<not> nodeMutex m'"
  using assms(1)
proof cases
  case (1 t w r w')
  show ?thesis
    by (rule unlocks_run [OF unlocks_event _ 1(2)]) (use assms(2) 1(3) in auto)
qed

section \<open>Every step ends\<close>

lemma ends_runners [may_intros]: "ends (schedule_runner f)" "ends (suspicion_runner g)" "ends (ack_runner h)"
  unfolding schedule_runner_def suspicion_runner_def ack_runner_def by (intro may_intros)+

lemma ends_event: "ev \<noteq> Scheduled TaskGossip \<Longrightarrow> ends (run_event e ev)"
  by (cases ev rule: event.exhaust) (auto simp: run_task_def ack_timeout_def discard_def split: schedTask.split ackTask.split
      intro!: may_intros)

text \<open>
  C25. No loop of the program runs on: whatever event a thread serves, from any state of the
  member list and the world, the rounds the model allows its loops are enough. For gossip this
  needs a consistent queue, whose loops would otherwise not end.
\<close>

theorem events_end:
  assumes "ieee_rounding (fp_round e)" and "ev = Scheduled TaskGossip \<Longrightarrow> queue_ok (TransmitLimitedQueue m)"
  shows "wp (run_event e ev) (\<lambda>r s. r \<noteq> Inl OutOfFuel) (m, w)"
proof (cases "ev = Scheduled TaskGossip")
  case True
  let ?m = "m\<lparr>schedule_timer := map (map_option (own_timer (self m) (runner_wakes LockingNodeMutex))) (schedule_timer m)\<rparr>"
  have "wp (gossip e) (\<lambda>r s. r \<noteq> Inl OutOfFuel) (?m, w)"
    using ends_gossip [OF assms(1)] assms(2) True by simp
  then show ?thesis
    using True by (auto simp: run_task_def schedule_runner_def wp_simps elim!: wp_mono)
next
  case False
  show ?thesis
    by (rule wp_mono [OF mayD [OF ends_event [OF False]]]) auto
qed

theorem events_end_witness:
  "wp (run_event ref_env (Scheduled TaskGossip)) (\<lambda>r s. r \<noteq> Inl OutOfFuel) (sample_list StateAlive, world0)"
  by (rule events_end [OF ref_ieee])
    (simp add: queue_ok_def sample_defs bq_inv_new, simp add: new_broadcastQueue_def)

section \<open>Starting up\<close>

text \<open>The object between \<^verbatim>\<open>newmemberlist\<close> and \<^verbatim>\<open>setAlive\<close>.\<close>

definition blank :: "Config \<Rightarrow> memberlist \<Rightarrow> bool" where
  "blank c m \<longleftrightarrow> config m = c \<and> \<not> leave m \<and> \<not> shutdown m \<and> \<not> nodeMutex m \<and> incarnation m = 0 \<and> numNodes m = 0 \<and>
     nodes m = [] \<and> nodeMap m = Map.empty \<and> heapNext m = 1 \<and> nodeTimers m = [] \<and>
     highPriorityMsgQueue m = [] \<and> lowPriorityMsgQueue m = [] \<and>
     TransmitLimitedQueue m = new_broadcastQueue (cfg_RetransmitMult c) \<and> \<not> scheduled m"

text \<open>The system calls of the constructor succeed.\<close>

definition calls_succeed :: "('w, 'e) env_scheme \<Rightarrow> bool" where
  "calls_succeed e \<longleftrightarrow>
     (\<forall>fl w. 0 \<le> fst (fst (sys_pipe e fl w))) \<and> (\<forall>d t p w. 0 \<le> fst (sys_socket e d t p w)) \<and>
     (\<forall>fd a w. 0 \<le> fst (sys_bind e fd a w)) \<and> (\<forall>fd n w. 0 \<le> fst (sys_listen e fd n w))"

lemma calls_succeedD:
  "sys_pipe e fl w = ((k, fds), w') \<Longrightarrow> k < 0 \<Longrightarrow> \<not> calls_succeed e"
  "sys_socket e d t p w = (i, w') \<Longrightarrow> i < 0 \<Longrightarrow> \<not> calls_succeed e"
  "sys_bind e fd a w = (i, w') \<Longrightarrow> i < 0 \<Longrightarrow> \<not> calls_succeed e"
  "sys_listen e fd n w = (i, w') \<Longrightarrow> i < 0 \<Longrightarrow> \<not> calls_succeed e"
  unfolding calls_succeed_def by (metis fst_conv leD)+

lemma wp_setup_calls:
  assumes "\<And>k w'. \<not> calls_succeed e \<Longrightarrow> Q (Inl (WrapException k)) w'"
  shows "(\<And>a w'. Q (Inr a) w') \<Longrightarrow> wp (Pipe e) Q w" "(\<And>a w'. Q (Inr a) w') \<Longrightarrow> wp (Pipe2 e fl) Q w"
    "(\<And>a w'. Q' (Inr a) w') \<Longrightarrow> (\<And>k w'. \<not> calls_succeed e \<Longrightarrow> Q' (Inl (WrapException k)) w') \<Longrightarrow> wp (Socket e d t p) Q' w"
    "(\<And>a w'. Q' (Inr a) w') \<Longrightarrow> (\<And>k w'. \<not> calls_succeed e \<Longrightarrow> Q' (Inl (WrapException k)) w') \<Longrightarrow> wp (Bind e fd a) Q' w"
    "(\<And>a w'. Q' (Inr a) w') \<Longrightarrow> (\<And>k w'. \<not> calls_succeed e \<Longrightarrow> Q' (Inl (WrapException k)) w') \<Longrightarrow> wp (Listen e fd n) Q' w"
  using assms
  by (auto simp: Pipe_def Pipe2_def Socket_def Bind_def Listen_def wp_simps dest: calls_succeedD)

lemma wp_newmemberlist:
  assumes "\<And>m w'. blank c m \<Longrightarrow> Q (Inr ()) (m, w')"
    and "\<And>k m w'. \<not> calls_succeed e \<Longrightarrow> Q (Inl (WrapException k)) (m, w')"
  shows "wp (newmemberlist e c) Q (memberlist0 c, w)"
  unfolding newmemberlist_def
  by (auto simp: wp_thenE wp_bindE wp_upd wp_world wp_case_option wp_ret wp_modify wp_let memberlist0_def
      intro!: wp_setup_calls assms) (simp_all add: blank_def)

text \<open>The local node as the constructor enters it.\<close>

definition first_node :: "Config \<Rightarrow> int \<Rightarrow> nodeState" where
  "first_node c now = \<lparr>N = \<lparr>NName = Name c, NAddr = AdvertiseAddr c, NPort = AdvertisePort c\<rparr>,
     Incarnation = 1, State = StateAlive, StateChange = now\<rparr>"

definition born :: "Config \<Rightarrow> memberlist \<Rightarrow> bool" where
  "born c m \<longleftrightarrow> ml_ok m \<and> timers_ok m \<and> history False False c m \<and> \<not> leave m \<and> \<not> shutdown m \<and> \<not> nodeMutex m \<and>
     nodes m = [1] \<and> nodeMap m = [Name c \<mapsto> 1] \<and> (\<exists>now. heap m 1 = first_node c now) \<and>
     incarnation m = 1 \<and> nodeTimers m = [] \<and> 2 ^ 31 \<le> bq_room (TransmitLimitedQueue m) \<and>
     bq_pending (TransmitLimitedQueue m) = [Name c \<mapsto> \<lparr>mb_node = Name c,
       mb_msg = genAliveBroadcast 1 (Name c) (AdvertiseAddr c) (ucast (AdvertisePort c)), mb_notifyFd = -1\<rparr>]"

lemma born_scheduling [simp]:
  "born c (m\<lparr>scheduled := sc\<rparr>) = born c m" "born c (m\<lparr>schedule_timer := st\<rparr>) = born c m"
  by (simp_all add: born_def history_def timers_ok_def)

lemma wp_setAlive:
  assumes "blank c m" and "\<And>m w'. born c m \<Longrightarrow> Q (Inr ()) (m, w')"
  shows "wp (setAlive e) Q (m, w)"
proof -
  have g: "genAliveBroadcast' (getAlive i n a p) = genAliveBroadcast i n a p" for i n a p
    by (simp add: gen_broadcast_defs getAlive_def)
  have b: "config m = c" "\<not> leave m" "\<not> nodeMutex m" "incarnation m = 0" "numNodes m = 0" "nodes m = []"
    "nodeMap m = Map.empty" "heapNext m = 1" "nodeTimers m = []" "\<not> shutdown m"
    "highPriorityMsgQueue m = []" "lowPriorityMsgQueue m = []"
    "TransmitLimitedQueue m = new_broadcastQueue (cfg_RetransmitMult c)"
    using assms(1) by (simp_all add: blank_def)
  have room: "bq_room (new_broadcastQueue r) = 2 ^ 32 - 1" for r
    by (simp add: bq_room_def bq_inv_new) (simp add: new_broadcastQueue_def)
  have empty: "bq_pending (new_broadcastQueue r) = Map.empty" for r
    by (simp add: bq_pending_def new_broadcastQueue_def fun_eq_iff)
  from b show ?thesis
    apply (simp add: setAlive_def nextIncarnation_def aliveNode_def alive_lookup_def new_nodeState_def
        new_object_def insert_random_def wp_simps)
    apply (intro allI impI)
    apply (simp add: alive_apply_def erase_timer_def set_node_def now_us_def wp_simps Let_def g)
    apply (rule wp_BroadcastNotify_room)
      apply (simp_all add: room silent_def empty ucast_port)
    apply (intro allI impI assms(2))
    apply (auto simp: born_def ml_ok_def ml_inv_def local_alive_iff history_def first_node_def timers_ok_def)
    done
qed

lemma wp_schedule:
  assumes "born c m" and "\<And>m w'. born c m \<Longrightarrow> Q (Inr ()) (m, w')"
  shows "wp (schedule e) Q (m, w)"
proof -
  have run: "wp (repeatTimer_Run e me h) R (new_timer i (Some k) sc, w)"
    if "\<And>t w'. R (Inr ()) (t, w')" for R i sc me h w and k :: schedTask
    using that by (auto simp: repeatTimer_Run_def start_runner_def new_timer_def join_thread_def wp_simps)
  have start: "wp (start_task e n i k sc) R (m, w)"
    if "born c m" "\<And>m w'. born c m \<Longrightarrow> R (Inr ()) (m, w')" for R n i k sc m w
    unfolding start_task_def using that by (auto simp: wp_simps intro!: run)
  show ?thesis
    unfolding schedule_def using assms by (auto simp: wp_simps intro!: start)
qed

lemma wp_ctor:
  assumes "\<And>m w'. born c m \<Longrightarrow> Q (Inr ()) (m, w')"
    and "\<And>k m w'. \<not> calls_succeed e \<Longrightarrow> Q (Inl (WrapException k)) (m, w')"
  shows "wp (memberlist_ctor e c) Q (memberlist0 c, w)"
  unfolding memberlist_ctor_def using assms
  by (auto simp: wp_thenE intro!: wp_newmemberlist wp_setAlive wp_schedule)

text \<open>
  C18. When the system calls that set up its sockets and pipes succeed, the constructor
  returns, and the new member list is consistent: it knows exactly itself, alive with
  incarnation one under its advertised address, and has its alive message queued.
\<close>

theorem memberlist_ctor_alive:
  assumes "calls_succeed e"
  shows "wp (memberlist_ctor e c) (\<lambda>r s. r = Inr () \<and> born c (fst s)) (memberlist0 c, w)"
  using assms by (intro wp_ctor) simp_all

lemma ref_calls_succeed: "calls_succeed ref_env"
  by (simp add: calls_succeed_def ref_env_def ref_pipe_def)

theorem memberlist_ctor_alive_witness:
  "wp (memberlist_ctor ref_env sample_config) (\<lambda>r s. r = Inr () \<and> born sample_config (fst s))
     (memberlist0 sample_config, world0)"
  by (rule memberlist_ctor_alive [OF ref_calls_succeed])

section \<open>Reachable states\<close>

lemma start_born:
  assumes "memberlist_ctor e c (memberlist0 c, w) = (Inr (), (m, w'))"
  shows "born c m"
proof -
  have "wp (memberlist_ctor e c) (\<lambda>r s. r = Inr () \<longrightarrow> born c (fst s)) (memberlist0 c, w)"
    by (rule wp_ctor) simp_all
  from wp_run [OF this assms] show ?thesis by simp
qed

text \<open>
  C1. In every state a running node can reach, through any sequence of listener rounds,
  timers, detached threads and public operations and whatever the world does, the node table is
  consistent, the local node is in it, and alive unless the node has started to leave; every
  suspicion stands under the name its callback is about; \<^verbatim>\<open>nodeMutex\<close> is free; the configuration is the one it was started with, and neither hand-over stack exceeds its depth.
\<close>

theorem reachable_consistent:
  assumes "reachable e c m"
  shows "ml_ok m \<and> timers_ok m \<and> \<not> nodeMutex m \<and> config m = c \<and> length (highPriorityMsgQueue m) \<le> unat (HandoffQueueDepth c) \<and>
     length (lowPriorityMsgQueue m) \<le> unat (HandoffQueueDepth c)"
proof -
  from assms have "ml_ok m \<and> timers_ok m \<and> \<not> nodeMutex m \<and> history False False c m"
  proof induction
    case (start w m w')
    then show ?case using start_born [OF start] by (simp add: born_def)
  next
    case (move m ev m')
    then show ?case using table.step alarms.step past.step step_unlocked by blast
  qed
  then show ?thesis by (simp add: history_def)
qed

text \<open>The started sample node, and a message it sends.\<close>

definition started_list :: memberlist where
  "started_list = fst (snd (memberlist_ctor ref_env sample_config (memberlist0 sample_config, world0)))"

lemma started_reachable: "reachable ref_env sample_config started_list"
proof (rule reachable.start)
  have "wp (memberlist_ctor ref_env sample_config) (\<lambda>r s. r = Inr ()) (memberlist0 sample_config, world0)"
    by (rule wp_ctor) (simp_all add: ref_calls_succeed)
  then show "memberlist_ctor ref_env sample_config (memberlist0 sample_config, world0) = (Inr (), (started_list,
      snd (snd (memberlist_ctor ref_env sample_config (memberlist0 sample_config, world0)))))"
    by (simp add: wp_def started_list_def split: prod.splits)
qed

theorem reachable_consistent_witness:
  "ml_ok started_list \<and> timers_ok started_list \<and> \<not> nodeMutex started_list \<and> config started_list = sample_config \<and>
   length (highPriorityMsgQueue started_list) \<le> unat (HandoffQueueDepth sample_config) \<and>
   length (lowPriorityMsgQueue started_list) \<le> unat (HandoffQueueDepth sample_config)"
  by (rule reachable_consistent [OF started_reachable])

lemma sample_step:
  "step ref_env m (CallSendBestEffort (N (sample_node ''b'' StateAlive)) ''hi'') (m\<lparr>self := 7\<rparr>)"
proof (rule step.intros)
  show "run_event ref_env (CallSendBestEffort (N (sample_node ''b'' StateAlive)) ''hi'') (m\<lparr>self := 7\<rparr>, world0) =
     (Inr (), (m\<lparr>self := 7\<rparr>, world0\<lparr>rw_sent := [(\<lparr>sin_family = AF_INET, sin_port = htons 6666, sin_addr = 16777343\<rparr>,
        beforeSend ref_env (genUser ''hi''))]\<rparr>))"
    by (simp add: SendBestEffort_def FullAddr_def encodeSendUDP_def Sendto_def checked_def ref_env_def ref_sendto_def
        sample_node_def c_str_def ref_inet_pton_localhost exec_defs world0_def)
qed simp_all

text \<open>
  C19. Along any run, leaving and shutting down are never undone, and a node the table has
  once heard of is never forgotten.
\<close>

theorem runs_monotone:
  assumes "reachable e c m" and "steps e m evs m'"
  shows "(leave m \<longrightarrow> leave m') \<and> (shutdown m \<longrightarrow> shutdown m') \<and> dom (nodeMap m) \<subseteq> dom (nodeMap m')"
proof -
  have "history False False c m"
    using assms(1)
    by induction (auto dest!: start_born intro: past.step, simp add: born_def)
  then have "history (leave m) (shutdown m) c m"
    by (simp add: history_def)
  then have "history (leave m) (shutdown m) c m'"
    using past.steps [OF assms(2)] by blast
  moreover have "knows (dom (nodeMap m)) m'"
    using memory.steps [OF assms(2)] by (simp add: knows_def)
  ultimately show ?thesis by (simp add: history_def knows_def)
qed

theorem runs_monotone_witness:
  "dom (nodeMap started_list) \<subseteq> dom (nodeMap (started_list\<lparr>self := 7\<rparr>))"
  using runs_monotone [OF started_reachable steps.more [OF sample_step steps.stop]] by blast

section \<open>Suspicions never conclude\<close>

text \<open>Whether a suspicion is still the one its callback is about.\<close>

definition current :: "memberlist \<Rightarrow> suspicionTask \<Rightarrow> bool" where
  "current m f =
     (case nodeMap m (st_node f) of
        None \<Rightarrow> False
      | Some p \<Rightarrow> State (heap m p) = StateSuspect \<and> StateChange (heap m p) = st_now f)"

text \<open>
  C10. A suspicion that runs out never makes its node dead. In every state that has the
  invariants of the reachable states, when a suspicion's timer fires, the callback changes nothing if the suspicion is outdated; if
  it is current, it finds its own entry under the name it erases and joins its own thread, so the
  whole process terminates with the table as it was.
\<close>

theorem suspicion_never_concludes:
  assumes "ml_inv m" and "timers_ok m" and "\<not> nodeMutex m" and "enabled m (SuspicionTimeout f)"
  shows "wp (run_event e (SuspicionTimeout f))
     (\<lambda>r s. same_table m (fst s) \<and> r = (if current m f then Inl Terminated else Inr ())) (m, w)"
proof -
  let ?g = "\<lambda>s. s\<lparr>sus_t := own_timer (self m) (runner_wakes LockingNodeMutex) (sus_t s)\<rparr>"
  let ?m = "m\<lparr>nodeTimers := map (apsnd ?g) (nodeTimers m)\<rparr>"
  obtain n s where entry: "(n, s) \<in> set (nodeTimers m)" and "fires f (self m) (sus_t s)"
    using assms(4) by auto
  then have "task (sus_t s) = Some f" and thread: "map_option th_id (t_thread (sus_t s)) = Some (self m)"
    by (simp_all add: fires_def)
  with timers_okD [OF assms(2) timers_ok_entry [OF assms(2) entry]]
  have n: "map_of (nodeTimers m) (st_node f) = Some s"
    using timers_ok_entry [OF assms(2) entry] by simp
  have inv: "ml_inv ?m" "\<not> nodeMutex ?m"
    using assms(1,3) by (simp_all add: ml_inv_def)
  have "wp (suspicion_callback e f) (\<lambda>r s. same_table m (fst s) \<and> r = (if current m f then Inl Terminated else Inr ())) (?m, w)"
  proof (cases "current m f")
    case True
    then obtain p where p: "nodeMap ?m (st_node f) = Some p" "State (heap ?m p) = StateSuspect"
      "StateChange (heap ?m p) = st_now f"
      by (auto simp: current_def split: option.splits)
    have "map_of (nodeTimers ?m) (st_node f) = Some (?g s)"
      using n by (simp add: map_of_map apsnd_def map_prod_def split_beta)
    moreover obtain th where "t_thread (sus_t (?g s)) = Some th" "th_id th = self ?m"
      using thread by (auto simp: own_timer_def runner_wakes_def)
    ultimately have "wp (suspicion_callback e f) (\<lambda>r s. r = Inl Terminated \<and> same_table ?m (fst s)) (?m, w)"
      by (rule current_timeout_terminates [OF inv(2,1) p])
    then show ?thesis
      using True by (auto simp: same_table_def elim!: wp_mono)
  next
    case False
    then have "suspicion_callback e f (?m, w) = (Inr (), (?m, w))"
      by (intro outdated_timeout_ignored [OF inv(2)]) (auto simp: current_def)
    with False show ?thesis
      by (simp add: wp_def same_table_def)
  qed
  then show ?thesis
    by (cases "current m f") (auto simp: suspicion_runner_def same_table_def wp_simps elim!: wp_mono)
qed

theorem suspicion_never_concludes_witness:
  "wp (run_event ref_env (SuspicionTimeout (sus_f sample_suspicion)))
     (\<lambda>r s. same_table suspected_list (fst s) \<and> r = Inl Terminated) (suspected_list, world0)"
  using suspicion_never_concludes [of suspected_list "sus_f sample_suspicion" ref_env world0]
  by (simp add: suspected_inv) (simp add: suspected_list_def sample_suspicion_def sample_local sample_map sample_fields
      sample_node_def timers_ok_def fires_def current_def)

end
