(* ===== verification/Demo.thy ===== *)
theory Demo
  imports Runs
begin

text \<open>
  The demo of \<^verbatim>\<open>main.cpp\<close>: a node named after its port joins the group of a node on the default
  port and then serves lines of its standard input: two commands, and any other text is sent to
  the node it joined, over UDP and over TCP. The input is a list of lines; the demo serves them
  and is then still running, unless it has ended.
\<close>

section \<open>The program\<close>

text \<open>The configuration, from the first argument when there is one.\<close>

definition demo_config :: "('w, 'e) env_scheme \<Rightarrow> string list \<Rightarrow> ('w, Config) prog" where
  "demo_config e args =
     bindE (DebugConfig e) (\<lambda>c.
     case args of
       [] \<Rightarrow> ret c
     | a # _ \<Rightarrow>
         (case stoul a of
            Inl x \<Rightarrow> raise x
          | Inr p \<Rightarrow> ret (c\<lparr>Name := a, BindPort := ucast p, AdvertisePort := ucast p\<rparr>)))"

text \<open>One round of the loop: the value \<^verbatim>\<open>main\<close> returns, if it does.\<close>

definition demo_round :: "('w, 'e) env_scheme \<Rightarrow> string \<Rightarrow> ('w, int option) mprog" where
  "demo_round e msg =
     thenE (if msg = ''Leave()'' then Leave e (-1) else ret ())
     (if msg = ''ShutDown()'' then
        thenE (ShutDown e) (thenE (world (modify (sys_sleep e (seconds 10)))) (ret (Some 0)))
      else
        (let node = \<lparr>NName = [], NAddr = ''127.0.0.1'', NPort = 6666\<rparr>
         in thenE (SendBestEffort e node msg) (thenE (SendReliable e node msg) (ret None))))"

fun demo_loop :: "('w, 'e) env_scheme \<Rightarrow> string list \<Rightarrow> ('w, int option) mprog" where
  "demo_loop e [] = ret None"
| "demo_loop e (msg # input) =
     bindE (demo_round e msg) (\<lambda>k. case k of Some c \<Rightarrow> ret (Some c) | None \<Rightarrow> demo_loop e input)"

text \<open>
  The life of the object: without an argument the loop does nothing and never ends; returning
  from \<^verbatim>\<open>main\<close> destroys the object.
\<close>

definition demo_life :: "('w, 'e) env_scheme \<Rightarrow> string list \<Rightarrow> string list \<Rightarrow> Config \<Rightarrow> ('w, int option) mprog" where
  "demo_life e args input c =
     thenE (memberlist_ctor e c)
     (if args = [] then ret None
      else
        thenE (Join e ''127.0.0.1:6666'')
        (bindE (demo_loop e input) (\<lambda>k.
         case k of None \<Rightarrow> ret None | Some c \<Rightarrow> thenE (memberlist_dtor e) (ret (Some c)))))"

text \<open>An exception that leaves \<^verbatim>\<open>main\<close> ends the process.\<close>

fun uncaught :: "exn \<Rightarrow> exn" where
  "uncaught (WrapException _) = Terminated"
| "uncaught (StdException _) = Terminated"
| "uncaught x = x"

definition demo_main :: "('w, 'e) env_scheme \<Rightarrow> string list \<Rightarrow> string list \<Rightarrow> ('w, int option) prog" where
  "demo_main e args input w =
     (case demo_config e args w of
        (Inl x, w') \<Rightarrow> (Inl (uncaught x), w')
      | (Inr c, w') \<Rightarrow>
          (case demo_life e args input c (memberlist0 c, w') of
             (r, (_, w'')) \<Rightarrow> (map_sum uncaught id r, w'')))"

section \<open>What it does\<close>

text \<open>An argument that is no port number ends the process before anything is set up.\<close>

lemma demo_bad_argument:
  assumes "stoul a = Inl x"
  shows "fst (demo_main e (a # args) input w) = Inl Terminated"
proof -
  have "x = StdException ''invalid_argument'' \<or> x = StdException ''out_of_range''"
    using assms by (auto simp: stoul_def Let_def split: if_splits)
  moreover obtain h w' where "sys_hostname e w = (h, w')"
    by (cases "sys_hostname e w")
  ultimately show ?thesis
    using assms by (auto simp: demo_main_def demo_config_def config_defs bindE_def call_def ret_def raise_def)
qed

lemma keeps_shutdown_deschedule: "keeps shutdown deschedule"
  unfolding deschedule_def reset_task_def by (intro keeps_intros) simp_all

lemma wp_ShutDown_down: "wp (ShutDown e) (onReturn (\<lambda>_ s. shutdown (fst s))) (m, w)"
  unfolding ShutDown_def
  by (auto simp: wp_simps onReturn_def split: sum.split
      intro!: wp_any [where p = "Close e fd" for fd] wp_mono [OF keepsD [OF keeps_shutdown_deschedule]])

lemma keeps_leave:
  fixes e :: "('w, 'e) env_scheme"
  shows "keeps leave (deadNode e b)" "keeps leave (anyAlive :: ('w, bool) mprog)" "keeps leave (SendBestEffort e n s)"
    "keeps leave (SendReliable e n s)" "keeps leave (ShutDown e)"
proof -
  have settled: "keeps leave p" if "keeps (settled (\<lambda>(_, l, _). l)) p" for p :: "('w, 'b) mprog"
    using that by (simp add: keeps_def settled_def outer_def)
  show "keeps leave (deadNode e b)"
    by (rule settled [OF handlers_keep(9)])
  show "keeps leave (anyAlive :: ('w, bool) mprog)" "keeps leave (SendBestEffort e n s)" "keeps leave (SendReliable e n s)"
    "keeps leave (ShutDown e)"
    unfolding anyAlive_def NumMembers_def SendBestEffort_def SendReliable_def ShutDown_def deschedule_def reset_task_def
    by (intro keeps_intros; simp)+
qed

lemma wp_still:
  assumes "keeps P p" and "b \<longrightarrow> P (fst s)"
  shows "wp p (\<lambda>r s. b \<longrightarrow> P (fst s)) s"
  using assms keepsD by (cases b) fastforce+

lemma wp_sends:
  assumes "left \<longrightarrow> leave (fst s)"
  shows "wp (thenE (SendBestEffort e n msg) (thenE (SendReliable e n msg) (ret None)))
     (onReturn (\<lambda>k s'. k = None \<and> (left \<longrightarrow> leave (fst s')))) s"
proof -
  have "keeps leave (thenE (SendBestEffort e n msg) (thenE (SendReliable e n msg) (ret None)))"
    by (intro keeps_intros keeps_leave)
  from wp_still [OF this assms]
  have "wp (thenE (SendBestEffort e n msg) (thenE (SendReliable e n msg) (ret None)))
     (\<lambda>r s'. (left \<longrightarrow> leave (fst s')) \<and> onReturn (\<lambda>k _. k = None) r s') s"
    by (rule wp_conj) (auto simp: wp_simps intro!: wp_any [where p = "SendBestEffort e n msg"] wp_any [where p = "SendReliable e n msg"])
  then show ?thesis
    by (rule wp_mono) (auto simp: onReturn_def split: sum.splits)
qed

lemma wp_Leave_leaves: "wp (Leave e t) (onReturn (\<lambda>_ s. leave (fst s))) (m, w)"
  unfolding Leave_def
  by (auto simp: wp_simps onReturn_def split: sum.split
      intro!: wp_any [where p = "await_pipe e fd t" for fd] wp_mono [OF keepsD [OF keeps_leave(1)]]
        wp_mono [OF keepsD [OF keeps_leave(2)]])

text \<open>The demo only calls public operations, so it keeps what they keep.\<close>

context program_invariant
begin

lemma demo: "keeps P (demo_loop e input)"
proof (induction input)
  case (Cons l input)
  have "keeps P (demo_round e l)"
    unfolding demo_round_def Let_def by (intro keeps_intros leaves shutting sends)
  then show ?case
    unfolding demo_loop.simps by (intro keeps_intros Cons.IH)
qed (simp add: keeps_intros)

end

text \<open>
  The demo serves its input up to the first line that asks it to shut down, and ends with
  exit code 0 exactly then, with the member list shut down; if it was asked to leave before, the
  node has left. However it ends, the node table is consistent.
\<close>

lemma demo_serves_input:
  assumes "ml_ok m"
  shows "wp (demo_loop e input) (\<lambda>r s. ml_ok (fst s) \<and> onReturn (\<lambda>k s.
     k = (if ''ShutDown()'' \<in> set input then Some 0 else None) \<and> (k = Some 0 \<longrightarrow> shutdown (fst s)) \<and>
     (''Leave()'' \<in> set (takeWhile (\<lambda>l. l \<noteq> ''ShutDown()'') input) \<longrightarrow> leave (fst s))) r s) (m, w)"
proof (rule wp_conj)
  show "wp (demo_loop e input) (\<lambda>r s. ml_ok (fst s)) (m, w)"
    by (rule keepsD [OF table.demo]) (simp add: assms)
  let ?Q = "\<lambda>lv input k s. k = (if ''ShutDown()'' \<in> set input then Some 0 else None) \<and>
     (k = Some 0 \<longrightarrow> shutdown (fst s)) \<and>
     (lv \<or> ''Leave()'' \<in> set (takeWhile (\<lambda>l. l \<noteq> ''ShutDown()'') input) \<longrightarrow> leave (fst s))"
  have "wp (demo_loop e input) (onReturn (?Q (leave (fst s)) input)) s" for s
  proof (induction input arbitrary: s)
    case (Cons l input)
    let ?R = "\<lambda>k s'. k = (if l = ''ShutDown()'' then Some 0 else None) \<and> (k = Some 0 \<longrightarrow> shutdown (fst s')) \<and>
       (leave (fst s) \<or> l = ''Leave()'' \<longrightarrow> leave (fst s'))"
    have "wp (demo_round e l) (onReturn ?R) s"
    proof (cases s)
      case (Pair m w)
      consider "l = ''Leave()''" | "l = ''ShutDown()''" | "l \<noteq> ''Leave()''" "l \<noteq> ''ShutDown()''"
        by blast
      then show ?thesis
      proof cases
        case 1
        then show ?thesis
          unfolding demo_round_def Let_def Pair
          by (simp add: wp_thenE [of "Leave e t" for t], intro wp_mono [OF wp_Leave_leaves] conjI)
            (auto intro!: wp_mono [OF wp_sends [of True]] simp: onReturn_def split: sum.splits)
      next
        case 2
        then show ?thesis
          unfolding demo_round_def Let_def Pair
          by (simp add: wp_simps, intro wp_mono [OF wp_conj [OF wp_ShutDown_down
              wp_still [OF keeps_leave(5), where b = "leave m"]]]) (auto simp: onReturn_def split: sum.splits)
      next
        case 3
        then show ?thesis
          unfolding demo_round_def Let_def Pair
          by (simp add: wp_thenE [of "ret x" for x] wp_ret, intro wp_mono [OF wp_sends [where left = "leave m"]])
            (auto simp: onReturn_def split: sum.splits)
      qed
    qed
    moreover have "wp (demo_loop e input) (onReturn (?Q (leave (fst s)) (l # input))) s'" if "?R None s'" for s'
      using that by (intro wp_mono [OF Cons.IH]) (auto simp: onReturn_def split: sum.splits)
    ultimately show ?case
      unfolding demo_loop.simps wp_bindE
      by (elim wp_mono) (auto simp: onReturn_def wp_ret split: sum.splits if_splits)
  qed (simp add: wp_ret)
  note this [of "(m, w)"]
  then show "wp (demo_loop e input) (onReturn (\<lambda>k s.
     k = (if ''ShutDown()'' \<in> set input then Some 0 else None) \<and> (k = Some 0 \<longrightarrow> shutdown (fst s)) \<and>
     (''Leave()'' \<in> set (takeWhile (\<lambda>l. l \<noteq> ''ShutDown()'') input) \<longrightarrow> leave (fst s)))) (m, w)"
    by (auto elim!: wp_mono simp: onReturn_def split: sum.splits)
qed

end
