(* ===== verification/Lifetime.thy ===== *)
theory Lifetime
  imports Lifecycle
begin

text \<open>
  What the public operations achieve: leaving, updating and shutting down.
\<close>

section \<open>Leaving\<close>

text \<open>The broadcast with which the local node announces that it leaves: a dead message about itself.\<close>

definition farewell :: "memberlist \<Rightarrow> uint32 \<Rightarrow> memberlistBroadcast" where
  "farewell m inc = \<lparr>mb_node = localName m, mb_msg = genDeadBroadcast inc (localName m) (localName m),
     mb_notifyFd = snd (leaveFd m)\<rparr>"

lemma wp_deadNode_leaving:
  assumes "\<not> nodeMutex m" and "0 < bq_room (TransmitLimitedQueue m)" and "leave m"
    and "nodeMap m (localName m) = Some p" and "NName (N (heap m p)) = localName m"
    and "\<not> DeadOrLeft (heap m p)" and "silent (localName m) m" and "erasable (localName m) m"
    and "\<And>q now w'. bq_pending q = (bq_pending (TransmitLimitedQueue m))(localName m \<mapsto> farewell m (Incarnation (heap m p))) \<Longrightarrow>
      Q (Inr ()) (m\<lparr>nodeTimers := AList.delete (localName m) (nodeTimers m), TransmitLimitedQueue := q,
        heap := (heap m)(p := (heap m p)\<lparr>State := StateLeft, StateChange := now\<rparr>),
        nodeMutex := False\<rparr>, w')"
  shows "wp (deadNode e (genDeadBroadcast (Incarnation (heap m p)) (localName m) (localName m))) Q (m, w)"
proof -
  have g: "genDeadBroadcast' (getDead inc n from') = genDeadBroadcast inc n from'" for inc n from'
    by (simp add: gen_broadcast_defs getDead_def)
  show ?thesis
    using assms
    by (auto simp: deadNode_def dead_apply_def mark_dead_def set_node_def now_us_def wp_simps Let_def g farewell_def
        intro!: wp_BroadcastNotify_pending wp_erase_timer_gone)
qed

lemma alive_not_left: "ml_ok m \<Longrightarrow> \<not> leave m \<Longrightarrow> nodeMap m (localName m) = Some p \<Longrightarrow>
   NName (N (heap m p)) = localName m \<and> State (heap m p) = StateAlive"
  by (auto simp: ml_ok_def local_alive_def ml_inv_def)

text \<open>
  C30. Leaving: the first call marks the local node left and queues its own dead message, to be
  reported on the leave pipe when it has been transmitted, before it waits for that; without
  another live node it returns at once. A second call changes nothing, and after a shutdown
  the program is aborted.
\<close>

theorem Leave_announces:
  assumes "ml_ok m" and "\<not> nodeMutex m" and "nodeMap m (localName m) = Some p"
    and "0 < bq_room (TransmitLimitedQueue m)" and "silent (localName m) m" and "erasable (localName m) m"
  shows "wp (Leave e t)
     (\<lambda>r s. if shutdown m then r = Inl Aborted \<and> fst s = m
        else if leave m then r = Inr () \<and> fst s = m
        else r \<noteq> Inl Aborted \<and> leave (fst s) \<and> State (heap (fst s) p) = StateLeft \<and>
          bq_pending (TransmitLimitedQueue (fst s)) (localName m) = Some (farewell m (Incarnation (heap m p))) \<and>
          (r = Inr () \<or> (\<exists>q \<in> set (nodes m). \<not> DeadOrLeft (heap m q) \<and> NName (N (heap m q)) \<noteq> localName m))) (m, w)"
proof -
  have first: "wp (deadNode e (genDeadBroadcast (Incarnation (heap m p)) (localName m) (localName m))) Q (m\<lparr>leave := True\<rparr>, w)"
    if "\<not> leave m" "\<And>q now w'. bq_pending q = (bq_pending (TransmitLimitedQueue m))(localName m \<mapsto> farewell m (Incarnation (heap m p))) \<Longrightarrow>
      Q (Inr ()) (m\<lparr>leave := True, nodeTimers := AList.delete (localName m) (nodeTimers m), TransmitLimitedQueue := q,
        heap := (heap m)(p := (heap m p)\<lparr>State := StateLeft, StateChange := now\<rparr>), nodeMutex := False\<rparr>, w')" for Q w
    using wp_deadNode_leaving [of "m\<lparr>leave := True\<rparr>" p Q e w] assms alive_not_left [OF assms(1) that(1) assms(3)] that(2)
    by (simp add: DeadOrLeft_def farewell_def)
  have free: "m\<lparr>leave := True, nodeMutex := False\<rparr> = m\<lparr>leave := True\<rparr>"
    using assms(2) by simp
  have await: "wp (await_pipe e fd t) Q w" if "\<And>r w'. r \<noteq> Inl Aborted \<Longrightarrow> Q r w'" for Q fd w
    using that by (auto simp: await_pipe_def wp_simps Select_def Read_def timeval_usec_def)
  show ?thesis
    using assms alive_not_left [OF assms(1) _ assms(3)]
    by (auto simp: Leave_def wp_simps free anyAlive_def DeadOrLeft_def intro!: first await split: if_splits)
qed

theorem Leave_announces_witness:
  "wp (Leave ref_env 0)
     (\<lambda>r s. r \<noteq> Inl Aborted \<and> leave (fst s) \<and> State (heap (fst s) 1) = StateLeft \<and>
        bq_pending (TransmitLimitedQueue (fst s)) ''a'' =
          Some \<lparr>mb_node = ''a'', mb_msg = genDeadBroadcast 1 ''a'' ''a'', mb_notifyFd = -1\<rparr>) (sample_list StateAlive, world0)"
proof -
  have "erasable ''a'' (sample_list StateAlive)" "\<not> shutdown (sample_list StateAlive)" "leaveFd (sample_list StateAlive) = (-1, -1)"
    by (simp_all add: erasable_def sample_defs)
  then show ?thesis
    using Leave_announces [OF sample_ok [of StateAlive], of 1 ref_env 0 world0]
    by (auto simp: sample_local sample_map sample_room sample_silent sample_fields farewell_def sample_node_def elim!: wp_mono)
qed

section \<open>Shutting down\<close>

text \<open>The timers that were started, by slot, and what resetting a slot leaves.\<close>

definition slot_interval :: "Config \<Rightarrow> nat \<Rightarrow> int" where
  "slot_interval c i = (if i = 0 then ProbeInterval c else if i = 1 then PushPullInterval c else GossipInterval c)"

definition started :: "memberlist \<Rightarrow> nat \<Rightarrow> schedTask timer option" where
  "started m i = (if slot_interval (config m) i > 0 then schedule_timer m ! i else None)"

definition removed :: "nat \<Rightarrow> memberlist \<Rightarrow> memberlist" where
  "removed i m = m\<lparr>schedule_timer :=
     (if slot_interval (config m) i > 0 then (schedule_timer m)[i := None] else schedule_timer m)\<rparr>"

lemma removed_fields [simp]:
  "self (removed i m) = self m" "nodeMutex (removed i m) = nodeMutex m" "shutdown (removed i m) = shutdown m"
  "scheduled (removed i m) = scheduled m" "config (removed i m) = config m"
  "length (schedule_timer (removed i m)) = length (schedule_timer m)"
  by (simp_all add: removed_def)

lemma started_fields [simp]:
  "started (m\<lparr>nodeMutex := b\<rparr>) = started m" "started (m\<lparr>shutdown := d\<rparr>) = started m" "started (m\<lparr>scheduled := sc\<rparr>) = started m"
  by (simp_all add: started_def fun_eq_iff)

lemma started_removed [simp]:
  "i < length (schedule_timer m) \<Longrightarrow> started (removed i m) j = (if j = i then None else started m j)"
  by (simp add: started_def removed_def)

text \<open>A timer whose thread waits for the mutex or is about to lock it, and one whose thread is the given one.\<close>

definition waits :: "schedTask timer option \<Rightarrow> bool" where
  "waits t \<longleftrightarrow> (\<exists>t' th. t = Some t' \<and> t_thread t' = Some th \<and> th_phase th = LockingNodeMutex)"

definition runs_in :: "nat \<Rightarrow> schedTask timer option \<Rightarrow> bool" where
  "runs_in me t \<longleftrightarrow> (\<exists>t' th. t = Some t' \<and> t_thread t' = Some th \<and> th_id th = me)"

lemma join_waits:
  "\<not> runs_in me (Some t) \<Longrightarrow> join_thread me True (t_thread t) = (if waits (Some t) then Inl Deadlock else Inr ())"
  by (auto simp: join_thread_def waits_def runs_in_def split: option.split)

lemma wp_reset_task:
  assumes "nodeMutex m" and "\<not> runs_in (self m) (started m i)" and "interval = slot_interval (config m) i"
    and "\<And>m' w'. waits (started m i) \<Longrightarrow> Q (Inl Deadlock) (m', w')"
    and "\<And>w'. \<not> waits (started m i) \<Longrightarrow> Q (Inr ()) (removed i m, w')"
  shows "wp (reset_task i interval) Q (m, w)"
proof (cases "started m i")
  case None
  then have "(if slot_interval (config m) i > 0 then (schedule_timer m)[i := None] else schedule_timer m) = schedule_timer m"
    by (metis list_update_id started_def)
  then have "removed i m = m"
    unfolding removed_def by simp
  then show ?thesis
    using assms(3,5) None by (auto simp: reset_task_def wp_simps waits_def started_def)
next
  case (Some t)
  have "join_thread (self m) True (t_thread t) = (if waits (Some t) then Inl Deadlock else Inr ())"
    using assms(2) Some by (intro join_waits) simp
  moreover have "interval > 0" "schedule_timer m ! i = Some t"
    using Some assms(3) by (simp_all add: started_def split: if_splits)
  ultimately show ?thesis
    using assms Some by (simp add: reset_task_def repeatTimer_destroy_def removed_def wp_simps)
qed

text \<open>
  C33. Shutting down, from a thread that is not one of the timers' and when the system closes the
  descriptors: the timers' threads are cancelled and joined while the node's mutex is held, and
  locking a mutex is no cancellation point, so when one of them waits for that mutex, or has woken
  up and is on its way to lock it, the call never returns. Otherwise, each of them being asleep, at
  its end, or in its task with a cancellation point ahead of any such lock, it returns with the
  list shut down and every timer gone.
\<close>

theorem ShutDown_outcome:
  assumes "\<not> nodeMutex m" and "\<not> shutdown m" and "scheduled m" and "length (schedule_timer m) = 3"
    and "\<not> runs_in (self m) (started m 0)" and "\<not> runs_in (self m) (started m 1)" and "\<not> runs_in (self m) (started m 2)"
    and "\<forall>fd w. 0 \<le> fst (sys_close e fd w)"
  shows "wp (ShutDown e)
     (\<lambda>r s. if waits (started m 0) \<or> waits (started m 1) \<or> waits (started m 2) then r = Inl Deadlock
        else r = Inr () \<and> shutdown (fst s) \<and> \<not> scheduled (fst s) \<and> \<not> nodeMutex (fst s) \<and>
          started (fst s) 0 = None \<and> started (fst s) 1 = None \<and> started (fst s) 2 = None) (m, w)"
proof -
  have close: "wp (Close e fd) Q w" if "\<And>a w'. Q (Inr a) w'" for Q fd w
    using that assms(8) by (auto simp: Close_def wp_simps) (metis fst_conv not_less)
  show ?thesis
    using assms
    by (auto simp: ShutDown_def deschedule_def wp_simps slot_interval_def intro!: close wp_reset_task)
qed

text \<open>A running list whose probe thread has just woken up and is about to lock the mutex, on a system that closes every descriptor.\<close>

definition probing_list :: memberlist where
  "probing_list = (sample_list StateAlive)\<lparr>scheduled := True, self := 9,
     schedule_timer := [Some (runner_wakes LockingNodeMutex ((new_timer 1000000 (Some TaskProbe) False)\<lparr>running := True,
       t_thread := Some \<lparr>th_id = 5, th_phase = Sleeping\<rparr>\<rparr>)), None, None]\<rparr>"

theorem ShutDown_outcome_witness:
  "wp (ShutDown (ref_env\<lparr>sys_close := (\<lambda>fd w. (0, w))\<rparr>)) (\<lambda>r s. r = Inl Deadlock) (probing_list, world0)"
proof -
  have "waits (started probing_list 0)"
    by (simp add: waits_def started_def probing_list_def slot_interval_def sample_defs new_timer_def runner_wakes_def)
  then show ?thesis
    using ShutDown_outcome [of probing_list "ref_env\<lparr>sys_close := (\<lambda>fd w. (0, w))\<rparr>" world0]
    by (simp add: runs_in_def started_def probing_list_def slot_interval_def sample_defs new_timer_def runner_wakes_def)
qed

section \<open>Updating\<close>

text \<open>An alive message under our own name that did not come from the constructor is refuted.\<close>

definition rebuttal :: "memberlist \<Rightarrow> nat \<Rightarrow> uint32 \<Rightarrow> memberlistBroadcast" where
  "rebuttal m p inc = \<lparr>mb_node = localName m, mb_msg = genAliveBroadcast inc (localName m) (NAddr (N (heap m p)))
     (ucast (NPort (N (heap m p)))), mb_notifyFd = -1\<rparr>"

lemma wp_refute_pending:
  assumes "incarnation m \<le> acc" and "NName (N (heap m p)) = localName m"
    and "0 < bq_room (TransmitLimitedQueue m)" and "silent (localName m) m"
    and "\<And>q w'. bq_pending q = (bq_pending (TransmitLimitedQueue m))(localName m \<mapsto> rebuttal m p (acc + 1)) \<Longrightarrow>
      Q (Inr ()) (m\<lparr>incarnation := acc + 1, heap := (heap m)(p := (heap m p)\<lparr>Incarnation := acc + 1\<rparr>),
        TransmitLimitedQueue := q\<rparr>, w')"
  shows "wp (refute e p acc) Q (m, w)"
proof -
  have "incarnation m + (acc - incarnation m + 1) = acc + 1"
    by simp
  then have next_inc: "wp (skipIncarnation (acc - incarnation m + 1)) R (m, w) = R (Inr (acc + 1)) (m\<lparr>incarnation := acc + 1\<rparr>, w)" for R w
    unfolding skipIncarnation_def by (simp only: wp_simps) simp
  show ?thesis
    using assms(1,2)
    by (simp add: refute_def wp_bindE wp_obj next_inc wp_thenE set_node_def wp_upd onlyBroadcast_def)
      (rule wp_BroadcastNotify_pending, use assms(2-5) in \<open>simp_all add: rebuttal_def\<close>)
qed

lemma wp_aliveNode_own:
  assumes "\<not> nodeMutex m" and "\<not> leave m" and "nodeMap m (localName m) = Some p" and "NName (N (heap m p)) = localName m"
    and "0 < bq_room (TransmitLimitedQueue m)" and "silent (localName m) m" and "map_of (nodeTimers m) (localName m) = None"
    and "Incarnation (heap m p) < inc" and "incarnation m \<le> inc"
    and "\<And>q w'. bq_pending q = (bq_pending (TransmitLimitedQueue m))(localName m \<mapsto> rebuttal m p (inc + 1)) \<Longrightarrow>
      Q (Inr ()) (m\<lparr>incarnation := inc + 1, heap := (heap m)(p := (heap m p)\<lparr>Incarnation := inc + 1\<rparr>),
        TransmitLimitedQueue := q, nodeMutex := False\<rparr>, w')"
  shows "wp (aliveNode e (genAliveBroadcast inc (localName m) (NAddr (N (heap m p))) (ucast (NPort (N (heap m p))))) False fd) Q (m, w)"
proof -
  have "inc \<noteq> Incarnation (heap m p)" "\<not> inc < Incarnation (heap m p)"
    using assms(8) by auto
  then show ?thesis
    using assms(1-4,7)
    by (simp add: aliveNode_def alive_lookup_def alive_apply_def erase_timer_def wp_simps Let_def)
      (rule impI, rule wp_refute_pending, use assms(4-6,9,10) in \<open>simp_all add: rebuttal_def\<close>)
qed

text \<open>
  C34. An update is not reported: the alive message \<^verbatim>\<open>UpdateNode\<close> makes with the next incarnation is
  taken for one by somebody else and refuted, so that what is queued has the incarnation after
  that and no descriptor to notify. The pipe the call then waits on is known to nobody.
\<close>

theorem UpdateNode_unreported:
  assumes "ml_ok m" and "\<not> nodeMutex m" and "\<not> leave m" and "nodeMap m (localName m) = Some p"
    and "0 < bq_room (TransmitLimitedQueue m)" and "silent (localName m) m" and "map_of (nodeTimers m) (localName m) = None"
    and "Incarnation (heap m p) < incarnation m + 1" and "\<forall>fl w. 0 \<le> fst (fst (sys_pipe e fl w))"
  shows "wp (UpdateNode e t)
     (\<lambda>r s. Incarnation (heap (fst s) p) = incarnation m + 2 \<and>
        bq_pending (TransmitLimitedQueue (fst s)) (localName m) = Some (rebuttal m p (incarnation m + 2))) (m, w)"
proof -
  have local_node: "NName (N (heap m p)) = localName m" "p \<noteq> 0"
    using assms(1,4) by (auto simp: ml_ok_def ml_inv_def intro: ranI)
  have pipe: "wp (Pipe e) Q w" if "\<And>a w'. Q (Inr a) w'" for Q w
    using that assms(9) by (auto simp: Pipe_def wp_simps) (metis fst_conv not_less)
  have await: "wp (await_pipe e fd t) Q w" if "\<And>r w'. Q r w'" for Q fd w
    using that by (simp add: wp_def split: prod.split)
  have own: "wp (aliveNode e (genAliveBroadcast (incarnation m + 1) (localName m) (NAddr (N (heap m p)))
      (ucast (NPort (N (heap m p))))) False fd) Q (m\<lparr>incarnation := incarnation m + 1\<rparr>, w)"
    if "\<And>q w'. bq_pending q (localName m) = Some (rebuttal m p (incarnation m + 2)) \<Longrightarrow>
      Q (Inr ()) (m\<lparr>incarnation := incarnation m + 2, heap := (heap m)(p := (heap m p)\<lparr>Incarnation := incarnation m + 2\<rparr>),
        TransmitLimitedQueue := q, nodeMutex := False\<rparr>, w')" for Q fd w
    using that assms local_node wp_aliveNode_own [of "m\<lparr>incarnation := incarnation m + 1\<rparr>" p "incarnation m + 1" Q e fd w]
    by (simp add: rebuttal_def add.assoc)
  have free: "m\<lparr>nodeMutex := False\<rparr> = m"
    using assms(2) by simp
  show ?thesis
    using assms(2,4) local_node
    apply (simp add: UpdateNode_def local_entry_def nextIncarnation_def wp_simps free)
    apply (intro pipe conjI allI impI)
      apply simp
     apply simp
    apply (rule own)
    apply (simp add: anyAlive_def Close_def wp_simps await)
    done
qed

theorem UpdateNode_unreported_witness:
  "wp (UpdateNode ref_env 0)
     (\<lambda>r s. Incarnation (heap (fst s) 1) = 3 \<and>
        bq_pending (TransmitLimitedQueue (fst s)) ''a'' = Some (rebuttal (sample_list StateAlive) 1 3)) (sample_list StateAlive, world0)"
  using UpdateNode_unreported [OF sample_ok [of StateAlive], of 1 ref_env 0 world0]
  by (simp add: sample_local sample_map sample_room sample_silent sample_fields)
    (simp add: sample_defs ref_env_def ref_pipe_def)

end
