(* ===== verification/Dissemination.thy ===== *)
theory Dissemination
  imports BroadcastQueue
begin

text \<open>
  How long a message stays in the broadcast queue: while nothing new is queued and a packet has
  room for everything, each packet carries every queued message, and after as many packets as
  the retransmission limit the queue is empty.
\<close>

section \<open>One packet\<close>

text \<open>Room for all queued messages, with a byte to spare.\<close>

definition roomy :: "uint64 \<Rightarrow> broadcastQueue \<Rightarrow> bool" where
  "roomy space q \<longleftrightarrow> payload (tq q) < unat space"

lemma payload_set: "distinct xs \<Longrightarrow> payload xs = (\<Sum>x \<in> set xs. unat (msgLen x))"
  by (induction xs) simp_all

lemma inj_bumped: "inj bumped"
proof (rule injI)
  fix x y assume "bumped x = bumped y"
  then show "x = y"
    by (cases x; cases y) (simp add: bumped_def)
qed

lemma payload_sent:
  assumes "distinct (tq q)" "distinct (tq q')" and "set (tq q') = bumped ` A" and "A \<subseteq> set (tq q)"
  shows "payload (tq q') \<le> payload (tq q)"
proof -
  have "payload (tq q') = (\<Sum>x \<in> A. unat (msgLen x))"
    using assms(2,3) by (simp add: payload_set sum.reindex inj_on_subset [OF inj_bumped])
  also have "\<dots> \<le> payload (tq q)"
    using assms(1,4) by (simp add: payload_set sum_mono2)
  finally show ?thesis .
qed

lemma taken_all:
  assumes "gb_post q cbc space tlim r s" and "bq_inv q" and "roomy space q" and "\<nexists>n. r = Inl (WrapException n)"
  shows "\<exists>h c. r = Inr (h, c) \<and> bq_inv (fst s) \<and> idGen (fst s) = idGen q \<and> RetransmitMult (fst s) = RetransmitMult q \<and>
     set (tq (fst s)) = bumped ` {x \<in> set (tq q). transmits x + 1 < tlim} \<and>
     (\<lambda>x. mb_msg (lb_b x)) ` set (tq q) \<subseteq> set (cbc_bs c)"
  using assms(1)
proof (cases rule: gb_post_cases)
  case (packet S h)
  have "payload S \<le> payload (tq q)"
    using packet(3,4) bq_distinct [OF assms(2)] by (simp add: payload_set sum_mono2)
  then have small: "payload S < unat space"
    using assms(3) by (simp add: roomy_def)
  have fits: "payload S + unat (msgLen y) \<le> payload (tq q)" if "y \<in> set (tq q) - set S" for y
  proof -
    have "payload (y # S) \<le> payload (tq q)"
      using packet(3,4) that bq_distinct [OF assms(2)] sum_mono2 [of "set (tq q)" "set (y # S)" "\<lambda>x. unat (msgLen x)"]
      by (simp add: payload_set [symmetric] flip: payload_set)
    then show ?thesis by simp
  qed
  have "set (tq q) - set S = {}"
  proof (rule ccontr)
    assume "set (tq q) - set S \<noteq> {}"
    then obtain y where y: "y \<in> set (tq q) - set S"
      by blast
    then have "unat space < payload S + unat (msgLen y)"
      using packet(7) small by auto
    then show False
      using fits [OF y] assms(3) by (simp add: roomy_def)
  qed
  then have "set S = set (tq q)"
    using packet(4) by blast
  moreover have "idGen (fst s) = idGen q" "RetransmitMult (fst s) = RetransmitMult q"
    using assms(1,4) by (auto simp: gb_post_def)
  ultimately show ?thesis
    using packet(1,8,9) by auto
qed (use assms(4) in simp)

section \<open>As many packets as the limit\<close>

definition send_packets :: "nat \<Rightarrow> ('w, 'e) env_scheme \<Rightarrow> uint32 \<Rightarrow> uint64 \<Rightarrow> uint64 \<Rightarrow> (broadcastQueue \<times> 'w, unit) prog" where
  "send_packets k e n overhead limit =
     forE (replicate k ()) (\<lambda>_. bindE (GetBroadcasts e n overhead limit ComBroadcast0) (\<lambda>_. ret ()))"

text \<open>A queue whose messages have each been sent at least \<open>k\<close> times.\<close>

definition sent_often :: "uint8 \<Rightarrow> uint64 \<Rightarrow> nat \<Rightarrow> broadcastQueue \<Rightarrow> bool" where
  "sent_often mult space k q \<longleftrightarrow> bq_inv q \<and> idGen q \<noteq> UINT32_MAX \<and> RetransmitMult q = mult \<and> roomy space q \<and>
     (\<forall>x \<in> set (tq q). k \<le> unat (transmits x) \<and> unat (transmits x) < 2 ^ 31 - 1)"

lemma sent_once_more:
  assumes "sent_often mult space k q" and "unat tlim < 2 ^ 31"
    and "bq_inv q'" "idGen q' = idGen q" "RetransmitMult q' = RetransmitMult q"
    and q': "set (tq q') = bumped ` {x \<in> set (tq q). transmits x + 1 < tlim}"
  shows "sent_often mult space (Suc k) q'"
proof -
  have "Suc k \<le> unat (transmits y) \<and> unat (transmits y) < 2 ^ 31 - 1" if y: "y \<in> set (tq q')" for y
  proof -
    obtain x where x: "x \<in> set (tq q)" "y = bumped x" "transmits x + 1 < tlim"
      using y q' by auto
    have "unat (transmits x) < 2 ^ 31"
      using x(1) assms(1) by (auto simp: sent_often_def)
    then have "unat (transmits y) = unat (transmits x) + 1"
      unfolding x(2) bumped_def by (simp add: tier_succ)
    moreover have "unat (transmits y) < unat tlim"
      using x by (simp add: bumped_def word_less_nat_alt)
    ultimately show ?thesis
      using x(1) assms(1,2) by (auto simp: sent_often_def)
  qed
  moreover have "roomy space q'"
    using payload_sent [OF bq_distinct bq_distinct q', of q] assms(1,3) by (simp add: roomy_def sent_often_def)
  ultimately show ?thesis
    using assms(1,3-5) by (simp add: sent_often_def)
qed

lemma wp_send_packet:
  assumes "sent_often mult (limit - overhead) k q" and "retransmitLimit e mult n = Inr tlim" and "unat tlim < 2 ^ 31"
    and "\<And>x q' w'. Q (Inl (WrapException x)) (q', w')"
    and "\<And>a q' w'. sent_often mult (limit - overhead) (Suc k) q' \<Longrightarrow> (\<forall>x \<in> set (tq q'). unat (transmits x) < unat tlim) \<Longrightarrow>
      Q (Inr a) (q', w')"
  shows "wp (GetBroadcasts e n overhead limit cbc) Q (q, w)"
proof (rule wp_mono [OF wp_GetBroadcasts])
  fix r and s :: "broadcastQueue \<times> 'a"
  assume post: "gb_post q cbc (limit - overhead) tlim r s"
  show "Q r s"
  proof (cases "\<exists>n. r = Inl (WrapException n)")
    case False
    then obtain h c where r: "r = Inr (h, c)" "bq_inv (fst s)" "idGen (fst s) = idGen q" "RetransmitMult (fst s) = RetransmitMult q"
      and tq: "set (tq (fst s)) = bumped ` {x \<in> set (tq q). transmits x + 1 < tlim}"
      using taken_all [OF post] assms(1) by (auto simp: sent_often_def)
    have "sent_often mult (limit - overhead) (Suc k) (fst s)"
      by (rule sent_once_more [OF assms(1,3) r(2-4) tq])
    moreover have "\<forall>x \<in> set (tq (fst s)). unat (transmits x) < unat tlim"
      unfolding tq by (auto simp: bumped_def word_less_nat_alt)
    ultimately show ?thesis
      using assms(5) r(1) by (cases s) simp
  qed (use assms(4) in \<open>cases s, auto\<close>)
qed (use assms(1,2) in \<open>simp_all add: sent_often_def\<close>)

text \<open>
  C23. A message leaves the queue: while nothing new is queued and a packet has room for every
  queued message, as many packets as the retransmission limit empty the queue, unless telling
  the sender of a message that it is done fails.
\<close>

theorem queue_drains:
  assumes "bq_inv q" and "idGen q \<noteq> UINT32_MAX" and "\<forall>x \<in> set (tq q). unat (transmits x) < 2 ^ 31 - 1"
    and "roomy (limit - overhead) q" and "retransmitLimit e (RetransmitMult q) n = Inr tlim"
    and "unat tlim < 2 ^ 31" and "unat tlim \<le> k" and "0 < k"
  shows "wp (send_packets k e n overhead limit)
     (\<lambda>r s. (r = Inr () \<and> tq (fst s) = []) \<or> (\<exists>n. r = Inl (WrapException n))) (q, w)"
proof -
  let ?Q = "\<lambda>r s. (r = Inr () \<and> tq (fst s) = []) \<or> (\<exists>n. r = Inl (WrapException n))"
  have drains: "wp (send_packets j e n overhead limit) ?Q (q', w)"
    if "sent_often (RetransmitMult q) (limit - overhead) i q'" "unat tlim \<le> i + j"
      "0 < j \<or> (\<forall>x \<in> set (tq q'). unat (transmits x) < unat tlim)" for i j q' w
    using that
  proof (induction j arbitrary: i q' w)
    case 0
    then have "tq q' = []"
      by (cases "tq q'") (auto simp: sent_often_def)
    then show ?case
      by (simp add: send_packets_def wp_simps)
  next
    case (Suc j)
    have "wp (bindE (GetBroadcasts e n overhead limit ComBroadcast0) (\<lambda>_. send_packets j e n overhead limit)) ?Q (q', w)"
      unfolding wp_bindE
      using Suc.prems by (intro wp_send_packet [OF _ assms(5,6)]) (auto intro: Suc.IH)
    then show ?case
      by (simp add: send_packets_def thenE_def wp_simps)
  qed
  show ?thesis
    using assms by (intro drains [of 0]) (simp_all add: sent_often_def)
qed

theorem queue_drains_witness:
  "wp (send_packets 4 ref_env 7 4 1400)
     (\<lambda>r s. (r = Inr () \<and> tq (fst s) = []) \<or> (\<exists>n. r = Inl (WrapException n))) (sample_queue, world0)"
  by (rule queue_drains [OF sample_queue_inv _ _ _ sample_queue_limit])
    (simp_all add: roomy_def, simp_all add: sample_queue_def sample_item_def)

end
