(* ===== verification/WireMerge.thy ===== *)
theory WireMerge
  imports WireParse
begin

text \<open>
  Clearing, merging and copying messages: \<^verbatim>\<open>Clear\<close>, \<^verbatim>\<open>MergeFrom\<close> and \<^verbatim>\<open>CopyFrom\<close> of every generated
  class of \<^verbatim>\<open>type/msgtype.pb.cc\<close>. Assigning a message, as \<^verbatim>\<open>genmsg.cpp\<close> does to build one from
  parts, is \<^verbatim>\<open>CopyFrom\<close>, and parsing into a message that already has fields is merging.
\<close>

section \<open>Merging one field\<close>

text \<open>A scalar of proto3 that holds its default counts as not set and is not merged.\<close>

definition merge_uint32 :: "uint32 \<Rightarrow> uint32 \<Rightarrow> uint32" where
  "merge_uint32 x y = (if y \<noteq> 0 then y else x)"

definition merge_string :: "string \<Rightarrow> string \<Rightarrow> string" where
  "merge_string x y = (if y \<noteq> [] then y else x)"

definition merge_bool :: "bool \<Rightarrow> bool \<Rightarrow> bool" where
  "merge_bool x y = (if y then y else x)"

definition merge_enum :: "int \<Rightarrow> int \<Rightarrow> int" where
  "merge_enum x y = (if y \<noteq> 0 then y else x)"

lemmas merge_field_defs = merge_uint32_def merge_string_def merge_bool_def merge_enum_def

lemma merge_into_default [simp]:
  "merge_uint32 0 y = y" "merge_string [] z = z" "merge_bool False b = b" "merge_enum 0 n = n"
  by (simp_all add: merge_field_defs)

section \<open>Clear, MergeFrom and CopyFrom\<close>

text \<open>
  A member of a \<^verbatim>\<open>oneof\<close> is merged into the member that is set when it is the same one, and into
  a new one otherwise, which replaces what was set.
\<close>

definition Ping_Clear :: "Ping \<Rightarrow> Ping" where
  "Ping_Clear m = m\<lparr>unknown_fields := [], ping_seqno := 0, ping_node := [],
       ping_sourceaddr := [], ping_sourceport := 0, ping_sourcenode := []\<rparr>"

definition Ping_MergeFrom :: "Ping \<Rightarrow> Ping \<Rightarrow> Ping" where
  "Ping_MergeFrom m from = \<lparr>unknown_fields = unknown_fields m @ unknown_fields from,
       ping_seqno = merge_uint32 (ping_seqno m) (ping_seqno from),
       ping_node = merge_string (ping_node m) (ping_node from),
       ping_sourceaddr = merge_string (ping_sourceaddr m) (ping_sourceaddr from),
       ping_sourceport = merge_uint32 (ping_sourceport m) (ping_sourceport from),
       ping_sourcenode = merge_string (ping_sourcenode m) (ping_sourcenode from)\<rparr>"

definition Ping_CopyFrom :: "Ping \<Rightarrow> Ping \<Rightarrow> Ping" where
  "Ping_CopyFrom m from = Ping_MergeFrom (Ping_Clear m) from"

definition IndirectPing_Clear :: "IndirectPing \<Rightarrow> IndirectPing" where
  "IndirectPing_Clear m = m\<lparr>unknown_fields := [], iping_seqno := 0, iping_node := [],
       iping_targetaddr := [], iping_targetport := 0, iping_nack := False, iping_sourceaddr := [],
       iping_sourceport := 0, iping_sourcenode := []\<rparr>"

definition IndirectPing_MergeFrom :: "IndirectPing \<Rightarrow> IndirectPing \<Rightarrow> IndirectPing" where
  "IndirectPing_MergeFrom m from = \<lparr>unknown_fields = unknown_fields m @ unknown_fields from,
       iping_seqno = merge_uint32 (iping_seqno m) (iping_seqno from),
       iping_node = merge_string (iping_node m) (iping_node from),
       iping_targetaddr = merge_string (iping_targetaddr m) (iping_targetaddr from),
       iping_targetport = merge_uint32 (iping_targetport m) (iping_targetport from),
       iping_nack = merge_bool (iping_nack m) (iping_nack from),
       iping_sourceaddr = merge_string (iping_sourceaddr m) (iping_sourceaddr from),
       iping_sourceport = merge_uint32 (iping_sourceport m) (iping_sourceport from),
       iping_sourcenode = merge_string (iping_sourcenode m) (iping_sourcenode from)\<rparr>"

definition IndirectPing_CopyFrom :: "IndirectPing \<Rightarrow> IndirectPing \<Rightarrow> IndirectPing" where
  "IndirectPing_CopyFrom m from = IndirectPing_MergeFrom (IndirectPing_Clear m) from"

definition AckResp_Clear :: "AckResp \<Rightarrow> AckResp" where
  "AckResp_Clear m = m\<lparr>unknown_fields := [], ack_seqno := 0\<rparr>"

definition AckResp_MergeFrom :: "AckResp \<Rightarrow> AckResp \<Rightarrow> AckResp" where
  "AckResp_MergeFrom m from = \<lparr>unknown_fields = unknown_fields m @ unknown_fields from,
       ack_seqno = merge_uint32 (ack_seqno m) (ack_seqno from)\<rparr>"

definition AckResp_CopyFrom :: "AckResp \<Rightarrow> AckResp \<Rightarrow> AckResp" where
  "AckResp_CopyFrom m from = AckResp_MergeFrom (AckResp_Clear m) from"

definition NackResp_Clear :: "NackResp \<Rightarrow> NackResp" where
  "NackResp_Clear m = m\<lparr>unknown_fields := [], nack_seqno := 0\<rparr>"

definition NackResp_MergeFrom :: "NackResp \<Rightarrow> NackResp \<Rightarrow> NackResp" where
  "NackResp_MergeFrom m from = \<lparr>unknown_fields = unknown_fields m @ unknown_fields from,
       nack_seqno = merge_uint32 (nack_seqno m) (nack_seqno from)\<rparr>"

definition NackResp_CopyFrom :: "NackResp \<Rightarrow> NackResp \<Rightarrow> NackResp" where
  "NackResp_CopyFrom m from = NackResp_MergeFrom (NackResp_Clear m) from"

definition ErrResp_Clear :: "ErrResp \<Rightarrow> ErrResp" where
  "ErrResp_Clear m = m\<lparr>unknown_fields := [], err_error := []\<rparr>"

definition ErrResp_MergeFrom :: "ErrResp \<Rightarrow> ErrResp \<Rightarrow> ErrResp" where
  "ErrResp_MergeFrom m from = \<lparr>unknown_fields = unknown_fields m @ unknown_fields from,
       err_error = merge_string (err_error m) (err_error from)\<rparr>"

definition ErrResp_CopyFrom :: "ErrResp \<Rightarrow> ErrResp \<Rightarrow> ErrResp" where
  "ErrResp_CopyFrom m from = ErrResp_MergeFrom (ErrResp_Clear m) from"

definition Suspect_Clear :: "Suspect \<Rightarrow> Suspect" where
  "Suspect_Clear m = m\<lparr>unknown_fields := [], suspect_incarnation := 0, suspect_node := [],
       suspect_from := []\<rparr>"

definition Suspect_MergeFrom :: "Suspect \<Rightarrow> Suspect \<Rightarrow> Suspect" where
  "Suspect_MergeFrom m from = \<lparr>unknown_fields = unknown_fields m @ unknown_fields from,
       suspect_incarnation = merge_uint32 (suspect_incarnation m) (suspect_incarnation from),
       suspect_node = merge_string (suspect_node m) (suspect_node from),
       suspect_from = merge_string (suspect_from m) (suspect_from from)\<rparr>"

definition Suspect_CopyFrom :: "Suspect \<Rightarrow> Suspect \<Rightarrow> Suspect" where
  "Suspect_CopyFrom m from = Suspect_MergeFrom (Suspect_Clear m) from"

definition Alive_Clear :: "Alive \<Rightarrow> Alive" where
  "Alive_Clear m = m\<lparr>unknown_fields := [], alive_incarnation := 0, alive_node := [],
       alive_addr := [], alive_port := 0\<rparr>"

definition Alive_MergeFrom :: "Alive \<Rightarrow> Alive \<Rightarrow> Alive" where
  "Alive_MergeFrom m from = \<lparr>unknown_fields = unknown_fields m @ unknown_fields from,
       alive_incarnation = merge_uint32 (alive_incarnation m) (alive_incarnation from),
       alive_node = merge_string (alive_node m) (alive_node from),
       alive_addr = merge_string (alive_addr m) (alive_addr from),
       alive_port = merge_uint32 (alive_port m) (alive_port from)\<rparr>"

definition Alive_CopyFrom :: "Alive \<Rightarrow> Alive \<Rightarrow> Alive" where
  "Alive_CopyFrom m from = Alive_MergeFrom (Alive_Clear m) from"

definition Dead_Clear :: "Dead \<Rightarrow> Dead" where
  "Dead_Clear m = m\<lparr>unknown_fields := [], dead_incarnation := 0, dead_node := [],
       dead_from := []\<rparr>"

definition Dead_MergeFrom :: "Dead \<Rightarrow> Dead \<Rightarrow> Dead" where
  "Dead_MergeFrom m from = \<lparr>unknown_fields = unknown_fields m @ unknown_fields from,
       dead_incarnation = merge_uint32 (dead_incarnation m) (dead_incarnation from),
       dead_node = merge_string (dead_node m) (dead_node from),
       dead_from = merge_string (dead_from m) (dead_from from)\<rparr>"

definition Dead_CopyFrom :: "Dead \<Rightarrow> Dead \<Rightarrow> Dead" where
  "Dead_CopyFrom m from = Dead_MergeFrom (Dead_Clear m) from"

definition PushNodeState_Clear :: "PushNodeState \<Rightarrow> PushNodeState" where
  "PushNodeState_Clear m = m\<lparr>unknown_fields := [], pns_name := [], pns_addr := [],
       pns_port := 0, pns_incarnation := 0, pns_state := 0\<rparr>"

definition PushNodeState_MergeFrom :: "PushNodeState \<Rightarrow> PushNodeState \<Rightarrow> PushNodeState" where
  "PushNodeState_MergeFrom m from = \<lparr>
       unknown_fields = unknown_fields m @ unknown_fields from,
       pns_name = merge_string (pns_name m) (pns_name from),
       pns_addr = merge_string (pns_addr m) (pns_addr from),
       pns_port = merge_uint32 (pns_port m) (pns_port from),
       pns_incarnation = merge_uint32 (pns_incarnation m) (pns_incarnation from),
       pns_state = merge_enum (pns_state m) (pns_state from)\<rparr>"

definition PushNodeState_CopyFrom :: "PushNodeState \<Rightarrow> PushNodeState \<Rightarrow> PushNodeState" where
  "PushNodeState_CopyFrom m from = PushNodeState_MergeFrom (PushNodeState_Clear m) from"

definition PushPull_Clear :: "PushPull \<Rightarrow> PushPull" where
  "PushPull_Clear m = m\<lparr>unknown_fields := [], pp_join := False, pp_states := []\<rparr>"

definition PushPull_MergeFrom :: "PushPull \<Rightarrow> PushPull \<Rightarrow> PushPull" where
  "PushPull_MergeFrom m from = \<lparr>unknown_fields = unknown_fields m @ unknown_fields from,
       pp_join = merge_bool (pp_join m) (pp_join from),
       pp_states = pp_states m @ pp_states from\<rparr>"

definition PushPull_CopyFrom :: "PushPull \<Rightarrow> PushPull \<Rightarrow> PushPull" where
  "PushPull_CopyFrom m from = PushPull_MergeFrom (PushPull_Clear m) from"

definition User_Clear :: "User \<Rightarrow> User" where
  "User_Clear m = m\<lparr>unknown_fields := [], user_msg := []\<rparr>"

definition User_MergeFrom :: "User \<Rightarrow> User \<Rightarrow> User" where
  "User_MergeFrom m from = \<lparr>unknown_fields = unknown_fields m @ unknown_fields from,
       user_msg = merge_string (user_msg m) (user_msg from)\<rparr>"

definition User_CopyFrom :: "User \<Rightarrow> User \<Rightarrow> User" where
  "User_CopyFrom m from = User_MergeFrom (User_Clear m) from"

definition Broadcast_Clear :: "Broadcast \<Rightarrow> Broadcast" where
  "Broadcast_Clear m = m\<lparr>unknown_fields := [], bc_type := 0, bc_content := None\<rparr>"

definition Broadcast_MergeFrom :: "Broadcast \<Rightarrow> Broadcast \<Rightarrow> Broadcast" where
  "Broadcast_MergeFrom m from = \<lparr>unknown_fields = unknown_fields m @ unknown_fields from,
       bc_type = merge_enum (bc_type m) (bc_type from),
       bc_content =
       (case bc_content from of
          None \<Rightarrow> bc_content m
        | Some (ContentAlive x) \<Rightarrow> Some (ContentAlive (Alive_MergeFrom (bc_alive m) x))
        | Some (ContentDead x) \<Rightarrow> Some (ContentDead (Dead_MergeFrom (bc_dead m) x))
        | Some (ContentSuspect x) \<Rightarrow> Some (ContentSuspect (Suspect_MergeFrom (bc_suspect m) x)))\<rparr>"

definition Broadcast_CopyFrom :: "Broadcast \<Rightarrow> Broadcast \<Rightarrow> Broadcast" where
  "Broadcast_CopyFrom m from = Broadcast_MergeFrom (Broadcast_Clear m) from"

definition ComBroadcast_Clear :: "ComBroadcast \<Rightarrow> ComBroadcast" where
  "ComBroadcast_Clear m = m\<lparr>unknown_fields := [], cbc_bs := []\<rparr>"

definition ComBroadcast_MergeFrom :: "ComBroadcast \<Rightarrow> ComBroadcast \<Rightarrow> ComBroadcast" where
  "ComBroadcast_MergeFrom m from = \<lparr>unknown_fields = unknown_fields m @ unknown_fields from,
       cbc_bs = cbc_bs m @ cbc_bs from\<rparr>"

definition ComBroadcast_CopyFrom :: "ComBroadcast \<Rightarrow> ComBroadcast \<Rightarrow> ComBroadcast" where
  "ComBroadcast_CopyFrom m from = ComBroadcast_MergeFrom (ComBroadcast_Clear m) from"

definition MessageData_Clear :: "MessageData \<Rightarrow> MessageData" where
  "MessageData_Clear m = m\<lparr>unknown_fields := [], md_head := 0, md_body := None\<rparr>"

definition MessageData_MergeFrom :: "MessageData \<Rightarrow> MessageData \<Rightarrow> MessageData" where
  "MessageData_MergeFrom m from = \<lparr>unknown_fields = unknown_fields m @ unknown_fields from,
       md_head = merge_enum (md_head m) (md_head from),
       md_body =
       (case md_body from of
          None \<Rightarrow> md_body m
        | Some (BodyPing x) \<Rightarrow> Some (BodyPing (Ping_MergeFrom (md_ping m) x))
        | Some (BodyIndirectPing x) \<Rightarrow> Some (BodyIndirectPing (IndirectPing_MergeFrom (md_indirectping m) x))
        | Some (BodyAckResp x) \<Rightarrow> Some (BodyAckResp (AckResp_MergeFrom (md_ackresp m) x))
        | Some (BodyNackResp x) \<Rightarrow> Some (BodyNackResp (NackResp_MergeFrom (md_nackresp m) x))
        | Some (BodyPushPull x) \<Rightarrow> Some (BodyPushPull (PushPull_MergeFrom (md_pushpull m) x))
        | Some (BodyComBroadcast x) \<Rightarrow> Some (BodyComBroadcast (ComBroadcast_MergeFrom (md_combroadcast m) x))
        | Some (BodyUser x) \<Rightarrow> Some (BodyUser (User_MergeFrom (md_user m) x))
        | Some (BodyErrResp x) \<Rightarrow> Some (BodyErrResp (ErrResp_MergeFrom (md_errresp m) x)))\<rparr>"

definition MessageData_CopyFrom :: "MessageData \<Rightarrow> MessageData \<Rightarrow> MessageData" where
  "MessageData_CopyFrom m from = MessageData_MergeFrom (MessageData_Clear m) from"

definition Compound_Clear :: "Compound \<Rightarrow> Compound" where
  "Compound_Clear m = m\<lparr>unknown_fields := [], cd_mds := []\<rparr>"

definition Compound_MergeFrom :: "Compound \<Rightarrow> Compound \<Rightarrow> Compound" where
  "Compound_MergeFrom m from = \<lparr>unknown_fields = unknown_fields m @ unknown_fields from,
       cd_mds = cd_mds m @ cd_mds from\<rparr>"

definition Compound_CopyFrom :: "Compound \<Rightarrow> Compound \<Rightarrow> Compound" where
  "Compound_CopyFrom m from = Compound_MergeFrom (Compound_Clear m) from"

lemmas Clear_defs = Ping_Clear_def IndirectPing_Clear_def AckResp_Clear_def NackResp_Clear_def ErrResp_Clear_def
  Suspect_Clear_def Alive_Clear_def Dead_Clear_def PushNodeState_Clear_def PushPull_Clear_def
  User_Clear_def Broadcast_Clear_def ComBroadcast_Clear_def MessageData_Clear_def Compound_Clear_def

lemmas MergeFrom_defs = Ping_MergeFrom_def IndirectPing_MergeFrom_def AckResp_MergeFrom_def NackResp_MergeFrom_def ErrResp_MergeFrom_def
  Suspect_MergeFrom_def Alive_MergeFrom_def Dead_MergeFrom_def PushNodeState_MergeFrom_def PushPull_MergeFrom_def
  User_MergeFrom_def Broadcast_MergeFrom_def ComBroadcast_MergeFrom_def MessageData_MergeFrom_def Compound_MergeFrom_def

lemmas CopyFrom_defs = Ping_CopyFrom_def IndirectPing_CopyFrom_def AckResp_CopyFrom_def NackResp_CopyFrom_def ErrResp_CopyFrom_def
  Suspect_CopyFrom_def Alive_CopyFrom_def Dead_CopyFrom_def PushNodeState_CopyFrom_def PushPull_CopyFrom_def
  User_CopyFrom_def Broadcast_CopyFrom_def ComBroadcast_CopyFrom_def MessageData_CopyFrom_def Compound_CopyFrom_def

section \<open>Clearing and copying\<close>

lemma Clear_default [simp]:
  "Ping_Clear a = Ping0"
  "IndirectPing_Clear b = IndirectPing0"
  "AckResp_Clear c = AckResp0"
  "NackResp_Clear d = NackResp0"
  "ErrResp_Clear f = ErrResp0"
  "Suspect_Clear g = Suspect0"
  "Alive_Clear h = Alive0"
  "Dead_Clear i = Dead0"
  "PushNodeState_Clear j = PushNodeState0"
  "PushPull_Clear k = PushPull0"
  "User_Clear l = User0"
  "Broadcast_Clear n = Broadcast0"
  "ComBroadcast_Clear r = ComBroadcast0"
  "MessageData_Clear p = MessageData0"
  "Compound_Clear q = Compound0"
  by (simp_all add: Clear_defs default_defs)

lemma MergeFrom_default [simp]:
  "Ping_MergeFrom Ping0 a = a"
  "IndirectPing_MergeFrom IndirectPing0 b = b"
  "AckResp_MergeFrom AckResp0 c = c"
  "NackResp_MergeFrom NackResp0 d = d"
  "ErrResp_MergeFrom ErrResp0 f = f"
  "Suspect_MergeFrom Suspect0 g = g"
  "Alive_MergeFrom Alive0 h = h"
  "Dead_MergeFrom Dead0 i = i"
  "PushNodeState_MergeFrom PushNodeState0 j = j"
  "PushPull_MergeFrom PushPull0 k = k"
  "User_MergeFrom User0 l = l"
  "ComBroadcast_MergeFrom ComBroadcast0 n = n"
  "Compound_MergeFrom Compound0 p = p"
  by (simp_all add: MergeFrom_defs default_defs)

lemma MergeFrom_default_oneof [simp]:
  "Broadcast_MergeFrom Broadcast0 a = a"
  "MessageData_MergeFrom MessageData0 c = c"
proof -
  show "Broadcast_MergeFrom Broadcast0 a = a"
    by (cases a) (auto simp: Broadcast_MergeFrom_def Broadcast0_def oneof_defs split: option.split Content.split)
  show "MessageData_MergeFrom MessageData0 c = c"
    by (cases c) (auto simp: MessageData_MergeFrom_def MessageData0_def oneof_defs split: option.split Body.split)
qed

text \<open>
  Assigning a message makes an exact copy: whatever the target held before, its unknown
  fields and the member of its \<^verbatim>\<open>oneof\<close> included, after \<^verbatim>\<open>CopyFrom\<close> it equals the source.
\<close>

lemma CopyFrom_copies:
  "Ping_CopyFrom a a' = a' \<and>
   IndirectPing_CopyFrom b b' = b' \<and>
   AckResp_CopyFrom c c' = c' \<and>
   NackResp_CopyFrom d d' = d' \<and>
   ErrResp_CopyFrom f f' = f' \<and>
   Suspect_CopyFrom g g' = g' \<and>
   Alive_CopyFrom h h' = h' \<and>
   Dead_CopyFrom i i' = i' \<and>
   PushNodeState_CopyFrom j j' = j' \<and>
   PushPull_CopyFrom k k' = k' \<and>
   User_CopyFrom l l' = l' \<and>
   Broadcast_CopyFrom n n' = n' \<and>
   ComBroadcast_CopyFrom r r' = r' \<and>
   MessageData_CopyFrom p p' = p' \<and>
   Compound_CopyFrom q q' = q'"
  by (simp add: CopyFrom_defs)

end
