(* ===== verification/WireRoundtrip.thy ===== *)
theory WireRoundtrip
  imports Net WireMerge
begin

text \<open>
  Parsing undoes serialising. The locale \<open>pb_codec\<close> adds to the documented encoding what the
  readers of the protobuf runtime promise: each gives back what the matching writer wrote and
  stops right behind it. Under it, every message that fits the format is parsed back from its
  serialisation, and a packet sent with \<^verbatim>\<open>encodeSendUDP\<close> is received intact by
  \<^verbatim>\<open>decodeReceiveUDP\<close> when it is short enough and has no zero byte.
\<close>

section \<open>What the readers promise\<close>

text \<open>The runtime refuses lengths within 16 bytes of \<^verbatim>\<open>INT_MAX\<close>.\<close>

definition length_ok :: "bytes \<Rightarrow> bool" where
  "length_ok s \<longleftrightarrow> length s + 16 < 2 ^ 31"

locale pb_codec = pb_encoding +
  assumes read_tag: "\<lbrakk>0 < f; f < 16; t < 8\<rbrakk> \<Longrightarrow> ReadTag rt (field_tag f t @ r) = (of_nat (8 * f + t), Some r)"
    and read_varint32: "ReadVarint32 rt (varint (unat v) @ r) = (v, Some r)"
    and read_varint64: "ReadVarint64 rt (varint (unat u) @ r) = (u, Some r)"
    and read_string: "length_ok s \<Longrightarrow> InlineGreedyStringParser rt (delimited s @ r) = (Some s, Some r)"
    and read_message: "length_ok s \<Longrightarrow> ReadMessageBytes rt (delimited s @ r) = (s, Some r)"

section \<open>Well-formed messages\<close>

text \<open>
  What a message has to satisfy to be written and read without loss: its texts are valid
  UTF-8 and not too long, its enums are 32-bit numbers, and it has no unknown fields.
\<close>

definition text_ok :: "'r pb_runtime_scheme \<Rightarrow> string \<Rightarrow> bool" where
  "text_ok rt s \<longleftrightarrow> length_ok s \<and> VerifyUTF8 rt s"

definition enum_ok :: "int \<Rightarrow> bool" where
  "enum_ok n \<longleftrightarrow> - (2 ^ 31) \<le> n \<and> n < 2 ^ 31"

definition Ping_ok :: "'r pb_runtime_scheme \<Rightarrow> Ping \<Rightarrow> bool" where
  "Ping_ok rt p \<longleftrightarrow> unknown_fields p = [] \<and> text_ok rt (ping_node p) \<and> text_ok rt (ping_sourceaddr p) \<and>
     text_ok rt (ping_sourcenode p)"

definition IndirectPing_ok :: "'r pb_runtime_scheme \<Rightarrow> IndirectPing \<Rightarrow> bool" where
  "IndirectPing_ok rt p \<longleftrightarrow> unknown_fields p = [] \<and> text_ok rt (iping_node p) \<and> text_ok rt (iping_targetaddr p) \<and>
     text_ok rt (iping_sourceaddr p) \<and> text_ok rt (iping_sourcenode p)"

definition Suspect_ok :: "'r pb_runtime_scheme \<Rightarrow> Suspect \<Rightarrow> bool" where
  "Suspect_ok rt p \<longleftrightarrow> unknown_fields p = [] \<and> text_ok rt (suspect_node p) \<and> text_ok rt (suspect_from p)"

definition Alive_ok :: "'r pb_runtime_scheme \<Rightarrow> Alive \<Rightarrow> bool" where
  "Alive_ok rt p \<longleftrightarrow> unknown_fields p = [] \<and> text_ok rt (alive_node p) \<and> text_ok rt (alive_addr p)"

definition Dead_ok :: "'r pb_runtime_scheme \<Rightarrow> Dead \<Rightarrow> bool" where
  "Dead_ok rt p \<longleftrightarrow> unknown_fields p = [] \<and> text_ok rt (dead_node p) \<and> text_ok rt (dead_from p)"

definition PushNodeState_ok :: "'r pb_runtime_scheme \<Rightarrow> PushNodeState \<Rightarrow> bool" where
  "PushNodeState_ok rt p \<longleftrightarrow> unknown_fields p = [] \<and> text_ok rt (pns_name p) \<and> text_ok rt (pns_addr p) \<and>
     enum_ok (pns_state p) \<and> length_ok (PushNodeState_InternalSerialize rt p)"

definition PushPull_ok :: "'r pb_runtime_scheme \<Rightarrow> PushPull \<Rightarrow> bool" where
  "PushPull_ok rt p \<longleftrightarrow> unknown_fields p = [] \<and> list_all (PushNodeState_ok rt) (pp_states p)"

definition Broadcast_ok :: "'r pb_runtime_scheme \<Rightarrow> Broadcast \<Rightarrow> bool" where
  "Broadcast_ok rt b \<longleftrightarrow> unknown_fields b = [] \<and> enum_ok (bc_type b) \<and> length_ok (Broadcast_InternalSerialize rt b) \<and>
     (case bc_content b of
        None \<Rightarrow> True
      | Some (ContentAlive a) \<Rightarrow> Alive_ok rt a \<and> length_ok (Alive_InternalSerialize rt a)
      | Some (ContentDead d) \<Rightarrow> Dead_ok rt d \<and> length_ok (Dead_InternalSerialize rt d)
      | Some (ContentSuspect s) \<Rightarrow> Suspect_ok rt s \<and> length_ok (Suspect_InternalSerialize rt s))"

definition ComBroadcast_ok :: "'r pb_runtime_scheme \<Rightarrow> ComBroadcast \<Rightarrow> bool" where
  "ComBroadcast_ok rt c \<longleftrightarrow> unknown_fields c = [] \<and> list_all (Broadcast_ok rt) (cbc_bs c)"

definition Body_ok :: "'r pb_runtime_scheme \<Rightarrow> Body \<Rightarrow> bool" where
  "Body_ok rt b =
     (case b of
        BodyPing p \<Rightarrow> Ping_ok rt p \<and> length_ok (Ping_InternalSerialize rt p)
      | BodyIndirectPing p \<Rightarrow> IndirectPing_ok rt p \<and> length_ok (IndirectPing_InternalSerialize rt p)
      | BodyAckResp p \<Rightarrow> unknown_fields p = [] \<and> length_ok (AckResp_InternalSerialize rt p)
      | BodyNackResp p \<Rightarrow> unknown_fields p = [] \<and> length_ok (NackResp_InternalSerialize rt p)
      | BodyPushPull p \<Rightarrow> PushPull_ok rt p \<and> length_ok (PushPull_InternalSerialize rt p)
      | BodyComBroadcast p \<Rightarrow> ComBroadcast_ok rt p \<and> length_ok (ComBroadcast_InternalSerialize rt p)
      | BodyUser p \<Rightarrow> unknown_fields p = [] \<and> text_ok rt (user_msg p) \<and> length_ok (User_InternalSerialize rt p)
      | BodyErrResp p \<Rightarrow> unknown_fields p = [] \<and> text_ok rt (err_error p) \<and> length_ok (ErrResp_InternalSerialize rt p))"

definition MessageData_ok :: "'r pb_runtime_scheme \<Rightarrow> MessageData \<Rightarrow> bool" where
  "MessageData_ok rt m \<longleftrightarrow> unknown_fields m = [] \<and> enum_ok (md_head m) \<and>
     (case md_body m of None \<Rightarrow> True | Some b \<Rightarrow> Body_ok rt b)"

lemma enum_ok_cast:
  assumes "enum_ok n"
  shows "sint (ucast (word_of_int n :: uint64) :: uint32) = n" and "enum64 n = unat (word_of_int n :: uint64)"
proof -
  have "ucast (word_of_int n :: uint64) = (word_of_int n :: uint32)"
    by (rule bit_word_eqI) (auto simp: bit_simps)
  moreover have "sint (word_of_int n :: uint32) = n"
    using assms by (simp add: enum_ok_def int_word_sint mod_pos_pos_trivial)
  ultimately show "sint (ucast (word_of_int n :: uint64) :: uint32) = n"
    by simp
  show "enum64 n = unat (word_of_int n :: uint64)"
    unfolding enum64_def unat_eq_nat_uint uint_word_of_int by simp
qed

section \<open>Reading field by field\<close>

text \<open>
  \<open>reads rt field m bs m'\<close>: with \<open>bs\<close> in front of the input and enough rounds, the loop turns
  \<open>m\<close> into \<open>m'\<close>, and has enough rounds left for what follows.
\<close>

definition reads ::
  "'r pb_runtime_scheme \<Rightarrow> (uint32 \<Rightarrow> 'm pb_message_scheme \<Rightarrow> bytes \<Rightarrow> ('m pb_message_scheme \<times> bytes option) option) \<Rightarrow>
   'm pb_message_scheme \<Rightarrow> bytes \<Rightarrow> 'm pb_message_scheme \<Rightarrow> bool" where
  "reads rt field m bs m' \<longleftrightarrow>
     (\<forall>k rest. length (bs @ rest) \<le> k \<longrightarrow>
        (\<exists>k'. length rest \<le> k' \<and> parse_loop k rt field m (bs @ rest) = parse_loop k' rt field m' rest))"

lemma reads_end: "u = [] \<Longrightarrow> m = m' \<Longrightarrow> reads rt field m u m'"
  by (auto simp: reads_def)

lemma reads_append:
  assumes "reads rt field m bs m1" and "reads rt field m1 bs' m'"
  shows "reads rt field m (bs @ bs') m'"
  using assms unfolding reads_def by (metis append_assoc)

lemma reads_last: "reads rt field m bs m' \<Longrightarrow> u = [] \<Longrightarrow> reads rt field m (bs @ u) m'"
  by simp

lemma reads_parse: "reads rt field m bs m' \<Longrightarrow> parse_message rt field m bs = (m', True)"
proof -
  assume "reads rt field m bs m'"
  then obtain k where "parse_message rt field m bs = parse_loop k rt field m' []"
    unfolding reads_def parse_message_def by (metis append_Nil2 order_refl)
  then show ?thesis by (cases k) simp_all
qed

lemma reads_field:
  assumes "tagged \<noteq> []" and "\<And>rest. ReadTag rt (tagged @ rest) = (tag, Some (bs @ rest))"
    and "\<And>rest. field tag m (bs @ rest) = Some (m', Some rest)"
  shows "reads rt field m tagged m'"
  unfolding reads_def
proof (intro allI impI)
  fix k rest assume le: "length (tagged @ rest) \<le> k"
  then obtain j where "k = Suc j"
    using assms(1) by (cases k) auto
  moreover have "length rest \<le> j"
    using le assms(1) \<open>k = Suc j\<close> by (cases tagged) auto
  ultimately show "\<exists>k'. length rest \<le> k' \<and> parse_loop k rt field m (tagged @ rest) = parse_loop k' rt field m' rest"
    using assms by auto
qed

context pb_codec
begin

lemma tagged:
  assumes "0 < f" "f < 16" "t < 8" and "\<And>rest. field (of_nat (8 * f + t)) m (bs @ rest) = Some (m', Some rest)"
  shows "reads rt field m (field_tag f t @ bs) m'"
proof (rule reads_field)
  show "field_tag f t @ bs \<noteq> []"
    by (subst field_tag_def, subst varint.simps) simp
qed (use assms in \<open>simp_all add: read_tag\<close>)

text \<open>One field in front of the others, by its type.\<close>

lemma then_uint32:
  assumes "field (of_nat (8 * f)) m = get_uint32 rt put m"
    and "\<And>m1. m1 = (if v = 0 then m else put v m) \<Longrightarrow> reads rt field m1 bs m'" and "0 < f" and "f < 16"
  shows "reads rt field m (ser_uint32 rt f v @ bs) m'"
proof (cases "v = 0")
  case False
  then have "reads rt field m (ser_uint32 rt f v) (put v m)"
    using tagged [of f 0 field m "varint (unat v)" "put v m"] assms
    by (simp add: ser_uint32_def write_uint32 get_uint32_def read_varint32)
  then show ?thesis using assms(2) False by (simp add: reads_append)
qed (use assms(2) in \<open>simp add: ser_uint32_def\<close>)

lemma then_bool:
  assumes "field (of_nat (8 * f)) m = get_bool rt put m"
    and "\<And>m1. m1 = (if \<not> v then m else put v m) \<Longrightarrow> reads rt field m1 bs m'" and "0 < f" and "f < 16"
  shows "reads rt field m (ser_bool rt f v @ bs) m'"
proof (cases v)
  case True
  then have "reads rt field m (ser_bool rt f v) (put v m)"
    using tagged [of f 0 field m "varint 1" "put v m"] read_varint64 [of 1] assms
    by (simp add: ser_bool_def write_bool get_bool_def)
  then show ?thesis using assms(2) True by (simp add: reads_append)
qed (use assms(2) in \<open>simp add: ser_bool_def\<close>)

lemma then_enum:
  assumes "field (of_nat (8 * f)) m = get_enum rt put m"
    and "\<And>m1. m1 = (if v = 0 then m else put v m) \<Longrightarrow> reads rt field m1 bs m'" and "0 < f" and "f < 16" and "enum_ok v"
  shows "reads rt field m (ser_enum rt f v @ bs) m'"
proof (cases "v = 0")
  case False
  then have "reads rt field m (ser_enum rt f v) (put v m)"
    using tagged [of f 0 field m "varint (enum64 v)" "put v m"] assms enum_ok_cast [OF assms(5)]
    by (simp add: ser_enum_def write_enum get_enum_def read_varint64)
  then show ?thesis using assms(2) False by (simp add: reads_append)
qed (use assms(2) in \<open>simp add: ser_enum_def\<close>)

lemma then_string:
  assumes "field (of_nat (8 * f + 2)) m = get_string rt get put m"
    and "\<And>m1. m1 = (if v = [] then m else put v m) \<Longrightarrow> reads rt field m1 bs m'" and "0 < f" and "f < 16" and "text_ok rt v" and "get (put v m) = v"
  shows "reads rt field m (ser_string rt f v @ bs) m'"
proof (cases "v = []")
  case False
  then have "reads rt field m (ser_string rt f v) (put v m)"
    using tagged [of f 2 field m "delimited v" "put v m"] assms
    by (simp add: ser_string_def write_string get_string_def read_string text_ok_def)
  then show ?thesis using assms(2) False by (simp add: reads_append)
qed (use assms(2) in \<open>simp add: ser_string_def\<close>)

lemma one_message:
  assumes "field (of_nat (8 * f + 2)) m = get_message rt parse sub put m" and "parse sub s = (x, True)"
    and "put x m = m'" and "0 < f" and "f < 16" and "length_ok s"
  shows "reads rt field m (InternalWriteMessage rt f s) m'"
  using tagged [of f 2 field m "delimited s" m'] assms
  by (simp add: write_message get_message_def read_message)

lemma then_repeated:
  assumes "\<And>m. field (of_nat (8 * f + 2)) m = get_message rt parse sub put m"
    and "\<And>x. x \<in> set xs \<Longrightarrow> parse sub (ser x) = (x, True) \<and> length_ok (ser x)"
    and "reads rt field (fold put xs m) bs m'" and "0 < f" and "f < 16"
  shows "reads rt field m (concat (map (\<lambda>x. InternalWriteMessage rt f (ser x)) xs) @ bs) m'"
  using assms
proof (induction xs arbitrary: m)
  case (Cons x xs)
  then have "reads rt field (put x m) (concat (map (\<lambda>x. InternalWriteMessage rt f (ser x)) xs) @ bs) m'"
    by simp
  then show ?case
    using reads_append [OF one_message [of field f m parse sub put "ser x" x]] Cons.prems(1,2,4,5) by simp
qed simp

text \<open>A field, whatever its type, and the end of the message.\<close>

lemmas then_field = then_uint32 then_bool then_enum then_string

lemma parse_Ping: "Ping_ok rt p \<Longrightarrow> Ping_InternalParse rt m (Ping_InternalSerialize rt p) = (Ping_MergeFrom m p, True)"
  unfolding Ping_InternalParse_def Ping_InternalSerialize_def Ping_ok_def
  by (rule reads_parse, (rule then_field, (simp; fail)+)+, rule reads_end)
    (simp_all add: Ping_MergeFrom_def merge_field_defs)

lemma parse_IndirectPing: "IndirectPing_ok rt p \<Longrightarrow> IndirectPing_InternalParse rt m (IndirectPing_InternalSerialize rt p) = (IndirectPing_MergeFrom m p, True)"
  unfolding IndirectPing_InternalParse_def IndirectPing_InternalSerialize_def IndirectPing_ok_def
  by (rule reads_parse, (rule then_field, (simp; fail)+)+, rule reads_end)
    (simp_all add: IndirectPing_MergeFrom_def merge_field_defs)

lemma parse_Suspect: "Suspect_ok rt p \<Longrightarrow> Suspect_InternalParse rt m (Suspect_InternalSerialize rt p) = (Suspect_MergeFrom m p, True)"
  unfolding Suspect_InternalParse_def Suspect_InternalSerialize_def Suspect_ok_def
  by (rule reads_parse, (rule then_field, (simp; fail)+)+, rule reads_end)
    (simp_all add: Suspect_MergeFrom_def merge_field_defs)

lemma parse_Alive: "Alive_ok rt p \<Longrightarrow> Alive_InternalParse rt m (Alive_InternalSerialize rt p) = (Alive_MergeFrom m p, True)"
  unfolding Alive_InternalParse_def Alive_InternalSerialize_def Alive_ok_def
  by (rule reads_parse, (rule then_field, (simp; fail)+)+, rule reads_end)
    (simp_all add: Alive_MergeFrom_def merge_field_defs)

lemma parse_Dead: "Dead_ok rt p \<Longrightarrow> Dead_InternalParse rt m (Dead_InternalSerialize rt p) = (Dead_MergeFrom m p, True)"
  unfolding Dead_InternalParse_def Dead_InternalSerialize_def Dead_ok_def
  by (rule reads_parse, (rule then_field, (simp; fail)+)+, rule reads_end)
    (simp_all add: Dead_MergeFrom_def merge_field_defs)

lemma parse_PushNodeState: "PushNodeState_ok rt p \<Longrightarrow> PushNodeState_InternalParse rt m (PushNodeState_InternalSerialize rt p) = (PushNodeState_MergeFrom m p, True)"
  unfolding PushNodeState_InternalParse_def PushNodeState_InternalSerialize_def PushNodeState_ok_def
  by (rule reads_parse, (rule then_field, (simp; fail)+)+, rule reads_end)
    (simp_all add: PushNodeState_MergeFrom_def merge_field_defs)

lemma parse_AckResp:
  "unknown_fields p = [] \<Longrightarrow> AckResp_InternalParse rt m (AckResp_InternalSerialize rt p) = (AckResp_MergeFrom m p, True)"
  unfolding AckResp_InternalParse_def AckResp_InternalSerialize_def
  by (rule reads_parse, (rule then_field, (simp; fail)+)+, rule reads_end)
    (simp_all add: AckResp_MergeFrom_def merge_field_defs)

lemma parse_NackResp:
  "unknown_fields p = [] \<Longrightarrow> NackResp_InternalParse rt m (NackResp_InternalSerialize rt p) = (NackResp_MergeFrom m p, True)"
  unfolding NackResp_InternalParse_def NackResp_InternalSerialize_def
  by (rule reads_parse, (rule then_field, (simp; fail)+)+, rule reads_end)
    (simp_all add: NackResp_MergeFrom_def merge_field_defs)

lemma parse_User:
  "unknown_fields p = [] \<Longrightarrow> text_ok rt (user_msg p) \<Longrightarrow> User_InternalParse rt m (User_InternalSerialize rt p) = (User_MergeFrom m p, True)"
  unfolding User_InternalParse_def User_InternalSerialize_def
  by (rule reads_parse, (rule then_field, (simp; fail)+)+, rule reads_end)
    (simp_all add: User_MergeFrom_def merge_field_defs)

lemma parse_ErrResp:
  "unknown_fields p = [] \<Longrightarrow> text_ok rt (err_error p) \<Longrightarrow> ErrResp_InternalParse rt m (ErrResp_InternalSerialize rt p) = (ErrResp_MergeFrom m p, True)"
  unfolding ErrResp_InternalParse_def ErrResp_InternalSerialize_def
  by (rule reads_parse, (rule then_field, (simp; fail)+)+, rule reads_end)
    (simp_all add: ErrResp_MergeFrom_def merge_field_defs)

lemma ok_length:
  "PushNodeState_ok rt s \<Longrightarrow> length_ok (PushNodeState_InternalSerialize rt s)"
  "Broadcast_ok rt b \<Longrightarrow> length_ok (Broadcast_InternalSerialize rt b)"
  by (simp_all add: PushNodeState_ok_def Broadcast_ok_def)

lemma parse_PushPull: "PushPull_ok rt p \<Longrightarrow> PushPull_InternalParse rt m (PushPull_InternalSerialize rt p) = (PushPull_MergeFrom m p, True)"
proof -
  have states: "fold (\<lambda>x m. m\<lparr>pp_states := pp_states m @ [x]\<rparr>) xs m = m\<lparr>pp_states := pp_states m @ xs\<rparr>" for xs and m :: PushPull
    by (induction xs arbitrary: m) simp_all
  show "PushPull_ok rt p \<Longrightarrow> ?thesis"
    unfolding PushPull_InternalParse_def PushPull_InternalSerialize_def PushPull_ok_def list_all_iff
    by (rule reads_parse, (rule then_bool then_repeated, (simp add: parse_PushNodeState ok_length; fail)+)+, rule reads_end)
      (simp_all add: states PushPull_MergeFrom_def merge_field_defs)
qed

lemma parse_Broadcast:
  "Broadcast_ok rt b \<Longrightarrow> Broadcast_InternalParse rt m (Broadcast_InternalSerialize rt b) = (Broadcast_MergeFrom m b, True)"
  unfolding Broadcast_InternalParse_def Broadcast_InternalSerialize_def Broadcast_ok_def
  by (rule reads_parse, rule then_enum, (simp; fail)+,
      rule reads_last, split option.split, intro conjI impI allI,
      (rule reads_end, (simp add: Broadcast_MergeFrom_def merge_field_defs; fail)+),
      split Content.split, (intro conjI impI allI)?)
    (rule one_message, (simp add: oneof_defs parse_Alive parse_Dead parse_Suspect Broadcast_MergeFrom_def merge_field_defs; fail)+ | simp; fail)+

lemma parse_ComBroadcast:
  "ComBroadcast_ok rt c \<Longrightarrow> ComBroadcast_InternalParse rt m (ComBroadcast_InternalSerialize rt c) = (ComBroadcast_MergeFrom m c, True)"
proof -
  have parts: "fold (\<lambda>x m. m\<lparr>cbc_bs := cbc_bs m @ [x]\<rparr>) xs m = m\<lparr>cbc_bs := cbc_bs m @ xs\<rparr>" for xs and m :: ComBroadcast
    by (induction xs arbitrary: m) simp_all
  show "ComBroadcast_ok rt c \<Longrightarrow> ?thesis"
    unfolding ComBroadcast_InternalParse_def ComBroadcast_InternalSerialize_def ComBroadcast_ok_def list_all_iff
    by (rule reads_parse, rule then_repeated, (simp add: parse_Broadcast ok_length; fail)+, rule reads_end)
      (simp_all add: parts ComBroadcast_MergeFrom_def)
qed

lemmas parse_parts = parse_Ping parse_IndirectPing parse_AckResp parse_NackResp parse_PushPull parse_ComBroadcast
  parse_User parse_ErrResp

lemma reads_MessageData:
  "\<exists>field. MessageData_InternalParse rt = parse_message rt field \<and>
     (\<forall>m x. MessageData_ok rt x \<longrightarrow> reads rt field m (MessageData_InternalSerialize rt x) (MessageData_MergeFrom m x))"
  unfolding MessageData_InternalParse_def MessageData_InternalSerialize_def MessageData_ok_def Body_ok_def
  by (rule exI, rule conjI, rule refl, intro allI impI, rule then_enum, (simp; fail)+,
      rule reads_last, split option.split, intro conjI impI allI,
      (rule reads_end, (simp add: MessageData_MergeFrom_def merge_field_defs; fail)+),
      split Body.split, (intro conjI impI allI)?)
    (rule one_message, (simp add: oneof_defs parse_parts MessageData_MergeFrom_def merge_field_defs; fail)+ | simp; fail)+

text \<open>Messages behind each other are read as if each were merged into what was read before.\<close>

lemma parse_concat:
  assumes "list_all (MessageData_ok rt) xs"
  shows "MessageData_InternalParse rt m (concat (map (MessageData_InternalSerialize rt) xs)) = (foldl MessageData_MergeFrom m xs, True)"
proof -
  obtain field where parse: "MessageData_InternalParse rt = parse_message rt field"
    and one: "\<And>m x. MessageData_ok rt x \<Longrightarrow> reads rt field m (MessageData_InternalSerialize rt x) (MessageData_MergeFrom m x)"
    using reads_MessageData by blast
  have "reads rt field m (concat (map (MessageData_InternalSerialize rt) xs)) (foldl MessageData_MergeFrom m xs)"
    using assms
  proof (induction xs arbitrary: m)
    case Nil
    show ?case by (simp add: reads_end)
  next
    case (Cons x xs)
    then show ?case by (simp add: reads_append [OF one])
  qed
  then show ?thesis
    unfolding parse by (rule reads_parse)
qed

lemma parse_MessageData:
  "MessageData_ok rt x \<Longrightarrow> MessageData_InternalParse rt m (MessageData_InternalSerialize rt x) = (MessageData_MergeFrom m x, True)"
  using parse_concat [of "[x]" m] by simp

end

lemma read_varint_word:
  fixes v :: "'a :: len word"
  assumes "2 ^ LENGTH('a) \<le> (128 :: nat) ^ k" and "0 < k"
  shows "read_varint k (varint (unat v) @ r) = Some (unat v, r)"
proof (rule read_varint_varint)
  have "unat v < 2 ^ LENGTH('a)"
    by (rule unsigned_less)
  then show "unat v < 128 ^ k"
    using assms(1) by (rule less_le_trans)
qed (rule assms(2))

lemmas runtime_defs = std_runtime_def read_fail_def read_string_def read_frame_def field_tag_def delimited_def length_ok_def

interpretation std: pb_codec std_runtime
proof unfold_locales
  show "ReadVarint32 std_runtime (varint (unat v) @ r) = (v, Some r)" for v r
    using read_varint_word [of 10 v r] by (simp add: runtime_defs)
  show "ReadVarint64 std_runtime (varint (unat v) @ r) = (v, Some r)" for v r
    using read_varint_word [of 10 v r] by (simp add: runtime_defs)
qed (simp_all add: runtime_defs read_varint_varint)

interpretation ref: pb_codec ref_env
  using std.pb_codec_axioms unfolding pb_codec_def pb_encoding_def pb_codec_axioms_def ref_env_def by simp

text \<open>
  C20. Parsing undoes serialising: for every runtime whose readers undo its writers, a message
  without unknown fields, whose texts are valid and not too long and whose enums are 32-bit
  numbers, is parsed back exactly from the bytes it serialises to.
\<close>

theorem ParseFromString_roundtrip:
  assumes "pb_codec rt" and "MessageData_ok rt m"
  shows "ParseFromString rt (MessageData_InternalSerialize rt m) = (m, True)"
  unfolding ParseFromString_def by (simp add: pb_codec.parse_MessageData [OF assms])

text \<open>
  C21. Parsing is merging: the serialisations of any number of messages behind each other are
  parsed as the messages merged in their order, so a later scalar replaces an earlier one, a
  repeated field collects all entries, and another member of a \<^verbatim>\<open>oneof\<close> replaces the one before.
\<close>

theorem ParseFromString_merges:
  assumes "pb_codec rt" and "list_all (MessageData_ok rt) xs"
  shows "ParseFromString rt (concat (map (MessageData_InternalSerialize rt) xs)) =
     (foldl MessageData_MergeFrom MessageData0 xs, True)"
  unfolding ParseFromString_def using assms by (rule pb_codec.parse_concat)

section \<open>Sending and receiving\<close>

text \<open>
  A received packet is read as a C string, up to its first zero byte. A serialisation has
  one where a text has one and where a submessage is empty, its length being zero then.
\<close>

definition nul_free :: "bytes \<Rightarrow> bool" where
  "nul_free s \<longleftrightarrow> CHR 0x00 \<notin> set s"

lemma c_str_nul_free: "nul_free s \<Longrightarrow> c_str s = s"
  unfolding c_str_def nul_free_def by (induction s) auto

lemma nul_free_append [simp]: "nul_free []" "nul_free (xs @ ys) \<longleftrightarrow> nul_free xs \<and> nul_free ys"
  by (simp_all add: nul_free_def)

lemma nul_free_varint [simp]: "nul_free (varint n) \<longleftrightarrow> n \<noteq> 0"
proof (induction n rule: varint.induct)
  case (1 n)
  have nul: "k < 256 \<Longrightarrow> CHR 0x00 = char_of k \<longleftrightarrow> k = 0" for k :: nat
  proof -
    assume "k < 256"
    then have "(of_char (char_of k :: char) :: nat) = k"
      by simp
    moreover have "(of_char (CHR 0x00) :: nat) = 0"
      by simp
    ultimately show ?thesis
      by (metis char_of_char)
  qed
  show ?case
    using 1 by (subst varint.simps) (auto simp: nul_free_def nul)
qed

lemma nul_free_tag [simp]: "0 < f \<Longrightarrow> nul_free (field_tag f t)"
  by (simp add: field_tag_def)

lemma nul_free_delimited [simp]: "nul_free (delimited s) \<longleftrightarrow> s \<noteq> [] \<and> nul_free s"
  by (auto simp: delimited_def)

lemma enum64_nonzero: "enum_ok n \<Longrightarrow> n \<noteq> 0 \<Longrightarrow> enum64 n \<noteq> 0"
proof -
  assume "enum_ok n" "n \<noteq> 0"
  then have "\<not> 2 ^ 64 dvd n"
    by (auto simp: enum_ok_def dest: zdvd_imp_le [of "2 ^ 64" n] zdvd_imp_le [of "2 ^ 64" "- n"])
  then have "n mod 2 ^ 64 \<noteq> 0"
    by (simp add: dvd_eq_mod_eq_0)
  then show ?thesis
    using pos_mod_sign [of "2 ^ 64" n] by (simp add: enum64_def)
qed

context pb_encoding
begin

lemma nul_free_fields [simp]:
  "0 < f \<Longrightarrow> nul_free (ser_uint32 rt f v)" "0 < f \<Longrightarrow> nul_free (ser_bool rt f b)"
  "0 < f \<Longrightarrow> enum_ok n \<Longrightarrow> nul_free (ser_enum rt f n)" "0 < f \<Longrightarrow> nul_free (ser_string rt f s) \<longleftrightarrow> nul_free s"
  "0 < f \<Longrightarrow> nul_free (InternalWriteMessage rt f s) \<longleftrightarrow> s \<noteq> [] \<and> nul_free s"
  by (auto simp: field_defs writes unat_eq_0 enum64_nonzero)

text \<open>The messages of the failure detector, with a sequence number that has not wrapped to zero.\<close>

lemma nul_free_probe:
  assumes "seqno \<noteq> 0"
  shows "nul_free node \<Longrightarrow> nul_free addr \<Longrightarrow> nul_free src \<Longrightarrow>
      nul_free (MessageData_InternalSerialize rt (genPing seqno node addr port src))"
    and "nul_free (MessageData_InternalSerialize rt (genAckResp seqno))"
    and "nul_free (MessageData_InternalSerialize rt (genNackResp seqno))"
proof -
  have "ser_uint32 rt 1 seqno \<noteq> []"
    using assms length_ser_fields(1) [of 1 seqno] by (force simp: field_defs size_uint32)
  then show "nul_free node \<Longrightarrow> nul_free addr \<Longrightarrow> nul_free src \<Longrightarrow>
      nul_free (MessageData_InternalSerialize rt (genPing seqno node addr port src))"
    "nul_free (MessageData_InternalSerialize rt (genAckResp seqno))"
    "nul_free (MessageData_InternalSerialize rt (genNackResp seqno))"
    by (simp_all add: genPing_def genAckResp_def genNackResp_def MessageData_InternalSerialize_def MessageData0_def
        Ping_InternalSerialize_def Ping0_def AckResp_InternalSerialize_def AckResp0_def
        NackResp_InternalSerialize_def NackResp0_def enum_ok_def)
qed

end

lemma parse_sent:
  assumes "pb_codec e" and "MessageData_ok e md" and "nul_free (beforeSend e md)" and "length (beforeSend e md) < 1024"
  shows "parse_buffer e (int (length (beforeSend e md))) (beforeSend e md) w = (Inr md, w)"
  using assms(3,4) pb_codec.parse_MessageData [OF assms(1,2)]
  by (simp add: parse_buffer_def ret_def c_str_nul_free beforeSend_def ParseFromString_def)

text \<open>
  C32. A packet of fewer than 1024 bytes without a zero byte arrives intact: when the socket
  delivers the bytes \<^verbatim>\<open>encodeSendUDP\<close> or \<^verbatim>\<open>encodeSendTCP\<close> handed to the system, the receiving side
  decodes exactly the message that was sent.
\<close>

theorem packet_delivered:
  assumes "pb_codec e" and "MessageData_ok e md" and "nul_free (beforeSend e md)" and "length (beforeSend e md) < 1024"
    and "sys_recvfrom e fd 1024 w = (Some (int (length (beforeSend e md)), beforeSend e md, peer), w')"
    and "sys_read e fd' 1024 v = (Some (int (length (beforeSend e md)), beforeSend e md), v')"
  shows "decodeReceiveUDP e fd w = (Inr (md, peer), w') \<and> decodeReceiveTCP e fd' v = (Inr md, v')"
  using assms(5,6) parse_sent [OF assms(1-4)]
  by (simp add: decodeReceiveUDP_def decodeReceiveTCP_def Recvfrom_def Read_def checked_def call_blocking_def bindE_def
      ret_def)

section \<open>A sample packet\<close>

definition sample_packet :: MessageData where
  "sample_packet = genPing 300 ''b'' ''127.0.0.1'' 6666 ''a''"

lemma sample_packet_ok: "MessageData_ok ref_env sample_packet" "length (beforeSend ref_env sample_packet) = 25"
proof -
  have "length (varint 300) = 2" "length (varint 6666) = 2"
    by (subst varint.simps, simp)+
  then have "Ping_ByteSizeLong ref_env (md_ping sample_packet) = 23"
    by (simp add: sample_packet_def genPing_def oneof_defs MessageData0_def Ping0_def Ping_ByteSizeLong_def field_defs
        ref.size_uint32 ref.size_string)
  then show "MessageData_ok ref_env sample_packet" "length (beforeSend ref_env sample_packet) = 25"
    by (simp_all add: sample_packet_def genPing_def oneof_defs MessageData0_def Ping0_def beforeSend_def
        MessageData_ByteSizeLong_def MessageSize_def ref.size_delimited field_defs MessageData_ok_def Body_ok_def
        enum_ok_def Ping_ok_def text_ok_def length_ok_def)
      (simp_all add: ref_env_def std_runtime_def)
qed

theorem ParseFromString_roundtrip_witness:
  "ParseFromString ref_env (MessageData_InternalSerialize ref_env sample_packet) = (sample_packet, True)"
  by (rule ParseFromString_roundtrip [OF ref.pb_codec_axioms sample_packet_ok(1)])

text \<open>A ping and an acknowledgement in one buffer: the acknowledgement wins.\<close>

theorem ParseFromString_merges_witness:
  "ParseFromString ref_env (MessageData_InternalSerialize ref_env sample_packet @
     MessageData_InternalSerialize ref_env (genAckResp 300)) = (genAckResp 300, True)"
proof -
  have "length (varint 300) = 2"
    by (subst varint.simps, simp)
  then have "length (AckResp_InternalSerialize ref_env (AckResp0\<lparr>ack_seqno := 300\<rparr>)) = 3"
    by (simp add: AckResp_ByteSizeLong_def AckResp0_def field_defs ref.size_uint32)
  then have "MessageData_ok ref_env (genAckResp 300)"
    by (simp add: MessageData_ok_def Body_ok_def genAckResp_def MessageData0_def enum_ok_def length_ok_def AckResp0_def)
  then show ?thesis
    using ParseFromString_merges [OF ref.pb_codec_axioms, of "[sample_packet, genAckResp 300]"] sample_packet_ok(1)
    by (simp add: genAckResp_def MessageData_MergeFrom_def MessageData0_def AckResp0_def sample_packet_def genPing_def
        oneof_defs merge_field_defs AckResp_MergeFrom_def)
qed

text \<open>The reference system with one packet waiting on a descriptor.\<close>

definition waiting :: "int \<Rightarrow> bytes \<Rightarrow> ref_world" where
  "waiting fd bs = world0\<lparr>rw_inbox := [(fd, bs)]\<rparr>"

lemma read_waiting:
  "sys_read ref_env fd n (waiting fd bs) = (Some (int (min n (length bs)), take n bs), world0)"
  "sys_recvfrom ref_env fd n (waiting fd bs) = (Some (int (min n (length bs)), take n bs, addr0), world0)"
  by (simp_all add: ref_env_def ref_read_def waiting_def world0_def)

theorem packet_delivered_witness:
  "decodeReceiveUDP ref_env 5 (waiting 5 (beforeSend ref_env sample_packet)) = (Inr (sample_packet, addr0), world0) \<and>
   decodeReceiveTCP ref_env 6 (waiting 6 (beforeSend ref_env sample_packet)) = (Inr sample_packet, world0)"
proof (rule packet_delivered [OF ref.pb_codec_axioms sample_packet_ok(1)])
  show "nul_free (beforeSend ref_env sample_packet)"
    unfolding beforeSend_def sample_packet_def by (rule ref.nul_free_probe) (simp_all add: nul_free_def)
qed (simp_all add: sample_packet_ok(2) read_waiting)

end
