(* ===== verification/Recording.thy ===== *)
theory Recording
  imports NodeTable
begin

text \<open>
  The calls of one run. \<open>recording e\<close> is the platform \<open>e\<close> with a log beside the world: every
  call answers as \<open>e\<close> does, and each call that makes a pipe or a socket or reads from a
  descriptor is entered with the world it was made in. So a theorem about a run on \<open>recording e\<close>
  can speak of the descriptors this run has made and of what it has read from them.
\<close>

section \<open>A platform that keeps a log\<close>

datatype 'w sys_call = CallPipe int 'w | CallSocket int int int 'w | CallRead int nat 'w

definition unlogged :: "('w \<Rightarrow> 'a \<times> 'w) \<Rightarrow> 'w \<times> 'l \<Rightarrow> 'a \<times> ('w \<times> 'l)" where
  "unlogged f s = (case f (fst s) of (a, w') \<Rightarrow> (a, (w', snd s)))"

definition logged :: "('w \<Rightarrow> 'w sys_call) \<Rightarrow> ('w \<Rightarrow> 'a \<times> 'w) \<Rightarrow> 'w \<times> 'w sys_call list \<Rightarrow> 'a \<times> ('w \<times> 'w sys_call list)" where
  "logged c f s = (case f (fst s) of (a, w') \<Rightarrow> (a, (w', snd s @ [c (fst s)])))"

definition recording :: "('w, 'e) env_scheme \<Rightarrow> ('w \<times> 'w sys_call list) env" where
  "recording e =
     \<lparr>WriteUInt32ToArray = WriteUInt32ToArray e,
      WriteEnumToArray = WriteEnumToArray e,
      WriteBoolToArray = WriteBoolToArray e,
      WriteStringMaybeAliased = WriteStringMaybeAliased e,
      InternalWriteMessage = InternalWriteMessage e,
      UInt32SizePlusOne = UInt32SizePlusOne e,
      EnumSize = EnumSize e,
      StringSize = StringSize e,
      LengthDelimitedSize = LengthDelimitedSize e,
      ReadTag = ReadTag e,
      ReadVarint32 = ReadVarint32 e,
      ReadVarint64 = ReadVarint64 e,
      InlineGreedyStringParser = InlineGreedyStringParser e,
      ReadMessageBytes = ReadMessageBytes e,
      VerifyUTF8 = VerifyUTF8 e,
      UnknownFieldParse = UnknownFieldParse e,
      fp_round = fp_round e,
      inet_pton4 = inet_pton4 e,
      inet_ntop4 = inet_ntop4 e,
      sys_errno = (\<lambda>s. sys_errno e (fst s)),
      sys_set_errno = (\<lambda>n s. (sys_set_errno e n (fst s), snd s)),
      sys_now = unlogged (sys_now e),
      sys_rand = unlogged (sys_rand e),
      sys_garbage = unlogged (sys_garbage e),
      sys_thread = unlogged (sys_thread e),
      sys_socket = (\<lambda>d t p. logged (CallSocket d t p) (sys_socket e d t p)),
      sys_bind = (\<lambda>fd a. unlogged (sys_bind e fd a)),
      sys_listen = (\<lambda>fd n. unlogged (sys_listen e fd n)),
      sys_connect = (\<lambda>fd a. unlogged (sys_connect e fd a)),
      sys_accept = (\<lambda>fd. unlogged (sys_accept e fd)),
      sys_write = (\<lambda>fd b. unlogged (sys_write e fd b)),
      sys_read = (\<lambda>fd n. logged (CallRead fd n) (sys_read e fd n)),
      sys_close = (\<lambda>fd. unlogged (sys_close e fd)),
      sys_sendto = (\<lambda>fd b a. unlogged (sys_sendto e fd b a)),
      sys_recvfrom = (\<lambda>fd n. unlogged (sys_recvfrom e fd n)),
      sys_epoll_create = (\<lambda>n. unlogged (sys_epoll_create e n)),
      sys_epoll_ctl = (\<lambda>a b c. unlogged (sys_epoll_ctl e a b c)),
      sys_epoll_wait = (\<lambda>a b c. unlogged (sys_epoll_wait e a b c)),
      sys_pipe = (\<lambda>fl. logged (CallPipe fl) (sys_pipe e fl)),
      sys_select = (\<lambda>n fds t. unlogged (sys_select e n fds t)),
      sys_fcntl_getfl = (\<lambda>fd. unlogged (sys_fcntl_getfl e fd)),
      sys_fcntl_setfl = (\<lambda>fd n. unlogged (sys_fcntl_setfl e fd n)),
      sys_so_error = (\<lambda>fd. unlogged (sys_so_error e fd)),
      sys_set_timeouts = (\<lambda>fd t. unlogged (sys_set_timeouts e fd t)),
      sys_peername = (\<lambda>fd. unlogged (sys_peername e fd)),
      sys_hostname = unlogged (sys_hostname e),
      sys_sleep = (\<lambda>t s. (sys_sleep e t (fst s), snd s))\<rparr>"

lemma recording_calls [simp]:
  "fp_round (recording e) = fp_round e" "inet_pton4 (recording e) = inet_pton4 e"
  "sys_errno (recording e) s = sys_errno e (fst s)" "sys_set_errno (recording e) n s = (sys_set_errno e n (fst s), snd s)"
  "sys_now (recording e) = unlogged (sys_now e)" "sys_rand (recording e) = unlogged (sys_rand e)"
  "sys_garbage (recording e) = unlogged (sys_garbage e)" "sys_thread (recording e) = unlogged (sys_thread e)"
  "sys_connect (recording e) fd a = unlogged (sys_connect e fd a)" "sys_write (recording e) fd b = unlogged (sys_write e fd b)"
  "sys_close (recording e) fd = unlogged (sys_close e fd)" "sys_sendto (recording e) fd b a = unlogged (sys_sendto e fd b a)"
  "sys_select (recording e) n fds t = unlogged (sys_select e n fds t)"
  "sys_fcntl_getfl (recording e) fd = unlogged (sys_fcntl_getfl e fd)"
  "sys_fcntl_setfl (recording e) fd k = unlogged (sys_fcntl_setfl e fd k)"
  "sys_so_error (recording e) fd = unlogged (sys_so_error e fd)"
  "sys_set_timeouts (recording e) fd tv = unlogged (sys_set_timeouts e fd tv)"
  "sys_pipe (recording e) fl = logged (CallPipe fl) (sys_pipe e fl)"
  "sys_socket (recording e) d ty p = logged (CallSocket d ty p) (sys_socket e d ty p)"
  "sys_read (recording e) fd j = logged (CallRead fd j) (sys_read e fd j)"
  by (simp_all add: recording_def)

text \<open>The descriptors a log says were made, and what was read: descriptor, bytes asked for, answer.\<close>

fun pipes_made :: "('w, 'e) env_scheme \<Rightarrow> 'w sys_call list \<Rightarrow> (int \<times> int) list" where
  "pipes_made e [] = []"
| "pipes_made e (CallPipe fl w # l) = snd (fst (sys_pipe e fl w)) # pipes_made e l"
| "pipes_made e (c # l) = pipes_made e l"

fun sockets_made :: "('w, 'e) env_scheme \<Rightarrow> 'w sys_call list \<Rightarrow> int list" where
  "sockets_made e [] = []"
| "sockets_made e (CallSocket d t p w # l) = fst (sys_socket e d t p w) # sockets_made e l"
| "sockets_made e (c # l) = sockets_made e l"

fun reads_made :: "('w, 'e) env_scheme \<Rightarrow> 'w sys_call list \<Rightarrow> (int \<times> nat \<times> (int \<times> bytes) option) list" where
  "reads_made e [] = []"
| "reads_made e (CallRead fd n w # l) = (fd, n, fst (sys_read e fd n w)) # reads_made e l"
| "reads_made e (c # l) = reads_made e l"

lemma log_append [simp]: "pipes_made e (l @ l') = pipes_made e l @ pipes_made e l'" "sockets_made e (l @ l') = sockets_made e l @ sockets_made e l'"
  "reads_made e (l @ l') = reads_made e l @ reads_made e l'"
  by (induction l rule: pipes_made.induct; simp)+

lemma reads_made_answered:
  "(fd, n, x) \<in> set (reads_made e l) \<Longrightarrow> \<exists>w. x = fst (sys_read e fd n w)"
  by (induction l rule: reads_made.induct) auto

section \<open>Programs that leave a part of the state alone\<close>

named_theorems steady_intros

definition steady :: "('s \<Rightarrow> 'l) \<Rightarrow> ('s, 'a) prog \<Rightarrow> bool" where
  "steady f p \<longleftrightarrow> (\<forall>s. wp p (\<lambda>r s'. f s' = f s) s)"

lemma steadyI: "(\<And>s. wp p (\<lambda>r s'. f s' = f s) s) \<Longrightarrow> steady f p"
  by (simp add: steady_def)

lemma steadyD: "steady f p \<Longrightarrow> wp p (\<lambda>r s'. f s' = f s) s"
  by (simp add: steady_def)

lemma steady_atomic [steady_intros]: "steady f (ret a)" "steady f (raise x)" "steady f (gets g)"
  by (simp_all add: steady_def wp_simps)

lemma steady_obj [steady_intros]: "steady f (obj g)"
  by (simp add: steady_def wp_simps)

lemma steady_modify [steady_intros]: "(\<And>s. f (g s) = f s) \<Longrightarrow> steady f (modify g)"
  by (simp add: steady_def wp_simps)

lemma steady_bindE [steady_intros]:
  assumes "steady f p" and "\<And>a. steady f (q a)"
  shows "steady f (bindE p q)"
proof (rule steadyI)
  fix s
  show "wp (bindE p q) (\<lambda>r s'. f s' = f s) s"
    unfolding wp_bindE
    by (rule wp_mono [OF steadyD [OF assms(1)]]) (metis (mono_tags, lifting) steadyD [OF assms(2)] wp_mono)
qed

lemma steady_thenE [steady_intros]: "steady f p \<Longrightarrow> steady f q \<Longrightarrow> steady f (thenE p q)"
  unfolding thenE_def by (rule steady_bindE)

lemma steady_forE [steady_intros]: "(\<And>x. x \<in> set xs \<Longrightarrow> steady f (g x)) \<Longrightarrow> steady f (forE xs g)"
  by (induction xs) (auto intro!: steady_atomic steady_thenE)

lemma steady_branch [steady_intros]:
  "(b \<Longrightarrow> steady f p) \<Longrightarrow> (\<not> b \<Longrightarrow> steady f q) \<Longrightarrow> steady f (if b then p else q)"
  "steady f (g v) \<Longrightarrow> steady f (let y = v in g y)"
  "(opt = None \<Longrightarrow> steady f p) \<Longrightarrow> (\<And>a. steady f (h a)) \<Longrightarrow> steady f (case opt of None \<Rightarrow> p | Some a \<Rightarrow> h a)"
  "(\<And>x. steady f (i x)) \<Longrightarrow> (\<And>y. steady f (j y)) \<Longrightarrow> steady f (case res of Inl x \<Rightarrow> i x | Inr y \<Rightarrow> j y)"
  "(\<And>a b. steady f (k a b)) \<Longrightarrow> steady f (case pair of (a, b) \<Rightarrow> k a b)"
  "(\<And>a b. steady f (m a b u)) \<Longrightarrow> steady f ((case pair of (a, b) \<Rightarrow> m a b) u)"
  "steady f p \<Longrightarrow> (\<And>z zs. steady f (l z zs)) \<Longrightarrow> steady f (case list of [] \<Rightarrow> p | z # zs \<Rightarrow> l z zs)"
  by (simp_all split: option.split sum.split prod.split list.split)

text \<open>The log is the second half of the world.\<close>

abbreviation log_of :: "'c \<times> 'w \<times> 'l \<Rightarrow> 'l" where
  "log_of s \<equiv> snd (snd s)"

lemma steady_world [steady_intros]: "steady snd p \<Longrightarrow> steady log_of (world p)"
  by (simp add: steady_def wp_world)

lemma steady_upd [steady_intros]: "steady log_of (upd g)"
  by (simp add: steady_def wp_upd)

lemma steady_zoom [steady_intros]: "steady log_of p \<Longrightarrow> steady log_of (zoom get put p)"
  by (simp add: steady_def wp_zoom)

lemma steady_on_object [steady_intros]:
  assumes "steady log_of p" shows "steady log_of (on_object v p)"
  unfolding steady_def wp_on_object
  by (intro allI wp_mono [OF steadyD [OF assms]]) simp

lemma steady_call [steady_intros]: "steady snd (call (unlogged f))" "steady snd (call_blocking (unlogged g))"
  by (auto simp: steady_def wp_simps unlogged_def split: prod.splits)

lemma steady_checked [steady_intros]: "steady snd p \<Longrightarrow> steady snd (checked e code p)"
  unfolding checked_def throwErrno_def by (intro steady_intros)

lemma steady_finallyE [steady_intros]:
  assumes "steady f p" and "steady f d"
  shows "steady f (finallyE p d)"
proof (rule steadyI)
  fix s
  obtain r s' where p: "p s = (r, s')"
    by (cases "p s")
  then have here: "f s' = f s"
    using steadyD [OF assms(1), of s] by (simp add: wp_def)
  have "wp (thenE d q) (\<lambda>r s'. f s' = f s) s'" if "steady f q" for q :: "('a, 'c) prog"
    using steadyD [OF steady_thenE [OF assms(2) that], of s'] here by simp
  from this [OF steady_atomic(1)] this [OF steady_atomic(2)] here
  show "wp (finallyE p d) (\<lambda>r s'. f s' = f s) s"
    by (auto simp: wp_def finallyE_def p split: sum.split exn.split)
qed

lemma wp_steady:
  assumes "steady snd p" and "\<And>r w'. Q r (w', l)"
  shows "wp p Q (w, l)"
  by (rule wp_mono [OF steadyD [OF assms(1)]]) (metis assms(2) prod.collapse snd_conv)

lemma wp_log:
  assumes "steady log_of p" and "wp p (\<lambda>r s. P r (fst s)) (c, (w, l))" and "\<And>r c' w'. P r c' \<Longrightarrow> Q r (c', (w', l))"
  shows "wp p Q (c, (w, l))"
proof -
  have "wp p (\<lambda>r s. P r (fst s) \<and> log_of s = l) (c, (w, l))"
    using assms(2) steadyD [OF assms(1), of "(c, (w, l))"] by (intro wp_conj) simp_all
  then show ?thesis
    by (rule wp_mono) (metis assms(3) prod.collapse)
qed

section \<open>What does not read and makes no descriptor\<close>

lemma steady_wrappers [steady_intros]:
  "steady snd (Write (recording e) fd b)" "steady snd (Close (recording e) fd)" "steady snd (Sendto (recording e) fd b a)"
  "steady snd (Select (recording e) n fds t)" "steady snd (timeval_usec (recording e) us)"
  "steady snd (encodeSendUDP (recording e) fd a md)" "steady snd (encodeSendTCP (recording e) fd md)"
  "steady snd (FullAddr (recording e) nd)" "steady snd (ConnectTimeout (recording e) fd a u)"
  "steady snd (new_nodeState (recording e) nd i st)"
  unfolding Write_def Close_def Sendto_def Select_def timeval_usec_def encodeSendUDP_def encodeSendTCP_def FullAddr_def
    ConnectTimeout_def connect_done_def connect_wait_def throwErrno_def new_nodeState_def recording_calls
  by (intro steady_intros; simp)+

lemma steady_timers [steady_intros]:
  "steady log_of (onceTimer_Run (recording e) me h)" "steady log_of onceTimer_Stop" "steady log_of (onceTimer_destroy me h)"
  unfolding onceTimer_Run_def onceTimer_Stop_def onceTimer_destroy_def join_in_destructor_def start_runner_def recording_calls
  by (intro steady_intros | simp split: sum.split exn.split add: steady_atomic)+

lemma steady_suspicions [steady_intros]:
  "steady log_of (new_suspicion (recording e) me h from k mn mx f)" "steady log_of (Confirm (recording e) me h from)"
  "steady log_of (suspicion_destroy me h)"
  unfolding new_suspicion_def Confirm_def suspicion_destroy_def sus_timer_def timer_Restart_def remainingSuspicionTime_def
    int64_def recording_calls
  by (intro steady_intros)+

section \<open>The handlers of the membership messages\<close>

lemma steady_node_lock [steady_intros]:
  assumes "steady log_of p" shows "steady log_of (node_lock p)"
  unfolding steady_def wp_node_lock by (auto intro!: wp_mono [OF steadyD [OF assms]])

lemma steady_queue [steady_intros]: "steady log_of (QueueBroadcast (recording e) b)"
  unfolding QueueBroadcast_def queueBroadcast_def deleteItem_def Finished_def Let_def by (intro steady_intros)

lemma steady_table_parts [steady_intros]: "steady log_of (now_us (recording e))" "steady f (int64 x)" "steady log_of (set_node p g)"
  "steady log_of nextSeqNum" "steady log_of (onlyBroadcast (recording e) n b)" "steady log_of (BroadcastNotify (recording e) n b fd)"
  "steady log_of (erase_timer n)" "steady log_of (refute (recording e) p i)"
  unfolding now_us_def int64_def set_node_def nextSeqNum_def onlyBroadcast_def BroadcastNotify_def on_queue_def erase_timer_def
    refute_def skipIncarnation_def recording_calls
  by (intro steady_intros)+

lemma steady_deadNode [steady_intros]: "steady log_of (deadNode (recording e) b)"
  unfolding deadNode_def dead_apply_def mark_dead_def Let_def by (intro steady_intros)

lemma steady_suspectNode [steady_intros]: "steady log_of (suspectNode (recording e) b)"
  unfolding suspectNode_def suspect_apply_def mark_suspect_def start_suspicion_def confirm_suspicion_def
    suspicion_callback_def Let_def
  by (intro steady_intros)

lemma steady_aliveNode [steady_intros]: "steady log_of (aliveNode (recording e) b bs fd)"
  unfolding aliveNode_def alive_lookup_def alive_apply_def insert_random_def new_object_def Let_def recording_calls
  by (intro steady_intros)

lemma steady_merge [steady_intros]: "steady log_of (mergeRemoteState (recording e) pp)"
  unfolding mergeRemoteState_def mergeNodeState_def by (intro steady_intros)

section \<open>The wire format\<close>

text \<open>Messages are parsed as on the platform that is recorded.\<close>

lemma recording_get:
  "get_uint32 (recording e) = get_uint32 e" "get_bool (recording e) = get_bool e" "get_enum (recording e) = get_enum e"
  "get_string (recording e) = get_string e" "get_message (recording e) = get_message e"
  by (simp_all add: fun_eq_iff get_defs) (simp_all add: recording_def)

lemma recording_parse_loop: "parse_loop k (recording e) f m bs = parse_loop k e f m bs"
  by (induction k arbitrary: m bs)
    (simp_all only: parse_loop.simps, simp add: recording_def split: option.split prod.split)

lemma recording_loop: "parse_message (recording e) = parse_message e"
  by (simp add: fun_eq_iff parse_message_def recording_parse_loop)

lemma recording_parse: "ParseFromString (recording e) = ParseFromString e"
  by (simp only: fun_eq_iff ParseFromString_def MessageData_InternalParse_def Ping_InternalParse_def IndirectPing_InternalParse_def
      AckResp_InternalParse_def NackResp_InternalParse_def PushPull_InternalParse_def PushNodeState_InternalParse_def
      ComBroadcast_InternalParse_def Broadcast_InternalParse_def Alive_InternalParse_def Dead_InternalParse_def
      Suspect_InternalParse_def User_InternalParse_def ErrResp_InternalParse_def recording_get recording_loop) simp

end
