(* ===== verification/Probing.thy ===== *)
theory Probing
  imports Rounds WireRoundtrip Recording
begin

text \<open>
  What the failure detector achieves: when a probe ends in a suspicion, when it leaves the table
  alone, and what an address that cannot be read does to it. A run is judged by what it has read
  from the pipes it made (\<open>Recording\<close>).
\<close>

section \<open>What a probe touches\<close>

text \<open>Until it suspects its target, a probe draws a number, registers handlers and starts threads.\<close>

definition untouched :: "memberlist \<Rightarrow> memberlist \<Rightarrow> bool" where
  "untouched m m' \<longleftrightarrow>
     m' = m\<lparr>sequenceNum := sequenceNum m', ackHandlers := ackHandlers m', detached := detached m'\<rparr>"

lemma untouched_refl [simp]: "untouched m m"
  by (simp add: untouched_def)

lemma untouched_step [simp]:
  "untouched m m' \<Longrightarrow> untouched m (m'\<lparr>sequenceNum := s\<rparr>)"
  "untouched m m' \<Longrightarrow> untouched m (m'\<lparr>ackHandlers := a\<rparr>)"
  "untouched m m' \<Longrightarrow> untouched m (m'\<lparr>detached := d\<rparr>)"
  by (cases m, cases m', simp add: untouched_def)+

lemma untouched_fields:
  assumes "untouched m m'"
  shows "nodes m' = nodes m" "nodeMap m' = nodeMap m" "heap m' = heap m" "nodeTimers m' = nodeTimers m"
    "nodeMutex m' = nodeMutex m" "config m' = config m" "TransmitLimitedQueue m' = TransmitLimitedQueue m"
    "self m' = self m" "udpFd m' = udpFd m" "numNodes m' = numNodes m"
  using assms by (cases m, cases m', simp add: untouched_def)+

lemma may_call [may_intros]: "may E (call f)"
  by (auto intro!: mayI simp: wp_simps)

lemma may_kRandomNodes:
  assumes "\<And>n. may E (exclude n)"
  shows "may E (kRandomNodes e k ns exclude)"
proof -
  have "may E (kRandomNodes_loop i e k ns exclude kn)" for i kn
    by (induction i arbitrary: kn) (simp_all only: kRandomNodes_loop.simps, (intro may_intros assms | assumption)+)
  then show ?thesis
    unfolding kRandomNodes_def .
qed

lemma keeps_random_members:
  assumes "\<not> nodeMutex m"
  shows "keeps (untouched m) (random_members e k (\<lambda>n. ret (b n)))"
proof (rule keepsI)
  fix c w assume c: "untouched m c"
  then have free: "\<not> nodeMutex c"
    using assms by (simp add: untouched_fields)
  have "wp (kRandomNodes e k ns (\<lambda>n. ret (b n))) (\<lambda>r s'. r \<noteq> Inl Deadlock) w" for ns
    by (rule wp_mono [OF mayD [OF may_kRandomNodes [where E = "{}"]]]) (auto intro: may_intros)
  then show "wp (random_members e k (\<lambda>n. ret (b n))) (\<lambda>r s'. untouched m (fst s')) (c, w)"
    using c free by (simp add: random_members_def wp_simps relock) (rule wp_mono, assumption, simp)
qed

lemma keeps_handlers:
  "keeps (untouched m) (release_handler n)" "keeps (untouched m) (put_handler n ah)"
  "keeps (untouched m) (setProbePipes e n a na i)" "keeps (untouched m) nextSeqNum"
  unfolding release_handler_def put_handler_def setProbePipes_def ackHandler_destroy_def nextSeqNum_def Let_def
  by (intro keeps_intros; simp)+

lemma keeps_direct_probe: "keeps (untouched m) (direct_probe e node ping a fds)"
  unfolding direct_probe_def by (intro keeps_intros)

lemma keeps_indirect_probe: "\<not> nodeMutex m \<Longrightarrow> keeps (untouched m) (indirect_probe e node n ping d)"
  unfolding indirect_probe_def Let_def by (intro keeps_intros keeps_random_members; simp)

lemma keeps_clock: "keeps P (now_us e)" "keeps P (int64 x)"
  by (simp_all add: now_us_def int64_def keeps_atomic)

lemmas keeps_probe = keeps_atomic keeps_clock keeps_handlers keeps_direct_probe keeps_indirect_probe

lemma wp_keeps:
  assumes "keeps P p" and "P (fst s)" and "\<And>r s'. P (fst s') \<Longrightarrow> Q r s'"
  shows "wp p Q s"
  using keepsD [OF assms(1,2)] assms(3) by (rule wp_mono)

lemma wp_bind_keeps:
  assumes "keeps P p" and "P (fst s)" and "\<And>x s'. P (fst s') \<Longrightarrow> Q (Inl x) s'"
    and "\<And>a c w. P c \<Longrightarrow> wp (f a) Q (c, w)"
  shows "wp (bindE p f) Q s"
  unfolding wp_bindE by (rule wp_keeps [OF assms(1,2)]) (metis assms(3,4) prod.collapse)

lemma wp_then_keeps:
  assumes "keeps P p" and "P (fst s)" and "\<And>x s'. P (fst s') \<Longrightarrow> Q (Inl x) s'"
    and "\<And>c w. P c \<Longrightarrow> wp q Q (c, w)"
  shows "wp (thenE p q) Q s"
  unfolding thenE_def by (rule wp_bind_keeps [where P = P]) (use assms in blast)+

lemma wp_bind_stop: "p s = (Inl x, s') \<Longrightarrow> Q (Inl x) s' \<Longrightarrow> wp (bindE p f) Q s"
  by (simp add: wp_def bindE_def)

lemma wp_bind_run: "p s = (Inr a, s') \<Longrightarrow> wp (f a) Q s' \<Longrightarrow> wp (bindE p f) Q s"
  by (simp add: wp_def bindE_def)

section \<open>What a probe reads\<close>

lemma steady_handlers [steady_intros]:
  "steady log_of (release_handler n)" "steady log_of (put_handler n ah)" "steady log_of (setProbePipes (recording e) n a na i)"
  unfolding release_handler_def put_handler_def setProbePipes_def ackHandler_destroy_def Let_def
  by (intro steady_intros)+

lemma steady_clear [steady_intros]: "steady snd (clearProbePipes (recording e) a n f)"
  unfolding clearProbePipes_def by (intro steady_intros)

lemma steady_random_members [steady_intros]: "steady log_of (random_members (recording e) k (\<lambda>n. ret (b n)))"
proof -
  have "steady snd (kRandomNodes_loop i (recording e) k ns (\<lambda>n. ret (b n)) kn)" for i kn ns
    by (induction i arbitrary: kn) (simp_all only: kRandomNodes_loop.simps recording_calls, (intro steady_intros | assumption)+)
  then show ?thesis
    unfolding random_members_def kRandomNodes_def by (intro steady_intros)
qed

lemma Pipe_is_Pipe2: "Pipe e = Pipe2 e 0"
  by (simp add: Pipe_def Pipe2_def)

lemma wp_Pipe_logged:
  assumes "\<And>n w' l'. (\<exists>v. fst (fst (sys_pipe e fl v)) < 0) \<Longrightarrow> Q (Inl (WrapException n)) (w', l')"
    and "\<And>fds w' l'. pipes_made e l' = pipes_made e l @ [fds] \<Longrightarrow> reads_made e l' = reads_made e l \<Longrightarrow> Q (Inr fds) (w', l')"
  shows "wp (Pipe2 (recording e) fl) Q (w, l)"
proof -
  obtain k fds w' where pipe: "sys_pipe e fl w = ((k, fds), w')"
    by (metis prod.exhaust)
  then have "k < 0 \<Longrightarrow> \<exists>v. fst (fst (sys_pipe e fl v)) < 0"
    by (intro exI [of _ w]) simp
  then show ?thesis
    using assms(1) assms(2) [of "l @ [CallPipe fl w]" fds w'] pipe
    by (auto simp: Pipe2_def logged_def wp_simps)
qed

text \<open>
  An object that is read on a recording platform: the answer of the system is entered, and it
  decides how the read ends. An answer is \<open>delivered\<close> when the read returns and does not fail,
  and \<open>negative\<close> when it then has no true first byte.
\<close>

definition delivered :: "(int \<times> bytes) option \<Rightarrow> bool" where
  "delivered x \<longleftrightarrow> (\<exists>k b. x = Some (k, b) \<and> 0 \<le> k)"

definition negative :: "(int \<times> bytes) option \<Rightarrow> bool" where
  "negative x \<longleftrightarrow> (\<exists>k b. x = Some (k, b) \<and> 0 \<le> k \<and> \<not> ackMessage_complete b)"

fun read_outcome :: "(int \<times> bytes) option \<Rightarrow> exn + bytes \<Rightarrow> bool" where
  "read_outcome None r = (r = Inl Deadlock)"
| "read_outcome (Some (k, b)) r =
     (if k < 0 then \<exists>n. r = Inl (WrapException n) else \<exists>ob. r = Inr ob \<and> (b \<noteq> [] \<longrightarrow> ob \<noteq> [] \<and> hd ob = hd b))"

lemma read_outcome_delivered: "read_outcome x (Inr ob) \<Longrightarrow> delivered x"
  by (cases "(x, Inr ob :: exn + bytes)" rule: read_outcome.cases) (auto simp: delivered_def split: if_splits)

lemma read_outcome_negative: "read_outcome x (Inr ob) \<Longrightarrow> \<not> ackMessage_complete ob \<Longrightarrow> negative x"
  by (cases "(x, Inr ob :: exn + bytes)" rule: read_outcome.cases)
    (auto simp: negative_def ackMessage_complete_def split: if_splits)

lemma wp_Read_logged:
  assumes "\<And>x r w' l'. pipes_made e l' = pipes_made e l \<Longrightarrow> reads_made e l' = reads_made e l @ [(fd, n, x)] \<Longrightarrow> read_outcome x r \<Longrightarrow> Q r (w', l')"
  shows "wp (Read_object (recording e) fd n) Q (w, l)"
proof -
  obtain g v where g: "sys_garbage e w = (g, v)"
    by (cases "sys_garbage e w")
  obtain x w' where x: "sys_read e fd n v = (x, w')"
    by (cases "sys_read e fd n v")
  let ?l = "l @ [CallRead fd n v]"
  have "Q r (w', ?l)" if "read_outcome x r" for r
    using assms [of ?l x r w'] x that by simp
  then show ?thesis
    using g x by (cases x) (auto simp: Read_object_def Read_def unlogged_def logged_def wp_simps)
qed

text \<open>
  What a probe has read when it got no answer: from its first pipe, the one for acknowledgements,
  once or twice, and then from its third one, for the ping over TCP; and all of it negative,
  except that any answer at all will do from the third one when pings over TCP are off.
\<close>

definition silence :: "('w, 'e) env_scheme \<Rightarrow> bool \<Rightarrow> int \<times> int \<Rightarrow> 'w sys_call list \<Rightarrow> bool" where
  "silence e tcp fallback l \<longleftrightarrow> (\<exists>ack nack xs y. pipes_made e l = [ack, nack, fallback] \<and>
     reads_made e l = map (\<lambda>x. (fst ack, 16, x)) xs @ [(fst fallback, 1, y)] \<and>
     xs \<noteq> [] \<and> length xs \<le> 2 \<and> list_all negative xs \<and> delivered y \<and> (tcp \<longrightarrow> negative y))"

text \<open>The log of such a run, call by call.\<close>

lemma silenceI:
  assumes "pipes_made e l1 = pipes_made e [] @ [ack]" "reads_made e l1 = reads_made e []"
    and "pipes_made e l2 = pipes_made e l1 @ [nack]" "reads_made e l2 = reads_made e l1"
    and "pipes_made e l3 = pipes_made e l2" "reads_made e l3 = reads_made e l2 @ map (\<lambda>x. (fst ack, 16, x)) xs"
    and "length xs \<le> 1" "list_all negative xs"
    and "pipes_made e l4 = pipes_made e l3 @ [fb]" "reads_made e l4 = reads_made e l3"
    and "pipes_made e l5 = pipes_made e l4" "reads_made e l5 = reads_made e l4 @ [(fst ack, 16, x)]"
    and "pipes_made e l = pipes_made e l5" "reads_made e l = reads_made e l5 @ [(fst fb, 1, y)]"
    and "negative x" and "tcp \<Longrightarrow> negative y" and "delivered y"
  shows "silence e tcp fb l"
  unfolding silence_def using assms
  by (intro exI [of _ ack] exI [of _ nack] exI [of _ "xs @ [x]"] exI [of _ y]) simp

text \<open>The direct probe reads at most once, and its second pipe is not read at all.\<close>

lemma wp_direct_probe_logged:
  assumes "\<And>r xs w' l'. pipes_made e l' = pipes_made e l \<Longrightarrow> reads_made e l' = reads_made e l @ map (\<lambda>x. (fst fds, 16, x)) xs \<Longrightarrow>
      length xs \<le> 1 \<Longrightarrow> (r = Inr False \<Longrightarrow> list_all negative xs) \<Longrightarrow> Q r (c, (w', l'))"
  shows "wp (direct_probe (recording e) node ping a fds) Q (c, (w, l))"
proof -
  have none: "Q r (c, (w', l))" for r w'
    using assms [of l "[]" r w'] by simp
  have one: "Q r (c, (w', l'))" if "pipes_made e l' = pipes_made e l" "reads_made e l' = reads_made e l @ [(fst fds, 16, x)]"
    "r = Inr False \<Longrightarrow> negative x" for r w' l' x
    using assms [of l' "[x]" r w'] that by simp
  show ?thesis
    unfolding direct_probe_def
    by (auto simp: wp_bindE wp_thenE wp_obj wp_world wp_if wp_ret wp_case_prod
        intro!: wp_steady steady_intros none wp_Read_logged one dest: read_outcome_negative)
qed

lemma wp_calm:
  assumes "keeps P p" and "steady log_of p" and "P c" and "\<And>r c' w'. P c' \<Longrightarrow> Q r (c', (w', l))"
  shows "wp p Q (c, (w, l))"
proof -
  have "wp p (\<lambda>r s. P (fst s) \<and> log_of s = l) (c, (w, l))"
    using keepsD [OF assms(1), of "(c, (w, l))"] steadyD [OF assms(2), of "(c, (w, l))"] assms(3) by (intro wp_conj) simp_all
  then show ?thesis
    by (rule wp_mono) (metis assms(4) prod.collapse)
qed

lemma wp_bind_calm:
  assumes "keeps P p" and "steady log_of p" and "P c" and "\<And>x c' w'. P c' \<Longrightarrow> Q (Inl x) (c', (w', l))"
    and "\<And>a c' w'. P c' \<Longrightarrow> wp (f a) Q (c', (w', l))"
  shows "wp (bindE p f) Q (c, (w, l))"
  unfolding wp_bindE by (rule wp_calm [OF assms(1-3)]) (blast intro: assms(4,5))

lemma wp_then_calm:
  assumes "keeps P p" and "steady log_of p" and "P c" and "\<And>x c' w'. P c' \<Longrightarrow> Q (Inl x) (c', (w', l))"
    and "\<And>c' w'. P c' \<Longrightarrow> wp q Q (c', (w', l))"
  shows "wp (thenE p q) Q (c, (w, l))"
  unfolding thenE_def by (rule wp_bind_calm [where P = P]) (use assms in blast)+

lemma wp_indirect_probe_logged:
  assumes "untouched m c" and "\<not> nodeMutex m"
    and "\<And>x c' w' l'. untouched m c' \<Longrightarrow> Q (Inl x) (c', (w', l'))"
    and "\<And>fb c' w' l'. untouched m c' \<Longrightarrow> pipes_made e l' = pipes_made e l @ [fb] \<Longrightarrow> reads_made e l' = reads_made e l \<Longrightarrow>
      (AllowTcpPing (config m) \<Longrightarrow> TcpPing (snd fb) (N node) ping d \<in> set (detached c')) \<Longrightarrow> Q (Inr fb) (c', (w', l'))"
  shows "wp (indirect_probe (recording e) node n ping d) Q (c, (w, l))"
proof -
  have pipe: "wp (bindE (world (Pipe (recording e))) (\<lambda>fb.
      thenE (if AllowTcpPing (config m) then upd (\<lambda>m. m\<lparr>detached := detached m @ [TcpPing (snd fb) (N node) ping d]\<rparr>) else ret ())
        (ret fb))) Q (c', (w', l))" if "untouched m c'" for c' w'
    unfolding Pipe_is_Pipe2 wp_bindE wp_world fst_conv snd_conv
    by (rule wp_Pipe_logged) (use that assms(3,4) in \<open>auto simp: wp_simps\<close>)
  show ?thesis
    unfolding indirect_probe_def Let_def wp_bindE [of "obj id"] wp_obj
    using untouched_fields(6) [OF assms(1)]
    by simp
      (rule wp_bind_calm [where P = "untouched m"], rule keeps_random_members [OF assms(2)], intro steady_intros, rule assms(1),
        erule assms(3), rule wp_then_calm [where P = "untouched m"], intro keeps_intros, intro steady_intros, assumption,
        erule assms(3), erule pipe)
qed

section \<open>When a probe suspects\<close>

text \<open>
  How a probe of \<open>node\<close> may end: the table is untouched, or the run has read nothing but silence,
  the write end of the third pipe went to the ping over TCP, and what remained to be done was to
  suspect the node.
\<close>

definition probe_verdict ::
  "('w, 'e) env_scheme \<Rightarrow> nodeState \<Rightarrow> memberlist \<Rightarrow> exn + unit \<Rightarrow> memberlist \<times> 'w \<times> 'w sys_call list \<Rightarrow> bool" where
  "probe_verdict e node m r s \<longleftrightarrow> untouched m (fst s) \<or>
     (\<exists>fallback m1 w1. silence e (AllowTcpPing (config m)) fallback (log_of s) \<and> untouched m m1 \<and>
        (AllowTcpPing (config m) \<longrightarrow> (\<exists>ping t. TcpPing (snd fallback) (N node) ping t \<in> set (detached m1))) \<and>
        suspectNode (recording e) (genSuspectBroadcast (Incarnation node) (NName (N node)) (localName m)) (m1, (w1, log_of s)) = (r, s))"

lemma verdict_untouched: "untouched m c \<Longrightarrow> probe_verdict e node m r (c, s)"
  by (simp add: probe_verdict_def)

lemma wp_verdict_done: "keeps (untouched m) p \<Longrightarrow> untouched m c \<Longrightarrow> wp p (probe_verdict e node m) (c, s)"
  by (rule wp_keeps [where P = "untouched m"]) (simp_all add: probe_verdict_def)

lemma wp_verdict_bind:
  assumes "keeps (untouched m) p" and "steady log_of p" and "untouched m c"
    and "\<And>a c w. untouched m c \<Longrightarrow> wp (f a) (probe_verdict e node m) (c, (w, l))"
  shows "wp (bindE p f) (probe_verdict e node m) (c, (w, l))"
  by (rule wp_bind_calm [where P = "untouched m"]) (simp_all add: assms verdict_untouched)

lemma wp_verdict_then:
  assumes "keeps (untouched m) p" and "steady log_of p" and "untouched m c"
    and "\<And>c w. untouched m c \<Longrightarrow> wp q (probe_verdict e node m) (c, (w, l))"
  shows "wp (thenE p q) (probe_verdict e node m) (c, (w, l))"
  unfolding thenE_def by (rule wp_verdict_bind) (use assms in blast)+

lemma wp_verdict_pipe:
  assumes "untouched m c" and "\<And>fds w l'. pipes_made e l' = pipes_made e l @ [fds] \<Longrightarrow> reads_made e l' = reads_made e l \<Longrightarrow>
      wp (f fds) (probe_verdict e node m) (c, (w, l'))"
  shows "wp (bindE (world (Pipe2 (recording e) fl)) f) (probe_verdict e node m) (c, (w, l))"
  unfolding wp_bindE wp_world fst_conv snd_conv
  by (rule wp_Pipe_logged) (use assms in \<open>auto simp: verdict_untouched\<close>)

lemma wp_verdict_read:
  assumes "untouched m c" and "\<And>ob x w l'. pipes_made e l' = pipes_made e l \<Longrightarrow> reads_made e l' = reads_made e l @ [(fd, n, x)] \<Longrightarrow>
      (\<not> ackMessage_complete ob \<Longrightarrow> negative x) \<Longrightarrow> delivered x \<Longrightarrow> wp (f ob) (probe_verdict e node m) (c, (w, l'))"
  shows "wp (bindE (world (Read_object (recording e) fd n)) f) (probe_verdict e node m) (c, (w, l))"
  unfolding wp_bindE wp_world fst_conv snd_conv
proof (rule wp_Read_logged, intro conjI allI impI)
  fix x r w' l' ob
  assume l': "pipes_made e l' = pipes_made e l" "reads_made e l' = reads_made e l @ [(fd, n, x)]" and "read_outcome x r" "r = Inr ob"
  then show "wp (f ob) (probe_verdict e node m) (c, (w', l'))"
    by (intro assms(2) [OF l']) (auto dest: read_outcome_negative read_outcome_delivered)
qed (simp add: assms(1) verdict_untouched)

text \<open>The last steps: forget the handler, close the pipes, suspect.\<close>

lemma wp_verdict_suspects:
  assumes "untouched m c" and "silence e (AllowTcpPing (config m)) fb l"
    and "AllowTcpPing (config m) \<Longrightarrow> TcpPing (snd fb) (N node) ping t \<in> set (detached c)"
  shows "wp (thenE (release_handler n) (thenE (world (clearProbePipes (recording e) a k (Some fb)))
      (suspectNode (recording e) (genSuspectBroadcast (Incarnation node) (NName (N node)) (localName m)))))
     (probe_verdict e node m) (c, (w, l))"
proof -
  define P where "P = (\<lambda>c. untouched m c \<and> (AllowTcpPing (config m) \<longrightarrow> TcpPing (snd fb) (N node) ping t \<in> set (detached c)))"
  have handler: "keeps P (release_handler n)"
    unfolding release_handler_def ackHandler_destroy_def P_def by (intro keeps_intros; simp)
  have last: "wp (suspectNode (recording e) (genSuspectBroadcast (Incarnation node) (NName (N node)) (localName m)))
      (probe_verdict e node m) (c', (w', l))" if "P c'" for c' w'
  proof (rule wpI)
    fix r s
    assume run: "suspectNode (recording e) (genSuspectBroadcast (Incarnation node) (NName (N node)) (localName m)) (c', (w', l)) = (r, s)"
    then have "log_of s = l"
      using wp_run [OF steadyD [OF steady_suspectNode] run] by simp
    then show "probe_verdict e node m r s"
      unfolding probe_verdict_def using run that assms(2) P_def by blast
  qed
  show ?thesis
    by (rule wp_then_calm [OF handler], intro steady_intros, use assms in \<open>simp add: P_def\<close>, simp add: P_def verdict_untouched,
        rule wp_then_calm [where P = P], intro keeps_intros, intro steady_intros, assumption, simp add: P_def verdict_untouched,
        erule last)
qed

lemma wp_verdict_direct:
  assumes "untouched m c" and "\<And>xs w l'. pipes_made e l' = pipes_made e l \<Longrightarrow>
      reads_made e l' = reads_made e l @ map (\<lambda>x. (fst fds, 16, x)) xs \<Longrightarrow> length xs \<le> 1 \<Longrightarrow> list_all negative xs \<Longrightarrow>
      wp rest (probe_verdict e node m) (c, (w, l'))"
  shows "wp (bindE (direct_probe (recording e) node' ping a fds) (\<lambda>answered. if answered then world p else rest))
     (probe_verdict e node m) (c, (w, l))"
  unfolding wp_bindE
  by (rule wp_direct_probe_logged) (auto simp: wp_if verdict_untouched assms intro!: wp_verdict_done keeps_atomic)

lemma wp_verdict_indirect:
  assumes "untouched m c" and "\<not> nodeMutex m" and "\<And>fb c w l'. untouched m c \<Longrightarrow>
      pipes_made e l' = pipes_made e l @ [fb] \<Longrightarrow> reads_made e l' = reads_made e l \<Longrightarrow>
      (AllowTcpPing (config m) \<Longrightarrow> TcpPing (snd fb) (N node) ping d \<in> set (detached c)) \<Longrightarrow>
      wp (f fb) (probe_verdict e node m) (c, (w, l'))"
  shows "wp (bindE (indirect_probe (recording e) node n ping d) f) (probe_verdict e node m) (c, (w, l))"
  unfolding wp_bindE
  by (rule wp_indirect_probe_logged [OF assms(1,2)]) (use assms(3) in \<open>auto simp: verdict_untouched\<close>)

text \<open>
  C7. When a probe suspects. On any platform, a probe leaves the table of nodes alone unless it
  suspects its target. It does so with the incarnation the target was seen with, and only after
  this run has read from the pipes it made itself, and nothing but negative reports: from the
  first pipe, which is for the acknowledgement, and from the third one, whose write end went to
  the attempt over TCP when such attempts are allowed. When they are not, the run still has to read from
  the third pipe before it suspects.
\<close>

theorem probe_suspects_unanswered:
  assumes "\<not> nodeMutex m"
  shows "wp (probeNode (recording e) node) (\<lambda>r s. untouched m (fst s) \<or>
     (\<exists>fallback m1 w1. silence e (AllowTcpPing (config m)) fallback (log_of s) \<and> untouched m m1 \<and>
        (AllowTcpPing (config m) \<longrightarrow> (\<exists>ping t. TcpPing (snd fallback) (N node) ping t \<in> set (detached m1))) \<and>
        suspectNode (recording e) (genSuspectBroadcast (Incarnation node) (NName (N node)) (localName m)) (m1, (w1, log_of s)) = (r, s)))
     (m, (w, []))"
proof -
  let ?m = "m\<lparr>sequenceNum := sequenceNum m + 1\<rparr>"
  have seq: "nextSeqNum (m, (w, [])) = (Inr (sequenceNum m + 1), (?m, (w, [])))"
    and conf: "obj config (?m, (w, [])) = (Inr (config m), (?m, (w, [])))"
    by (simp_all add: nextSeqNum_def exec_defs)
  have "wp (probeNode (recording e) node) (probe_verdict e node m) (m, (w, []))"
    unfolding probeNode_def Let_def Pipe_is_Pipe2
    by (rule wp_bind_run, rule seq, rule wp_bind_run, rule conf, rule wp_verdict_pipe, simp, rule wp_verdict_pipe, simp,
        rule wp_verdict_then, rule keeps_probe, intro steady_intros, simp,
        (rule wp_verdict_bind, rule keeps_probe, intro steady_intros, assumption)+,
        rule wp_verdict_direct, assumption, rule wp_verdict_indirect, assumption, rule assms(1),
        rule wp_verdict_read, assumption, unfold wp_if, intro conjI impI, rule wp_verdict_done, rule keeps_atomic, assumption,
        rule wp_verdict_read, assumption, unfold wp_if, intro conjI impI, rule wp_verdict_done, rule keeps_atomic, assumption,
        rule wp_verdict_suspects, assumption, rule silenceI, assumption+, blast+)
  then show ?thesis
    unfolding probe_verdict_def .
qed

theorem probe_suspects_unanswered_witness:
  "wp (probeNode (recording ref_env) (sample_node ''b'' StateAlive)) (\<lambda>r s. untouched (sample_list StateAlive) (fst s) \<or>
     (\<exists>fallback m1 w1. silence ref_env True fallback (log_of s) \<and> untouched (sample_list StateAlive) m1 \<and>
        (\<exists>ping t. TcpPing (snd fallback) (N (sample_node ''b'' StateAlive)) ping t \<in> set (detached m1)) \<and>
        suspectNode (recording ref_env) (genSuspectBroadcast 1 ''b'' ''a'') (m1, (w1, log_of s)) = (r, s)))
     (sample_list StateAlive, (world0, []))"
proof -
  have "AllowTcpPing (config (sample_list StateAlive))" "localName (sample_list StateAlive) = ''a''"
    "Incarnation (sample_node ''b'' StateAlive) = 1" "NName (N (sample_node ''b'' StateAlive)) = ''b''"
    by (simp_all add: sample_defs)
  then show ?thesis
    using probe_suspects_unanswered [OF sample_local(3), of ref_env "sample_node ''b'' StateAlive" StateAlive world0] by simp
qed

section \<open>A node that does not answer\<close>

text \<open>
  The calls of a probe that do not wait for an answer succeed, a \<^verbatim>\<open>select\<close> with a timeout returns, and every
  address in the table can be read. New threads are not the one that probes. Nothing is said
  about what is read.
\<close>

definition probe_calls_succeed :: "('w, 'e) env_scheme \<Rightarrow> memberlist \<Rightarrow> bool" where
  "probe_calls_succeed e m \<longleftrightarrow>
     (\<forall>fl w. 0 \<le> fst (fst (sys_pipe e fl w))) \<and> (\<forall>fd b a w. 0 \<le> fst (sys_sendto e fd b a w)) \<and>
     (\<forall>fd w. 0 \<le> fst (sys_close e fd w)) \<and> (\<forall>fd b w. 0 \<le> fst (sys_write e fd b w)) \<and>
     (\<forall>n f t w. \<exists>k r w'. sys_select e n f (Some t) w = (Some (k, r), w') \<and> 0 \<le> k) \<and>
     (\<forall>w. fst (sys_thread e w) \<noteq> self m) \<and>
     (\<forall>w. INT64_MIN \<le> fst (sys_now e w) + ProbeInterval (config m) \<and> fst (sys_now e w) + ProbeInterval (config m) \<le> INT64_MAX) \<and>
     (\<forall>p \<in> set (nodes m). inet_pton4 e (c_str (NAddr (N (heap m p)))) \<noteq> None)"

lemma succeedD:
  assumes "probe_calls_succeed e m"
  shows "\<not> fst (fst (sys_pipe e fl v)) < 0" "sys_sendto e fd b a v = (k, v') \<Longrightarrow> \<not> k < 0"
    "sys_close e fd v = (k, v') \<Longrightarrow> \<not> k < 0" "sys_write e fd b v = (k, v') \<Longrightarrow> \<not> k < 0"
    "sys_select e nf f (Some t) v = (x, v') \<Longrightarrow> \<exists>k r. x = Some (k, r) \<and> \<not> k < 0"
    "fst (sys_thread e v) \<noteq> self m"
    "sys_now e v = (t', v') \<Longrightarrow> INT64_MIN \<le> t' + ProbeInterval (config m) \<and> t' + ProbeInterval (config m) \<le> INT64_MAX"
    "p \<in> set (nodes m) \<Longrightarrow> \<exists>a. inet_pton4 e (c_str (NAddr (N (heap m p)))) = Some a"
  using assms unfolding probe_calls_succeed_def
  by (metis fst_conv not_less prod.inject option.inject not_None_eq)+

lemma wp_succeed:
  assumes "probe_calls_succeed e m"
  shows "(\<And>fds w' l'. pipes_made e l' = pipes_made e l @ [fds] \<Longrightarrow> reads_made e l' = reads_made e l \<Longrightarrow> P (Inr fds) (w', l')) \<Longrightarrow>
      wp (Pipe2 (recording e) fl) P (w, l)"
    "(\<And>w'. R (Inr ()) (w', l)) \<Longrightarrow> wp (encodeSendUDP (recording e) fd a md) R (w, l)"
    "(\<And>x w'. C (Inr x) (w', l)) \<Longrightarrow> wp (Close (recording e) fd) C (w, l)"
    "(\<And>x w'. C (Inr x) (w', l)) \<Longrightarrow> wp (Write (recording e) fd b) C (w, l)"
    "(\<And>x w'. S (Inr x) (w', l)) \<Longrightarrow> wp (Select (recording e) nf f (Some t)) S (w, l)"
    "(\<And>x w'. T (Inr x) (w', l)) \<Longrightarrow> wp (timeval_usec (recording e) us) T (w, l)"
    "(\<And>w'. R (Inr ()) (w', l)) \<Longrightarrow> wp (clearProbePipes (recording e) ack nack fb) R (w, l)"
proof -
  show pipe: "(\<And>fds w' l'. pipes_made e l' = pipes_made e l @ [fds] \<Longrightarrow> reads_made e l' = reads_made e l \<Longrightarrow> P (Inr fds) (w', l')) \<Longrightarrow>
      wp (Pipe2 (recording e) fl) P (w, l)" for P w l
    by (rule wp_Pipe_logged) (use succeedD(1) [OF assms] in blast)+
  show close: "(\<And>x w'. C (Inr x) (w', l)) \<Longrightarrow> wp (Close (recording e) fd) C (w, l)" for C fd w
    unfolding Close_def by (auto simp: wp_simps unlogged_def split: prod.splits dest: succeedD(2-5) [OF assms])
  show "(\<And>w'. R (Inr ()) (w', l)) \<Longrightarrow> wp (clearProbePipes (recording e) ack nack fb) R (w, l)"
    unfolding clearProbePipes_def by (auto simp: wp_simps intro!: close)
  show "(\<And>w'. R (Inr ()) (w', l)) \<Longrightarrow> wp (encodeSendUDP (recording e) fd a md) R (w, l)"
    "(\<And>x w'. C (Inr x) (w', l)) \<Longrightarrow> wp (Write (recording e) fd b) C (w, l)"
    "(\<And>x w'. S (Inr x) (w', l)) \<Longrightarrow> wp (Select (recording e) nf f (Some t)) S (w, l)"
    "(\<And>x w'. T (Inr x) (w', l)) \<Longrightarrow> wp (timeval_usec (recording e) us) T (w, l)"
    unfolding encodeSendUDP_def Sendto_def Write_def Select_def timeval_usec_def
    by (auto simp: wp_simps unlogged_def split: prod.splits dest: succeedD(2-5) [OF assms])
qed

text \<open>While it waits, a probe only meets handlers whose timers run in other threads.\<close>

definition probing :: "memberlist \<Rightarrow> memberlist \<Rightarrow> bool" where
  "probing m c \<longleftrightarrow> untouched m c \<and>
     (\<forall>(n, ah) \<in> set (ackHandlers c). \<forall>th. t_thread (ah_t ah) = Some th \<longrightarrow> th_id th \<noteq> self m)"

lemma probing_step [simp]:
  "probing m c \<Longrightarrow> probing m (c\<lparr>sequenceNum := n\<rparr>)" "probing m c \<Longrightarrow> probing m (c\<lparr>detached := d\<rparr>)"
  "probing m c \<Longrightarrow> probing m (c\<lparr>ackHandlers := AList.delete k (ackHandlers c)\<rparr>)"
  "probing m c \<Longrightarrow> (\<And>th. t_thread (ah_t ah) = Some th \<Longrightarrow> th_id th \<noteq> self m) \<Longrightarrow>
     probing m (c\<lparr>ackHandlers := AList.update k ah (ackHandlers c)\<rparr>)"
proof -
  have del: "set (AList.delete k xs) \<subseteq> set xs" for k and xs :: "(uint32 \<times> ackHandler) list"
    by (auto simp: AList.delete_eq)
  have upd: "set (AList.update k v xs) \<subseteq> insert (k, v) (set xs)" for k v and xs :: "(uint32 \<times> ackHandler) list"
    by (induction xs) auto
  show "probing m c \<Longrightarrow> probing m (c\<lparr>sequenceNum := n\<rparr>)" "probing m c \<Longrightarrow> probing m (c\<lparr>detached := d\<rparr>)"
    by (simp_all add: probing_def)
  show "probing m c \<Longrightarrow> probing m (c\<lparr>ackHandlers := AList.delete k (ackHandlers c)\<rparr>)"
    using del [of k "ackHandlers c"] by (simp add: probing_def) blast
  show "probing m c \<Longrightarrow> (\<And>th. t_thread (ah_t ah) = Some th \<Longrightarrow> th_id th \<noteq> self m) \<Longrightarrow>
     probing m (c\<lparr>ackHandlers := AList.update k ah (ackHandlers c)\<rparr>)"
    using upd [of k ah "ackHandlers c"] by (simp add: probing_def) blast
qed

lemma probing_fields:
  assumes "probing m c"
  shows "nodes c = nodes m" "heap c = heap m" "nodeMutex c = nodeMutex m" "config c = config m" "self c = self m"
  using assms by (simp_all add: probing_def untouched_fields)

lemma wp_release_exact:
  assumes "probing m c" and "\<not> nodeMutex m"
    and "\<And>w'. Q (Inr ()) (c\<lparr>ackHandlers := AList.delete n (ackHandlers c)\<rparr>, w')"
  shows "wp (release_handler n) Q (c, w)"
proof (cases "map_of (ackHandlers c) n")
  case None
  then have "AList.delete n (ackHandlers c) = ackHandlers c"
    by (simp add: map_of_eq_None_iff)
  then have "c\<lparr>ackHandlers := AList.delete n (ackHandlers c)\<rparr> = c"
    by simp
  with None assms(3) show ?thesis
    by (simp add: release_handler_def wp_simps)
next
  case (Some ah)
  then have "join_thread (self c) (nodeMutex c) (t_thread (ah_t ah)) = Inr ()"
    using assms(1,2) by (auto simp: probing_fields [OF assms(1)] join_thread_def probing_def dest!: map_of_SomeD split: option.split)
  then show ?thesis
    using assms(3) Some
    by (simp add: release_handler_def ackHandler_destroy_def onceTimer_destroy_def onceTimer_Stop_def join_in_destructor_def wp_simps)
qed

lemma wp_release_handler:
  assumes "probing m c" and "\<not> nodeMutex m" and "\<And>c' w'. probing m c' \<Longrightarrow> Q (Inr ()) (c', w')"
  shows "wp (release_handler n) Q (c, w)"
  by (rule wp_release_exact [OF assms(1,2)]) (simp add: assms)

lemma wp_setProbePipes:
  assumes "\<And>w. fst (sys_thread e w) \<noteq> self m" and "probing m c" and "\<not> nodeMutex m" and "\<And>c' w'. probing m c' \<Longrightarrow> Q (Inr ()) (c', w')"
  shows "wp (setProbePipes e n a na i) Q (c, w)"
  using assms(2-4) unfolding setProbePipes_def put_handler_def Let_def
  by (auto simp: wp_simps new_ackHandler_def copy_timer_def new_timer_def onceTimer_Run_def start_runner_def join_thread_def
      intro!: wp_release_handler assms(4) probing_step(4)) (metis assms(1) fst_conv)

lemma wp_random_members:
  assumes "\<not> nodeMutex c" and "\<And>v w'. set v \<subseteq> heap c ` set (nodes c) \<Longrightarrow> Q (Inr v) (c, w')"
  shows "wp (random_members e k (\<lambda>n. ret (b n))) Q (c, w)"
proof -
  have "wp (kRandomNodes e k (map (heap c) (nodes c)) (\<lambda>n. ret (b n)))
     (\<lambda>r w'. (\<forall>x. r = Inl x \<longrightarrow> False) \<and> (\<forall>v. r = Inr v \<longrightarrow> length v \<le> unat k \<and> distinct (node_names v) \<and>
        set v \<subseteq> {n \<in> set (map (heap c) (nodes c)). \<not> b n})) w"
    by (rule wp_kRandomNodes) (simp add: wp_simps)
  then have "wp (kRandomNodes e k (map (heap c) (nodes c)) (\<lambda>n. ret (b n))) (\<lambda>r w'. r \<noteq> Inl Deadlock \<and> Q r (c, w')) w"
  proof (rule wp_mono)
    fix r :: "exn + nodeState list" and w'
    assume r: "(\<forall>x. r = Inl x \<longrightarrow> False) \<and> (\<forall>v. r = Inr v \<longrightarrow> length v \<le> unat k \<and> distinct (node_names v) \<and>
        set v \<subseteq> {n \<in> set (map (heap c) (nodes c)). \<not> b n})"
    then obtain v where "r = Inr v" by (cases r) auto
    then show "r \<noteq> Inl Deadlock \<and> Q r (c, w')"
      using r by (auto intro!: assms(2))
  qed
  then show ?thesis
    using assms(1) by (auto simp: random_members_def wp_simps relock elim: wp_mono)
qed

text \<open>
  How a read that was not silence ends the probe: it never returns when the read does not, it
  throws when the read fails, and it is over when an acknowledgement came. The last holds for
  the third pipe only while pings over TCP are allowed.
\<close>

fun read_ends :: "bool \<Rightarrow> (int \<times> bytes) option \<Rightarrow> exn + unit \<Rightarrow> bool" where
  "read_ends counts None r = (r = Inl Deadlock)"
| "read_ends counts (Some (k, b)) r =
     (if k < 0 then \<exists>n. r = Inl (WrapException n) else counts \<and> (b = [] \<or> ackMessage_complete b) \<and> r = Inr ())"

definition heard :: "('w, 'e) env_scheme \<Rightarrow> bool \<Rightarrow> 'w sys_call list \<Rightarrow> exn + unit \<Rightarrow> bool" where
  "heard e tcp l r \<longleftrightarrow>
     (\<exists>ack others earlier x. pipes_made e l = ack # others \<and> reads_made e l = earlier @ [(fst ack, 16, x)] \<and> read_ends True x r) \<or>
     (\<exists>ack nack fallback earlier x. pipes_made e l = [ack, nack, fallback] \<and>
        reads_made e l = earlier @ [(fst fallback, 1, x)] \<and> read_ends tcp x r)"

lemma read_ends_failed: "read_outcome x (Inl y) \<Longrightarrow> read_ends b x (Inl y)"
  by (cases x) (auto split: if_splits)

lemma read_ends_answered: "read_outcome x (Inr ob) \<Longrightarrow> ackMessage_complete ob \<Longrightarrow> read_ends True x (Inr ())"
  by (cases x) (auto simp: ackMessage_complete_def split: if_splits)

lemma wp_direct_probe_run:
  assumes "probe_calls_succeed e m"
    and "\<And>xs w' l'. pipes_made e l' = pipes_made e l \<Longrightarrow> reads_made e l' = reads_made e l @ map (\<lambda>x. (fst fds, 16, x)) xs \<Longrightarrow>
      length xs \<le> 1 \<Longrightarrow> list_all negative xs \<Longrightarrow> Q (Inr False) (c, (w', l'))"
    and "\<And>x y w' l'. pipes_made e l' = pipes_made e l \<Longrightarrow> reads_made e l' = reads_made e l @ [(fst fds, 16, x)] \<Longrightarrow>
      read_ends True x (Inl y) \<Longrightarrow> Q (Inl y) (c, (w', l'))"
    and "\<And>x w' l'. pipes_made e l' = pipes_made e l \<Longrightarrow> reads_made e l' = reads_made e l @ [(fst fds, 16, x)] \<Longrightarrow>
      read_ends True x (Inr ()) \<Longrightarrow> Q (Inr True) (c, (w', l'))"
  shows "wp (direct_probe (recording e) node ping a fds) Q (c, (w, l))"
proof -
  have none: "Q (Inr False) (c, (w', l))" for w'
    using assms(2) [of l "[]" w'] by simp
  have one: "Q (Inr False) (c, (w', l'))" if "pipes_made e l' = pipes_made e l"
    "reads_made e l' = reads_made e l @ [(fst fds, 16, x)]" "negative x" for w' l' x
    using assms(2) [of l' "[x]" w'] that by simp
  show ?thesis
    unfolding direct_probe_def
    by (auto simp: wp_bindE wp_thenE wp_obj wp_world wp_if wp_ret wp_case_prod
        intro!: wp_succeed [OF assms(1)] none wp_Read_logged one
        intro: read_outcome_negative assms(3,4) read_ends_failed read_ends_answered)
qed

lemma wp_send_all:
  assumes "probe_calls_succeed e m" and "set ks \<subseteq> heap m ` set (nodes m)" and "\<And>w'. Q (Inr ()) (c, (w', l))"
  shows "wp (forE ks (\<lambda>k. bindE (world (FullAddr (recording e) (N k))) (\<lambda>addr. world (encodeSendUDP (recording e) fd addr md)))) Q (c, (w, l))"
  using assms(2,3)
proof (induction ks arbitrary: w)
  case (Cons k ks)
  then obtain q where "q \<in> set (nodes m)" and "k = heap m q"
    by auto
  then obtain a where "inet_pton4 e (c_str (NAddr (N k))) = Some a"
    using succeedD(8) [OF assms(1)] by blast
  then show ?case
    using Cons by (auto simp: wp_simps FullAddr_def intro!: wp_succeed [OF assms(1)])
qed (simp add: wp_simps)

lemma wp_indirect_probe_run:
  assumes "probe_calls_succeed e m" and "probing m c" and "\<not> nodeMutex m"
    and "\<And>fb c' w' l'. probing m c' \<Longrightarrow> pipes_made e l' = pipes_made e l @ [fb] \<Longrightarrow> reads_made e l' = reads_made e l \<Longrightarrow>
      Q (Inr fb) (c', (w', l'))"
  shows "wp (indirect_probe (recording e) node n ping d) Q (c, (w, l))"
proof -
  have members: "wp (random_members (recording e) k (\<lambda>n. ret (b n))) R (c, (w, l))"
    if "\<And>v w'. set v \<subseteq> heap m ` set (nodes m) \<Longrightarrow> R (Inr v) (c, (w', l))" for R k b w
    by (rule wp_log [where P = "\<lambda>r c'. \<exists>v. r = Inr v \<and> c' = c \<and> set v \<subseteq> heap m ` set (nodes m)"])
      (auto intro!: steady_intros wp_random_members that simp: probing_fields [OF assms(2)] assms(3))
  show ?thesis
    using assms(2-4) unfolding indirect_probe_def Let_def Pipe_is_Pipe2
    by (auto simp: wp_bindE wp_thenE wp_obj wp_world wp_if wp_upd wp_ret
        intro!: members wp_send_all [OF assms(1)] wp_succeed [OF assms(1)])
qed

lemma wp_bind_only:
  assumes "wp p (\<lambda>r s'. \<exists>a. r = Inr a \<and> wp (f a) Q s') s"
  shows "wp (bindE p f) Q s"
  unfolding wp_bindE by (rule wp_mono [OF assms]) auto

lemma wp_then_only:
  assumes "wp p (\<lambda>r s'. \<exists>a. r = Inr a \<and> wp q Q s') s"
  shows "wp (thenE p q) Q s"
  unfolding thenE_def by (rule wp_bind_only [OF assms])

lemma wp_setProbePipes_run:
  assumes "probe_calls_succeed e m" and "probing m c" and "\<not> nodeMutex m" and "\<And>c' w'. probing m c' \<Longrightarrow> Q (Inr ()) (c', (w', l))"
  shows "wp (setProbePipes (recording e) n ap np i) Q (c, (w, l))"
proof -
  have "fst (sys_thread (recording e) v) \<noteq> self m" for v
    using succeedD(6) [OF assms(1), of "fst v"] by (cases "sys_thread e (fst v)") (simp add: unlogged_def)
  then have "wp (setProbePipes (recording e) n ap np i) (\<lambda>r s. r = Inr () \<and> probing m (fst s)) (c, (w, l))"
    using assms(2,3) by (rule wp_setProbePipes) simp
  then show ?thesis
    by (rule wp_log [OF steady_handlers(3)]) (simp add: assms(4))
qed

lemma wp_release_run:
  assumes "probing m c" and "\<not> nodeMutex m" and "\<And>c' w'. probing m c' \<Longrightarrow> Q (Inr ()) (c', (w', l))"
  shows "wp (release_handler n) Q (c, (w, l))"
proof -
  have "wp (release_handler n) (\<lambda>r s. r = Inr () \<and> probing m (fst s)) (c, (w, l))"
    using assms(1,2) by (rule wp_release_handler) simp
  then show ?thesis
    by (rule wp_log [OF steady_handlers(1)]) (simp add: assms(3))
qed

lemma wp_deadline:
  assumes "probe_calls_succeed e m" and "\<And>d w'. wp (f d) Q (c, (w', l))"
  shows "wp (bindE (now_us (recording e)) (\<lambda>t. bindE (int64 (t + ProbeInterval (config m))) f)) Q (c, (w, l))"
  using assms(2) succeedD(7) [OF assms(1)] by (auto simp: now_us_def wp_simps unlogged_def split: prod.splits)

text \<open>The two reports at the end of a probe.\<close>

lemma wp_reports:
  assumes "probe_calls_succeed e m" and "probing m c" and "\<not> nodeMutex m" and "pipes_made e l = [ack, nack, fb]"
    and "reads_made e l = map (\<lambda>x. (fst ack, 16, x)) xs" and "length xs \<le> 1" and "list_all negative xs"
    and "\<And>c w' l'. untouched m c \<Longrightarrow> silence e (AllowTcpPing (config m)) fb l' \<Longrightarrow> wp q Q (c, (w', l'))"
    and "\<And>r c w' l'. untouched m c \<Longrightarrow> heard e (AllowTcpPing (config m)) l' r \<Longrightarrow> Q r (c, (w', l'))"
  shows "wp (bindE (world (Read_object (recording e) (fst ack) 16)) (\<lambda>ackmsg.
      if ackMessage_complete ackmsg then world (clearProbePipes (recording e) ack nack (Some fb))
      else bindE (world (Read_object (recording e) (fst fb) 1)) (\<lambda>didConnect.
        if AllowTcpPing (config m) \<and> ackMessage_complete didConnect then world (clearProbePipes (recording e) ack nack (Some fb))
        else thenE (release_handler n) (thenE (world (clearProbePipes (recording e) ack nack (Some fb))) q)))) Q (c, (w, l))"
proof -
  let ?tcp = "AllowTcpPing (config m)"
  have clear: "wp (world (clearProbePipes (recording e) ack nack (Some fb))) Q (c, (w', l'))" if "heard e ?tcp l' (Inr ())" for w' l'
    unfolding wp_world fst_conv snd_conv using assms(2,9) that by (intro wp_succeed(7) [OF assms(1)]) (simp add: probing_def)
  have suspect: "wp (thenE (release_handler n) (thenE (world (clearProbePipes (recording e) ack nack (Some fb))) q)) Q (c, (w', l'))"
    if "silence e ?tcp fb l'" for w' l'
    using assms(2,3,8) that
    by (auto simp: wp_world probing_def [of m c for c] intro!: wp_then_only wp_release_run wp_succeed(7) [OF assms(1)])
  have second: "wp (bindE (world (Read_object (recording e) (fst fb) 1)) (\<lambda>didConnect.
        if ?tcp \<and> ackMessage_complete didConnect then world (clearProbePipes (recording e) ack nack (Some fb))
        else thenE (release_handler n) (thenE (world (clearProbePipes (recording e) ack nack (Some fb))) q))) Q (c, (w', l'))"
    if l': "pipes_made e l' = [ack, nack, fb]" "reads_made e l' = map (\<lambda>x. (fst ack, 16, x)) xs @ [(fst ack, 16, x)]" and "negative x"
    for w' l' x
    unfolding wp_bindE wp_world fst_conv snd_conv
  proof (rule wp_Read_logged, intro conjI allI impI)
    fix y r w'' l'' ob
    assume y: "pipes_made e l'' = pipes_made e l'" "reads_made e l'' = reads_made e l' @ [(fst fb, 1, y)]" "read_outcome y r"
    have third: "heard e ?tcp l'' r'" if "read_ends ?tcp y r'" for r'
      unfolding heard_def using y l' that by auto
    have quiet: "silence e ?tcp fb l''" if "?tcp \<Longrightarrow> negative y" and "delivered y"
      unfolding silence_def using y l' \<open>negative x\<close> assms(6,7) that
      by (intro exI [of _ ack] exI [of _ nack] exI [of _ "xs @ [x]"] exI [of _ y]) simp
    show "Q (Inl z) (c, (w'', l''))" if "r = Inl z" for z
      using third [OF read_ends_failed] y(3) that assms(2,9) by (simp add: probing_def)
    assume ob: "r = Inr ob"
    show "wp (if ?tcp \<and> ackMessage_complete ob then world (clearProbePipes (recording e) ack nack (Some fb))
        else thenE (release_handler n) (thenE (world (clearProbePipes (recording e) ack nack (Some fb))) q)) Q (c, (w'', l''))"
      using y(3) ob by (auto intro!: clear suspect third quiet dest: read_outcome_negative read_outcome_delivered read_ends_answered)
  qed
  show ?thesis
    unfolding wp_bindE [of "world (Read_object (recording e) (fst ack) 16)"] wp_world fst_conv snd_conv
  proof (rule wp_Read_logged, intro conjI allI impI)
    fix x r w' l' ob
    assume x: "pipes_made e l' = pipes_made e l" "reads_made e l' = reads_made e l @ [(fst ack, 16, x)]" "read_outcome x r"
    have first: "heard e ?tcp l' r'" if "read_ends True x r'" for r'
      unfolding heard_def using x assms(4,5) that by auto
    show "Q (Inl z) (c, (w', l'))" if "r = Inl z" for z
      using first [OF read_ends_failed] x(3) that assms(2,9) by (simp add: probing_def)
    assume ob: "r = Inr ob"
    show "wp (if ackMessage_complete ob then world (clearProbePipes (recording e) ack nack (Some fb))
      else bindE (world (Read_object (recording e) (fst fb) 1)) (\<lambda>didConnect.
        if ?tcp \<and> ackMessage_complete didConnect then world (clearProbePipes (recording e) ack nack (Some fb))
        else thenE (release_handler n) (thenE (world (clearProbePipes (recording e) ack nack (Some fb))) q))) Q (c, (w', l'))"
      using x ob assms(4,5)
      by (auto simp only: if_splits wp_if intro!: clear second first dest: read_outcome_negative read_ends_answered)
  qed
qed

lemma wp_direct_bind:
  assumes "probe_calls_succeed e m"
    and "\<And>xs w' l'. pipes_made e l' = pipes_made e l \<Longrightarrow> reads_made e l' = reads_made e l @ map (\<lambda>x. (fst fds, 16, x)) xs \<Longrightarrow>
      length xs \<le> 1 \<Longrightarrow> list_all negative xs \<Longrightarrow> wp rest Q (c, (w', l'))"
    and "\<And>x y w' l'. pipes_made e l' = pipes_made e l \<Longrightarrow> reads_made e l' = reads_made e l @ [(fst fds, 16, x)] \<Longrightarrow>
      read_ends True x (Inl y) \<Longrightarrow> Q (Inl y) (c, (w', l'))"
    and "\<And>x w' l'. pipes_made e l' = pipes_made e l \<Longrightarrow> reads_made e l' = reads_made e l @ [(fst fds, 16, x)] \<Longrightarrow>
      read_ends True x (Inr ()) \<Longrightarrow> wp fin Q (c, (w', l'))"
  shows "wp (bindE (direct_probe (recording e) node ping a fds) (\<lambda>b. if b then fin else rest)) Q (c, (w, l))"
  unfolding wp_bindE by (rule wp_direct_probe_run [OF assms(1)]) (simp_all add: assms)

text \<open>The whole probe: silence leads to the suspicion, anything else ends it with the table untouched.\<close>

lemma wp_probe_outcome:
  assumes "probe_calls_succeed e m" and "probing m m" and "\<not> nodeMutex m" and "p \<in> set (nodes m)"
    and "\<And>fb c w' l. untouched m c \<Longrightarrow> silence e (AllowTcpPing (config m)) fb l \<Longrightarrow>
      wp (suspectNode (recording e) (genSuspectBroadcast (Incarnation (heap m p)) (NName (N (heap m p))) (localName m))) Q (c, (w', l))"
    and "\<And>r c w' l. untouched m c \<Longrightarrow> heard e (AllowTcpPing (config m)) l r \<Longrightarrow> Q r (c, (w', l))"
  shows "wp (probeNode (recording e) (heap m p)) Q (m, (w, []))"
proof -
  let ?m = "m\<lparr>sequenceNum := sequenceNum m + 1\<rparr>"
  obtain a where addr: "inet_pton4 e (c_str (NAddr (N (heap m p)))) = Some a"
    using succeedD(8) [OF assms(1,4)] by blast
  have seq: "nextSeqNum (m, (w, [])) = (Inr (sequenceNum m + 1), (?m, (w, [])))"
    and conf: "obj config (?m, (w, [])) = (Inr (config m), (?m, (w, [])))"
    by (simp_all add: nextSeqNum_def exec_defs)
  have start: "probing m ?m"
    using assms(2) by simp
  show ?thesis
    unfolding probeNode_def Let_def Pipe_is_Pipe2 FullAddr_def recording_calls addr option.case
    by (rule wp_bind_run, rule seq, rule wp_bind_run, rule conf,
        (rule wp_bind_only, unfold wp_world fst_conv snd_conv, rule wp_succeed [OF assms(1)], intro exI conjI, rule refl)+,
        rule wp_then_only, rule wp_setProbePipes_run [OF assms(1) start assms(3)], intro exI conjI, rule refl,
        rule wp_bind_only, unfold wp_world fst_conv snd_conv wp_ret, intro exI conjI, rule refl,
        rule wp_deadline [OF assms(1)], rule wp_direct_bind [OF assms(1)],
        rule wp_bind_only, rule wp_indirect_probe_run [OF assms(1) _ assms(3)], assumption, intro exI conjI, rule refl,
        rule wp_reports [OF assms(1) _ assms(3)])
      (auto simp: probing_def [of m c for c] intro!: assms(5,6) wp_succeed(7) [OF assms(1)] simp: heard_def wp_world)
qed

lemma untouched_table:
  assumes "untouched m c"
  shows "silent n c = silent n m" "timeouts e c mn mx = timeouts e m mn mx"
  using assms by (simp_all add: silent_def timeouts_def untouched_fields)

lemma recording_timeouts [simp]: "timeouts (recording e) m mn mx = timeouts e m mn mx"
  by (simp add: timeouts_def suspicionTimeout_def)

lemma turn_index [simp]:
  "probe_calls_succeed e (m\<lparr>probeIndex := i\<rparr>) = probe_calls_succeed e m" "probing (m\<lparr>probeIndex := i\<rparr>) (m\<lparr>probeIndex := i\<rparr>) = probing m m"
  "silent n (m\<lparr>probeIndex := i\<rparr>) = silent n m" "timeouts e (m\<lparr>probeIndex := i\<rparr>) mn mx = timeouts e m mn mx"
  by (simp_all add: probe_calls_succeed_def probing_def silent_def timeouts_def)

text \<open>What the suspicion that a probe ends with does.\<close>

definition suspected :: "memberlist \<Rightarrow> nat \<Rightarrow> memberlist \<Rightarrow> bool" where
  "suspected m p m' \<longleftrightarrow> (let n = NName (N (heap m p)) in State (heap m' p) = StateSuspect \<and>
     (\<exists>sus. map_of (nodeTimers m') n = Some sus \<and> running (sus_t sus)) \<and>
     bq_pending (TransmitLimitedQueue m') n = Some \<lparr>mb_node = n,
       mb_msg = genSuspectBroadcast (Incarnation (heap m p)) n (localName m), mb_notifyFd = -1\<rparr>)"

lemma wp_suspect_target:
  assumes "untouched m c" and "\<not> nodeMutex m" and "0 < bq_room (TransmitLimitedQueue m)"
    and "NName (N (heap m p)) = n" and "nodeMap m n = Some p" and "n \<noteq> localName m"
    and "State (heap m p) = StateAlive" and "map_of (nodeTimers m) n = None" and "silent n m" and "timeouts e m mn mx"
  shows "wp (suspectNode (recording e) (genSuspectBroadcast (Incarnation (heap m p)) (NName (N (heap m p))) (localName m)))
     (\<lambda>r s. r = Inr () \<and> suspected m p (fst s) \<and> log_of s = l) (c, (w, l))"
proof -
  note same = untouched_fields [OF assms(1)] untouched_table [OF assms(1)]
  have "wp (suspectNode (recording e) (genSuspectBroadcast (Incarnation (heap m p)) n (localName m))) (\<lambda>r s. r = Inr () \<and> (\<exists>now sus.
      heap (fst s) = (heap c)(p := (heap c p)\<lparr>Incarnation := Incarnation (heap m p), State := StateSuspect, StateChange := now\<rparr>) \<and>
      nodes (fst s) = nodes c \<and> nodeMap (fst s) = nodeMap c \<and>
      map_of (nodeTimers (fst s)) n = Some sus \<and> fresh_suspicion n (localName m) now mn mx sus \<and>
      bq_pending (TransmitLimitedQueue (fst s)) n =
        Some \<lparr>mb_node = n, mb_msg = genSuspectBroadcast (Incarnation (heap m p)) n (localName m), mb_notifyFd = -1\<rparr>)) (c, (w, l))"
  proof (rule suspectNode_run)
    show "\<not> nodeMutex c" "0 < bq_room (TransmitLimitedQueue c)" "nodeMap c n = Some p" "NName (N (heap c p)) \<noteq> localName c"
      "Incarnation (heap c p) \<le> Incarnation (heap m p)" "State (heap c p) = StateAlive" "map_of (nodeTimers c) n = None"
      "silent n c" "timeouts (recording e) c mn mx"
      by (simp_all only: same recording_timeouts) (simp_all add: assms)
  qed
  then have "wp (suspectNode (recording e) (genSuspectBroadcast (Incarnation (heap m p)) n (localName m)))
      (\<lambda>r s. r = Inr () \<and> suspected m p (fst s)) (c, (w, l))"
    by (rule wp_mono) (elim conjE exE, unfold fresh_suspicion_def suspected_def Let_def assms(4), simp)
  then show ?thesis
    unfolding assms(4) by (rule wp_log [OF steady_suspectNode, where P = "\<lambda>r c. r = Inr () \<and> suspected m p c"]) simp
qed

text \<open>
  C6. What a round of the failure detector makes of the alive node whose turn it is depends on
  what it reads from the pipes it made itself. Let its other calls succeed. When all it reads is
  silence, negative answers from the pipe for acknowledgements and, if pings over TCP are allowed, from
  the pipe for these, it marks the node suspect, starts its suspicion timer and queues the
  suspicion for gossip under our name. Otherwise it leaves the table alone, and its last read
  decides: it is over when that brought an acknowledgement, throws when the read failed, and
  never returns when the read does not. So it may end when pings over TCP are off: nobody writes
  to the third pipe then, and the round reads from it before it suspects. The detached thread that pings over TCP is not part of the
  round; an exception that leaves it ends the program.
\<close>

theorem silent_node_suspected:
  assumes "probe_calls_succeed e m" and "probing m m" and "\<not> nodeMutex m" and "0 < bq_room (TransmitLimitedQueue m)"
    and "drop (probeIndex m) (nodes m) = skipped @ p # rest" and "list_all (\<lambda>q. \<not> eligible m q) skipped"
    and "NName (N (heap m p)) = n" and "nodeMap m n = Some p" and "n \<noteq> localName m" and "State (heap m p) = StateAlive"
    and "map_of (nodeTimers m) n = None" and "silent n m" and "timeouts e m mn mx"
  shows "wp (probe (recording e)) (\<lambda>r s.
     (\<exists>fallback. silence e (AllowTcpPing (config m)) fallback (log_of s)) \<and> r = Inr () \<and> suspected m p (fst s) \<or>
     heard e (AllowTcpPing (config m)) (log_of s) r \<and>
       untouched (m\<lparr>probeIndex := probeIndex m + length skipped + 1\<rparr>) (fst s)) (m, (w, []))"
proof -
  let ?m = "m\<lparr>probeIndex := probeIndex m + length skipped + 1\<rparr>"
  have turn: "eligible m p"
    using assms(7,9,10) by (simp add: eligible_def DeadOrLeft_def)
  have "p \<in> set (drop (probeIndex m) (nodes m))"
    unfolding assms(5) by simp
  then have p: "p \<in> set (nodes ?m)"
    by (simp add: in_set_dropD)
  have "wp (probeNode (recording e) (heap ?m p)) (\<lambda>r s.
     (\<exists>fallback. silence e (AllowTcpPing (config ?m)) fallback (log_of s)) \<and> r = Inr () \<and> suspected m p (fst s) \<or>
     heard e (AllowTcpPing (config ?m)) (log_of s) r \<and> untouched ?m (fst s)) (?m, (w, []))"
  proof (rule wp_probe_outcome)
    fix fb c w' l
    assume c: "untouched ?m c" and l: "silence e (AllowTcpPing (config ?m)) fb l"
    have "wp (suspectNode (recording e) (genSuspectBroadcast (Incarnation (heap ?m p)) (NName (N (heap ?m p))) (localName ?m)))
        (\<lambda>r s. r = Inr () \<and> suspected ?m p (fst s) \<and> log_of s = l) (c, (w', l))"
      by (rule wp_suspect_target [OF c]) (use assms in simp_all)
    then show "wp (suspectNode (recording e) (genSuspectBroadcast (Incarnation (heap ?m p)) (NName (N (heap ?m p))) (localName ?m)))
        (\<lambda>r s. (\<exists>fallback. silence e (AllowTcpPing (config ?m)) fallback (log_of s)) \<and> r = Inr () \<and> suspected m p (fst s) \<or>
          heard e (AllowTcpPing (config ?m)) (log_of s) r \<and> untouched ?m (fst s)) (c, (w', l))"
      by (rule wp_mono, intro disjI1 conjI exI [of _ fb]) (use l in \<open>simp_all add: suspected_def Let_def\<close>)
  qed (use assms(1-3) p in simp_all)
  then show ?thesis
    by (simp add: wp_def probe_skips [OF assms(3,5,6) turn])
qed

text \<open>The reference system with calls that succeed and pipes that only deliver zero bytes.\<close>

definition quiet_env :: "ref_world env" where
  "quiet_env = ref_env\<lparr>sys_close := (\<lambda>fd w. (0, w)), sys_write := (\<lambda>fd b w. (int (length b), w)),
     sys_thread := (\<lambda>w. (7, w)), sys_now := (\<lambda>w. (1000000, w)),
     sys_read := (\<lambda>fd n w. (Some (int n, replicate n (CHR 0x00)), w))\<rparr>"

lemma sample_table:
  "probing (sample_list StateAlive) (sample_list StateAlive)" "drop (probeIndex (sample_list StateAlive)) (nodes (sample_list StateAlive)) = [1] @ 2 # []"
  "\<not> eligible (sample_list StateAlive) (Suc 0)" "heap (sample_list StateAlive) 2 = sample_node ''b'' StateAlive"
  "nodeMap (sample_list StateAlive) ''b'' = Some 2" "localName (sample_list StateAlive) = ''a''" "nodeTimers (sample_list StateAlive) = []"
  "NName (N (sample_node n st)) = n" "State (sample_node n st) = st" "Incarnation (sample_node n st) = 1"
  by (simp_all add: probing_def eligible_def sample_defs)

text \<open>On it nothing is ever heard, so the sample node is suspected.\<close>

lemma quiet_nothing_heard: "\<not> heard quiet_env tcp l r"
proof -
  have answer: "x = Some (int n, replicate n (CHR 0x00))" if "reads_made quiet_env l = earlier @ [(fd, n, x)]" for earlier fd n x
  proof -
    have "(fd, n, x) \<in> set (reads_made quiet_env l)"
      unfolding that by simp
    then show ?thesis
      by (auto dest!: reads_made_answered simp: quiet_env_def)
  qed
  have no: "\<not> read_ends b (Some (int n, replicate n (CHR 0x00))) r" if "0 < n" for b n
    using that by (simp add: ackMessage_complete_def)
  show ?thesis
    unfolding heard_def using no [of 16] no [of 1] by (auto dest!: answer simp del: read_ends.simps)
qed

theorem silent_node_suspected_witness:
  "wp (probe (recording quiet_env)) (\<lambda>r s.
     (\<exists>fallback. silence quiet_env True fallback (log_of s)) \<and> r = Inr () \<and> suspected (sample_list StateAlive) 2 (fst s))
     (sample_list StateAlive, (world0, []))"
proof -
  have "probe_calls_succeed quiet_env (sample_list StateAlive)"
    by (simp add: probe_calls_succeed_def quiet_env_def ref_env_def ref_pipe_def ref_sendto_def sample_defs
        Let_def c_str_def ref_inet_pton_localhost)
  moreover have "timeouts quiet_env (sample_list StateAlive) 3000000 18000000"
    using sample_timeouts by (simp add: timeouts_def quiet_env_def suspicionTimeout_def)
  moreover have "AllowTcpPing (config (sample_list StateAlive))"
    by (simp add: sample_defs)
  ultimately show ?thesis
    using silent_node_suspected [of quiet_env "sample_list StateAlive" "[1]" 2 "[]" "''b''" 3000000 18000000 world0]
    by (simp add: sample_local sample_room sample_silent sample_table quiet_nothing_heard)
qed

section \<open>A node whose address cannot be read\<close>

text \<open>
  C27. A node entered with an address that is not a dotted quad stops the whole program: when
  its turn comes, the round of the failure detector ends in \<^verbatim>\<open>exit(-1)\<close>. No handler of an alive
  message checks the address.
\<close>

theorem bad_address_exits:
  assumes "probing m m" and "\<not> nodeMutex m"
    and "drop (probeIndex m) (nodes m) = skipped @ p # rest" and "list_all (\<lambda>q. \<not> eligible m q) skipped" and "eligible m p"
    and "inet_pton4 e (c_str (NAddr (N (heap m p)))) = None"
    and "\<And>fl w. 0 \<le> fst (fst (sys_pipe e fl w))" and "\<And>w. fst (sys_thread e w) \<noteq> self m"
  shows "wp (probe e) (\<lambda>r s. r = Inl (Exited (-1))) (m, w)"
proof -
  have pipe: "sys_pipe e fl w = ((k, fds), w') \<Longrightarrow> \<not> k < 0" for fl w k fds w'
    using assms(7) [of fl w] by simp
  have "wp (probeNode e (heap m p)) (\<lambda>r s. r = Inl (Exited (-1))) (m\<lparr>probeIndex := i\<rparr>, w)" for i
    using assms(1,2,6,8)
    by (auto simp: probeNode_def nextSeqNum_def Let_def FullAddr_def Pipe_def Pipe2_def wp_simps dest!: pipe
        intro!: wp_setProbePipes [where m = "m\<lparr>probeIndex := i\<rparr>"])
  then show ?thesis
    unfolding wp_def probe_skips [OF assms(2-5)] .
qed

theorem bad_address_exits_witness:
  "wp (probe quiet_env) (\<lambda>r s. r = Inl (Exited (-1)))
     ((sample_list StateAlive)\<lparr>heap := (heap (sample_list StateAlive))
        (2 := \<lparr>N = \<lparr>NName = ''b'', NAddr = ''here'', NPort = 1\<rparr>, Incarnation = 1, State = StateAlive, StateChange = 0\<rparr>)\<rparr>, world0)"
  by (rule bad_address_exits [of _ "[Suc 0]" 2 "[]"])
    (simp_all add: quiet_env_def ref_env_def ref_pipe_def sample_local probing_def eligible_def DeadOrLeft_def,
      simp_all add: sample_defs c_str_def ref_inet_pton_def quad_octet_def)

end
