(* ===== verification/Answering.thy ===== *)
theory Answering
  imports Probing
begin

text \<open>
  How probes are answered: a ping that arrives is acknowledged to its sender, the
  acknowledgement reaches the probe that waits for it, and a node that is asked to ping
  another one relays the acknowledgement it obtains.
\<close>

section \<open>A datagram arrives\<close>

text \<open>
  The UDP listener finds a datagram: its \<^verbatim>\<open>select\<close> reports the UDP socket, not the shutdown
  pipe, and \<^verbatim>\<open>recvfrom\<close> delivers the bytes with the address they came from.
\<close>

definition datagram ::
  "('w, 'e) env_scheme \<Rightarrow> memberlist \<Rightarrow> bytes \<Rightarrow> sockaddr_in \<Rightarrow> 'w \<Rightarrow> 'w \<Rightarrow> bool" where
  "datagram e m bs from w w' \<longleftrightarrow>
     (\<exists>k r w1. sys_select e (max (fst (shutdownFd m)) (udpFd m) + 1)
          \<lparr>readfds = [fst (shutdownFd m), udpFd m], writefds = []\<rparr> None w = (Some (k, r), w1) \<and> 0 \<le> k \<and>
        fst (shutdownFd m) \<notin> set (readfds r) \<and> udpFd m \<in> set (readfds r) \<and>
        sys_recvfrom e (udpFd m) 1024 w1 = (Some (int (length bs), bs, from), w'))"

lemma packetListen_datagram:
  assumes "pb_codec e" and "MessageData_ok e md" and "nul_free (beforeSend e md)" and "length (beforeSend e md) < 1024"
    and "datagram e m (beforeSend e md) from w w'" and "sys_now e w' = (ts, w'')"
    and "handleCommand e md from ts (m, w'') = (Inr (), s)"
  shows "packetListen_round e (m, w) = (Inr True, s)"
  using assms(5-7) parse_sent [OF assms(1-4), of w']
  by (auto simp: datagram_def packetListen_round_def listen_round_def Select_def checked_def call_blocking_def
      decodeReceiveUDP_def Recvfrom_def now_us_def exec_defs)

section \<open>Acknowledgements\<close>

text \<open>An acknowledgement is well-formed and short, whatever number it carries.\<close>

lemma length_varint_bound: "n < 128 ^ k \<Longrightarrow> 0 < k \<Longrightarrow> length (varint n) \<le> k"
proof (induction n arbitrary: k rule: varint.induct)
  case (1 n)
  show ?case
  proof (cases "n < 128")
    case False
    then obtain j where k: "k = Suc j" "0 < j"
      using "1.prems" by (cases k; cases "k - 1") auto
    then have "n div 128 < 128 ^ j"
      using "1.prems"(1) by (simp add: less_mult_imp_div_less mult.commute)
    then show ?thesis
      using "1.IH" [of j] False k by (subst varint.simps) simp
  qed (use "1.prems"(2) in \<open>simp add: Suc_leI\<close>)
qed

context pb_codec
begin

lemma ack_packet:
  "MessageData_ok rt (genAckResp n)" "length (MessageData_InternalSerialize rt (genAckResp n)) < 1024"
proof -
  have "unat n < 2 ^ LENGTH(32)"
    by (rule unsigned_less)
  then have "unat n < 128 ^ 5"
    by simp
  then have "length (varint (unat n)) \<le> 5"
    by (rule length_varint_bound) simp
  then have size: "AckResp_ByteSizeLong rt (AckResp0\<lparr>ack_seqno := n\<rparr>) \<le> 6"
    by (simp add: AckResp_ByteSizeLong_def AckResp0_def size_field_uint32_def size_uint32)
  then show "MessageData_ok rt (genAckResp n)"
    by (simp add: MessageData_ok_def Body_ok_def genAckResp_def MessageData0_def enum_ok_def length_ok_def AckResp0_def)
  show "length (MessageData_InternalSerialize rt (genAckResp n)) < 1024"
    using size by (simp add: MessageData_ByteSizeLong_def genAckResp_def MessageData0_def MessageSize_def size_delimited
        size_field_enum_def size_enum enum64_def)
qed

end

lemma gen_probe_content [simp]:
  "md_head (genAckResp n) = ackRespMsg" "ack_seqno (md_ackresp (genAckResp n)) = n"
  "md_head (genPing n node addr port src) = pingMsg" "ping_seqno (md_ping (genPing n node addr port src)) = n"
  by (simp_all add: genAckResp_def genPing_def MessageData0_def AckResp0_def Ping0_def oneof_defs)

text \<open>Sending a datagram, when the system takes it.\<close>

lemma encodeSendUDP_run:
  "0 \<le> fst (sys_sendto e fd (beforeSend e md) a w) \<Longrightarrow>
   encodeSendUDP e fd a md w = (Inr (), snd (sys_sendto e fd (beforeSend e md) a w))"
  by (cases "sys_sendto e fd (beforeSend e md) a w") (simp add: encodeSendUDP_def Sendto_def checked_def exec_defs)

lemma handlePing_run:
  assumes "0 \<le> fst (sys_sendto e (udpFd m) (beforeSend e (genAckResp (ping_seqno p))) a w)"
  shows "handlePing_udp e p a (m, w) = (Inr (), (m, snd (sys_sendto e (udpFd m) (beforeSend e (genAckResp (ping_seqno p))) a w)))"
  using encodeSendUDP_run [OF assms] by (simp add: handlePing_udp_def exec_defs)

text \<open>An acknowledgement takes its handler out of the map and runs what the handler captured.\<close>

lemma handleAck_run:
  assumes "map_of (ackHandlers m) (ack_seqno ack) = Some ah" and "can_join (self m) (nodeMutex m) (t_thread (ah_t ah))"
    and "run_ackFn e (ah_ackFn ah) ts (m\<lparr>ackHandlers := AList.delete (ack_seqno ack) (ackHandlers m)\<rparr>, w) = (Inr (), s)"
  shows "handleAck e ack ts (m, w) = (Inr (), s)"
  using assms by (auto simp: handleAck_def finallyE_def ackHandler_destroy_def onceTimer_destroy_def onceTimer_Stop_def
      join_in_destructor_def can_join_def on_object_def exec_defs split: prod.splits sum.splits)

lemma run_AckToPipe:
  "sys_garbage e v = (pad, w) \<Longrightarrow> 0 \<le> fst (sys_write e fd (ackMessage_bytes pad \<lparr>Complete = True, Timestamp = ts\<rparr>) w) \<Longrightarrow>
   run_ackFn e (AckToPipe fd) ts (m, v) =
     (Inr (), (m, snd (sys_write e fd (ackMessage_bytes pad \<lparr>Complete = True, Timestamp = ts\<rparr>) w)))"
  by (cases "sys_write e fd (ackMessage_bytes pad \<lparr>Complete = True, Timestamp = ts\<rparr>) w")
    (simp add: run_ackFn_def Write_ack_def Write_def checked_def exec_defs)

text \<open>
  C8. A ping is acknowledged and the acknowledgement reaches its probe, across two nodes and the
  wire between them. When the packet of a ping with a number other than zero arrives at a node,
  its listener sends the acknowledgement with that number to where the ping came from, whatever
  node the ping names. When that packet arrives in turn, the listener takes the probe's handler
  out of the map and writes a positive acknowledgement with the time of receipt to its pipe,
  the padding of the object being what the memory held; nothing else changes on either node.
\<close>

theorem ping_acknowledged:
  assumes "pb_codec e" and "seqno \<noteq> 0" and "ping = genPing seqno node addr port src" and "MessageData_ok e ping"
    and "nul_free node" and "nul_free addr" and "nul_free src" and "length (beforeSend e ping) < 1024"
    and "datagram e mB (beforeSend e ping) a w w'" and "sys_now e w' = (tB, wB)"
    and "0 \<le> fst (sys_sendto e (udpFd mB) (beforeSend e (genAckResp seqno)) a wB)"
    and "datagram e mA (beforeSend e (genAckResp seqno)) b v v'" and "sys_now e v' = (tA, vA)"
    and "map_of (ackHandlers mA) seqno = Some ah" and "ah_ackFn ah = AckToPipe fd"
    and "can_join (self mA) (nodeMutex mA) (t_thread (ah_t ah))"
    and "sys_garbage e vA = (pad, uA)" and "0 \<le> fst (sys_write e fd (ackMessage_bytes pad \<lparr>Complete = True, Timestamp = tA\<rparr>) uA)"
  shows "packetListen_round e (mB, w) = (Inr True,
       (mB, snd (sys_sendto e (udpFd mB) (beforeSend e (genAckResp seqno)) a wB))) \<and>
     packetListen_round e (mA, v) = (Inr True,
       (mA\<lparr>ackHandlers := AList.delete seqno (ackHandlers mA)\<rparr>,
        snd (sys_write e fd (ackMessage_bytes pad \<lparr>Complete = True, Timestamp = tA\<rparr>) uA)))"
proof
  have enc: "pb_encoding e"
    using assms(1) by (simp add: pb_codec_def)
  show "packetListen_round e (mB, w) = (Inr True,
       (mB, snd (sys_sendto e (udpFd mB) (beforeSend e (genAckResp seqno)) a wB)))"
  proof (rule packetListen_datagram [OF assms(1,4) _ assms(8-10)])
    show "nul_free (beforeSend e ping)"
      using pb_encoding.nul_free_probe(1) [OF enc assms(2,5-7)] by (simp add: beforeSend_def assms(3))
    show "handleCommand e ping a tB (mB, wB) =
        (Inr (), (mB, snd (sys_sendto e (udpFd mB) (beforeSend e (genAckResp seqno)) a wB)))"
      using handlePing_run [of e mB "md_ping ping" a wB] assms(11) by (simp add: handleCommand_def assms(3))
  qed
  show "packetListen_round e (mA, v) = (Inr True,
       (mA\<lparr>ackHandlers := AList.delete seqno (ackHandlers mA)\<rparr>,
        snd (sys_write e fd (ackMessage_bytes pad \<lparr>Complete = True, Timestamp = tA\<rparr>) uA)))"
  proof (rule packetListen_datagram [OF assms(1) _ _ _ assms(12,13)])
    show "nul_free (beforeSend e (genAckResp seqno))"
      using pb_encoding.nul_free_probe(2) [OF enc assms(2)] by (simp add: beforeSend_def)
    show "handleCommand e (genAckResp seqno) b tA (mA, vA) = (Inr (), (mA\<lparr>ackHandlers := AList.delete seqno (ackHandlers mA)\<rparr>,
        snd (sys_write e fd (ackMessage_bytes pad \<lparr>Complete = True, Timestamp = tA\<rparr>) uA)))"
      using assms(14-16) run_AckToPipe [OF assms(17,18)] by (simp add: handleCommand_def handleAck_run)
  qed (simp_all add: beforeSend_def pb_codec.ack_packet [OF assms(1)])
qed

section \<open>Relaying an acknowledgement\<close>

text \<open>
  C26. A node that is asked for an indirect ping relays the answer: it registers a handler under
  a fresh number of its own, and once the acknowledgement with that number arrives, it
  cancels the pending negative answer by closing the pipe and sends an acknowledgement with the
  number of the request to the node that asked.
\<close>

theorem indirect_ping_relayed:
  fixes e :: "('w, 'e) env_scheme"
  assumes "probing m m" and "\<not> nodeMutex m" and "\<And>w. 0 \<le> fst (fst (sys_pipe e 0 w))"
    and "\<And>fd b a w. 0 \<le> fst (sys_sendto e fd b a w)" and "\<And>fd w. 0 \<le> fst (sys_close e fd w)"
  shows "wp (handleIndirectPing e ip asker) (\<lambda>r s. r = Inr () \<and> sequenceNum (fst s) = sequenceNum m + 1 \<and>
     (\<exists>cancel. \<forall>ts peer v. handleCommand e (genAckResp (sequenceNum m + 1)) peer ts (fst s, v) =
        (Inr (), ((fst s)\<lparr>ackHandlers := AList.delete (sequenceNum m + 1) (ackHandlers (fst s))\<rparr>,
           snd (sys_sendto e (udpFd m) (beforeSend e (genAckResp (iping_seqno ip))) asker (snd (sys_close e cancel v))))))) (m, w)"
proof -
  have pipe: "sys_pipe e 0 w = ((k, fds), w') \<Longrightarrow> \<not> k < 0" for w k fds w'
    using assms(3) [of w] by simp
  have send: "wp (encodeSendUDP e fd a md) R w" if "\<And>w'. R (Inr ()) w'" for fd a md R w
    using that encodeSendUDP_run [OF assms(4)] by (simp add: wp_def)
  have close: "sys_close e fd w = (k, w') \<Longrightarrow> \<not> k < 0" for fd w k w'
    using assms(5) [of fd w] by simp
  have relay: "run_ackFn e (RelayAck cancel a n) ts (c, v) =
      (Inr (), (c, snd (sys_sendto e (udpFd c) (beforeSend e (genAckResp n)) a (snd (sys_close e cancel v)))))" for cancel a n ts c v
    using encodeSendUDP_run [OF assms(4)] close
    by (auto simp: run_ackFn_def Close_def checked_def exec_defs split: prod.split)
  have start: "probing m (m\<lparr>sequenceNum := sequenceNum m + 1\<rparr>)"
    using assms(1) by simp
  let ?n = "sequenceNum m + 1"
  have "wp (handleIndirectPing e ip asker) (\<lambda>r s. r = Inr () \<and> sequenceNum (fst s) = ?n \<and> udpFd (fst s) = udpFd m \<and>
     (\<exists>cancel ah. map_of (ackHandlers (fst s)) ?n = Some ah \<and> ah_ackFn ah = RelayAck cancel asker (iping_seqno ip) \<and>
        t_thread (ah_t ah) = None)) (m, w)"
    unfolding handleIndirectPing_def nextSeqNum_def setAckHandler_def put_handler_def Let_def Pipe_def
    by (auto simp: wp_simps new_ackHandler_def copy_timer_def new_timer_def update_conv' dest!: pipe
        intro!: wp_release_exact [OF start assms(2)] send)
  then show ?thesis
  proof (rule wp_mono, elim conjE exE, intro conjI exI allI)
    fix r cancel ah ts peer and s :: "memberlist \<times> 'w" and v :: 'w
    assume s: "map_of (ackHandlers (fst s)) ?n = Some ah" "ah_ackFn ah = RelayAck cancel asker (iping_seqno ip)"
      "t_thread (ah_t ah) = None" "udpFd (fst s) = udpFd m"
    show "handleCommand e (genAckResp ?n) peer ts (fst s, v) = (Inr (), ((fst s)\<lparr>ackHandlers := AList.delete ?n (ackHandlers (fst s))\<rparr>,
        snd (sys_sendto e (udpFd m) (beforeSend e (genAckResp (iping_seqno ip))) asker (snd (sys_close e cancel v)))))"
      using s by (simp add: handleCommand_def handleAck_run relay can_join_def join_thread_def)
  qed
qed

theorem indirect_ping_relayed_witness:
  "wp (handleIndirectPing quiet_env (IndirectPing0\<lparr>iping_seqno := 9, iping_targetaddr := ''127.0.0.1''\<rparr>) addr0)
     (\<lambda>r s. r = Inr () \<and> sequenceNum (fst s) = sequenceNum (sample_list StateAlive) + 1 \<and>
     (\<exists>cancel. \<forall>ts peer v. handleCommand quiet_env (genAckResp (sequenceNum (sample_list StateAlive) + 1)) peer ts (fst s, v) =
        (Inr (), ((fst s)\<lparr>ackHandlers := AList.delete (sequenceNum (sample_list StateAlive) + 1) (ackHandlers (fst s))\<rparr>,
           snd (sys_sendto quiet_env (udpFd (sample_list StateAlive)) (beforeSend quiet_env
             (genAckResp (iping_seqno (IndirectPing0\<lparr>iping_seqno := 9, iping_targetaddr := ''127.0.0.1''\<rparr>))))
             addr0 (snd (sys_close quiet_env cancel v))))))) (sample_list StateAlive, world0)"
  by (rule indirect_ping_relayed [OF sample_table(1) sample_local(3)])
    (simp_all add: quiet_env_def ref_env_def ref_pipe_def ref_sendto_def)

text \<open>
  Two sample nodes: the one that is pinged, and the one whose probe number 300 waits on the
  pipe that ends in descriptor 11; in both worlds a datagram waits on the socket.
\<close>

definition waiting_list :: memberlist where
  "waiting_list = (sample_list StateAlive)\<lparr>udpFd := 4, shutdownFd := (6, 7),
     ackHandlers := [(300, new_ackHandler (AckToPipe 11) None (new_timer 1 None False))]\<rparr>"

lemma waiting_datagram:
  assumes "length bs \<le> 1024"
  shows "datagram ref_env waiting_list bs addr0 (waiting 4 bs) world0"
proof -
  have "sys_select ref_env 7 \<lparr>readfds = [6, 4], writefds = []\<rparr> None (waiting 4 bs) =
      (Some (1, \<lparr>readfds = [4], writefds = []\<rparr>), waiting 4 bs)"
    by (simp add: ref_env_def waiting_def)
  moreover have "sys_recvfrom ref_env 4 1024 (waiting 4 bs) = (Some (int (length bs), bs, addr0), world0)"
    using assms by (simp add: read_waiting)
  ultimately show ?thesis
    by (simp add: datagram_def waiting_list_def)
qed

theorem ping_acknowledged_witness:
  "packetListen_round ref_env (waiting_list, waiting 4 (beforeSend ref_env sample_packet)) = (Inr True,
     (waiting_list, snd (sys_sendto ref_env (udpFd waiting_list) (beforeSend ref_env (genAckResp 300)) addr0 world0))) \<and>
   packetListen_round ref_env (waiting_list, waiting 4 (beforeSend ref_env (genAckResp 300))) = (Inr True,
     (waiting_list\<lparr>ackHandlers := AList.delete 300 (ackHandlers waiting_list)\<rparr>,
      snd (sys_write ref_env 11 (ackMessage_bytes 0 \<lparr>Complete = True, Timestamp = 1000000\<rparr>) world0)))"
proof (rule ping_acknowledged [OF ref.pb_codec_axioms _ sample_packet_def sample_packet_ok(1)])
  show "datagram ref_env waiting_list (beforeSend ref_env sample_packet) addr0 (waiting 4 (beforeSend ref_env sample_packet)) world0"
    by (rule waiting_datagram) (simp add: sample_packet_ok(2))
  show "datagram ref_env waiting_list (beforeSend ref_env (genAckResp 300)) addr0 (waiting 4 (beforeSend ref_env (genAckResp 300))) world0"
    using ref.ack_packet(2) [of 300] by (intro waiting_datagram) (simp add: beforeSend_def)
  show "map_of (ackHandlers waiting_list) 300 = Some (new_ackHandler (AckToPipe 11) None (new_timer 1 None False))"
    by (simp add: waiting_list_def)
  show "length (beforeSend ref_env sample_packet) < 1024"
    by (simp add: sample_packet_ok(2))
  show "sys_garbage ref_env world0 = (0, world0)"
    by (simp add: ref_env_def world0_def)
qed (simp_all add: nul_free_def new_ackHandler_def copy_timer_def new_timer_def can_join_def join_thread_def
    ref_env_def ref_sendto_def ref_write_def world0_def)

end
