(* ===== verification/Reception.thy ===== *)
theory Reception
  imports Answering
begin

text \<open>
  What becomes of a gossip packet: the UDP listener hands its broadcasts over, and the packet
  handler then serves each of them.
\<close>

lemma genComMsg_content [simp]: "md_head (genComMsg cbc) = compoundBroad" "md_combroadcast (genComMsg cbc) = cbc"
  by (simp_all add: genComMsg_def MessageData0_def oneof_defs)

lemma forE_map: "forE (map f xs) g = forE xs (\<lambda>x. g (f x))"
  by (induction xs) simp_all

text \<open>
  What the packet handler finds after a packet: of each kind, what still fitted on its stack,
  latest first, above what was there already.
\<close>

definition service_order :: "memberlist \<Rightarrow> Broadcast list \<Rightarrow> Broadcast list" where
  "service_order m bs = (let depth = unat (HandoffQueueDepth (config m)) in
     rev (take (depth - length (highPriorityMsgQueue m)) (filter (\<lambda>b. bc_type b = aliveMsg) bs)) @ map mh_b (highPriorityMsgQueue m) @
     rev (take (depth - length (lowPriorityMsgQueue m)) (filter (\<lambda>b. bc_type b \<noteq> aliveMsg) bs)) @ map mh_b (lowPriorityMsgQueue m))"

lemma handed_over_packet: "map mh_b (handed_over (handed a bs m)) = service_order m bs"
  by (simp add: handed_over_def handed_def pushed_def service_order_def Let_def rev_map o_def)

lemma service_order_complete:
  assumes "handed_over m = []" and "length bs \<le> unat (HandoffQueueDepth (config m))"
  shows "service_order m bs = rev (filter (\<lambda>b. bc_type b = aliveMsg) bs) @ rev (filter (\<lambda>b. bc_type b \<noteq> aliveMsg) bs)"
proof -
  have "length (filter P bs) \<le> unat (HandoffQueueDepth (config m))" for P
    using assms(2) length_filter_le le_trans by blast
  then show ?thesis
    using assms(1) by (simp add: service_order_def handed_over_def)
qed

text \<open>
  C9. Gossip is applied, up to the limits of the receiver. Let a packet of broadcasts, as gossip
  sends it, arrive that fits into the receive buffer, with fewer than 1024 bytes and no zero byte
  among them, and let the hand-over pipe take a byte for each broadcast. The UDP listener hands
  the broadcasts over in order, alive messages to one stack and all others to another, until a
  stack has reached \<^verbatim>\<open>HandoffQueueDepth\<close>; what does not fit is dropped. The packet handler then
  serves exactly what is on the stacks, the alive messages first and each kind latest first. So
  when the stacks were empty and are at least as deep as the packet is long, every broadcast of the
  packet is served and nothing else. What serving does is up to \<^verbatim>\<open>aliveNode\<close>, \<^verbatim>\<open>deadNode\<close> and \<^verbatim>\<open>suspectNode\<close>.
\<close>

theorem gossip_applied:
  fixes e :: "('w, 'e) env_scheme"
  assumes "pb_codec e" and "MessageData_ok e (genComMsg cbc)" and "nul_free (beforeSend e (genComMsg cbc))"
    and "length (beforeSend e (genComMsg cbc)) < 1024" and "datagram e m (beforeSend e (genComMsg cbc)) from w w'"
    and "\<And>v. 0 \<le> fst (sys_write e (snd (handoffFd m)) [CHR 0x00] v)"
  shows "wp (packetListen_round e) (\<lambda>r s. r = Inr True \<and>
     (\<forall>v. drain e (fst s, v) = forE (service_order m (cbc_bs cbc))
        (\<lambda>b. thenE (upd pop_message) (dispatch_broadcast e b)) (fst s, v)) \<and>
     (handed_over m = [] \<longrightarrow> length (cbc_bs cbc) \<le> unat (HandoffQueueDepth (config m)) \<longrightarrow>
        mset (service_order m (cbc_bs cbc)) = mset (cbc_bs cbc))) (m, w)"
proof -
  let ?m = "handed from (cbc_bs cbc) m"
  obtain ts w2 where now: "sys_now e w' = (ts, w2)"
    by (cases "sys_now e w'")
  obtain w3 where "handleComBroadcast e cbc from (m, w2) = (Inr (), (?m, w3))"
  proof -
    obtain r c v where run: "handleComBroadcast e cbc from (m, w2) = (r, (c, v))"
      by (metis prod.exhaust)
    with handleComBroadcast_hands_over [of e cbc "from" m w2] have "r = Inr () \<and> c = ?m"
      using assms(6) by (auto simp: wp_def not_le [symmetric])
    with run that show thesis by simp
  qed
  then have "packetListen_round e (m, w) = (Inr True, (?m, w3))"
    by (intro packetListen_datagram [OF assms(1-5) now]) (simp add: handleCommand_def)
  moreover have "drain e (?m, v) = forE (map mh_b (handed_over ?m))
      (\<lambda>b. thenE (upd pop_message) (dispatch_broadcast e b)) (?m, v)" for v :: 'w
    by (simp add: drain_run forE_map serve_def [abs_def])
  moreover have "mset (service_order m (cbc_bs cbc)) = mset (cbc_bs cbc)"
    if "handed_over m = []" "length (cbc_bs cbc) \<le> unat (HandoffQueueDepth (config m))"
    using service_order_complete [OF that] by simp
  ultimately show ?thesis
    by (simp add: wp_def handed_over_packet)
qed

text \<open>A packet with the news of two nodes.\<close>

definition sample_news :: ComBroadcast where
  "sample_news = ComBroadcast0\<lparr>cbc_bs := [genSuspectBroadcast 3 ''b'' ''c'', genAliveBroadcast 3 ''c'' ''127.0.0.1'' 6666]\<rparr>"

context pb_encoding
begin

lemma sample_news_ok:
  assumes utf8: "VerifyUTF8 rt = VerifyUTF8 ref_env"
  shows "MessageData_ok rt (genComMsg sample_news)" "length (MessageData_InternalSerialize rt (genComMsg sample_news)) < 1024"
  "nul_free (MessageData_InternalSerialize rt (genComMsg sample_news))"
proof -
  have vi: "length (varint 6666) = 2"
    by (subst varint.simps, simp)
  then have size: "Broadcast_ByteSizeLong rt (genSuspectBroadcast 3 ''b'' ''c'') = 12"
      "Broadcast_ByteSizeLong rt (genAliveBroadcast 3 ''c'' ''127.0.0.1'' 6666) = 21"
    by (simp_all add: gen_broadcast_defs getSuspect_def getAlive_def Broadcast_ByteSizeLong_def field_defs
        Alive_ByteSizeLong_def Suspect_ByteSizeLong_def size_uint32 size_string size_enum size_delimited
        MessageSize_def enum64_def Suspect0_def Alive0_def Broadcast0_def)
  note ser = Broadcast_InternalSerialize_def Suspect_InternalSerialize_def Alive_InternalSerialize_def gen_broadcast_defs
    getSuspect_def getAlive_def Suspect0_def Alive0_def Broadcast0_def
  have texts: "text_ok rt ''b''" "text_ok rt ''c''" "text_ok rt ''127.0.0.1''"
    by (simp_all add: text_ok_def length_ok_def) (simp_all add: utf8 ref_env_def std_runtime_def)
  have ok: "Broadcast_ok rt (genSuspectBroadcast 3 ''b'' ''c'')"
      "Broadcast_ok rt (genAliveBroadcast 3 ''c'' ''127.0.0.1'' 6666)"
    using vi size
    by (simp_all add: Broadcast_ok_def length_ok_def enum_ok_def)
      (simp_all add: gen_broadcast_defs getSuspect_def getAlive_def Broadcast0_def Suspect0_def Alive0_def Suspect_ok_def
        Alive_ok_def texts length_ok_def field_defs Alive_ByteSizeLong_def Suspect_ByteSizeLong_def size_uint32 size_string)
  note defs = sample_news_def genComMsg_def ComBroadcast0_def MessageData0_def
  show "length (MessageData_InternalSerialize rt (genComMsg sample_news)) < 1024"
    by (simp add: defs MessageData_ByteSizeLong_def ComBroadcast_ByteSizeLong_def size MessageSize_def
        size_delimited field_defs enum64_def size_enum)
  show "MessageData_ok rt (genComMsg sample_news)"
    by (simp add: MessageData_ok_def defs Body_ok_def ComBroadcast_ok_def enum_ok_def length_ok_def size
        ComBroadcast_ByteSizeLong_def MessageSize_def size_delimited ok)
  have "ser_string rt f (c # cs) \<noteq> []" if "f < 15" for f c cs
    using length_ser_fields(2) [OF that, of "c # cs"] by (force simp: field_defs)
  then have "nul_free (Broadcast_InternalSerialize rt (genSuspectBroadcast 3 ''b'' ''c''))"
      "nul_free (Broadcast_InternalSerialize rt (genAliveBroadcast 3 ''c'' ''127.0.0.1'' 6666))"
    by (simp_all add: ser enum_ok_def) (simp_all add: nul_free_def)
  moreover have "Broadcast_InternalSerialize rt b \<noteq> []" if "0 < Broadcast_ByteSizeLong rt b" for b
    using that length_Broadcast [of b] by force
  moreover have "InternalWriteMessage rt f bs \<noteq> []" if "f < 15" for f bs
    using length_write_message [OF that, of bs] by (force simp: MessageSize_def)
  ultimately show "nul_free (MessageData_InternalSerialize rt (genComMsg sample_news))"
    by (simp add: defs MessageData_InternalSerialize_def ComBroadcast_InternalSerialize_def enum_ok_def size)
qed

end

lemma quiet_codec: "pb_codec quiet_env"
  using ref.pb_codec_axioms unfolding pb_codec_def pb_encoding_def pb_codec_axioms_def quiet_env_def by simp

definition receiving_list :: memberlist where
  "receiving_list = waiting_list\<lparr>handoffFd := (8, 9)\<rparr>"

theorem gossip_applied_witness:
  "wp (packetListen_round quiet_env) (\<lambda>r s. r = Inr True \<and>
     (\<forall>v. drain quiet_env (fst s, v) = forE [genAliveBroadcast 3 ''c'' ''127.0.0.1'' 6666, genSuspectBroadcast 3 ''b'' ''c'']
        (\<lambda>b. thenE (upd pop_message) (dispatch_broadcast quiet_env b)) (fst s, v)))
     (receiving_list, waiting 4 (beforeSend quiet_env (genComMsg sample_news)))"
proof -
  let ?bs = "beforeSend quiet_env (genComMsg sample_news)"
  have "pb_encoding quiet_env" "VerifyUTF8 quiet_env = VerifyUTF8 ref_env"
    using quiet_codec by (simp add: pb_codec_def) (simp add: quiet_env_def)
  note ok = pb_encoding.sample_news_ok [OF this]
  then have sent: "MessageData_ok quiet_env (genComMsg sample_news)" "length ?bs < 1024" "nul_free ?bs"
    by (simp_all add: beforeSend_def)
  have "datagram quiet_env receiving_list bs a w w' = datagram ref_env waiting_list bs a w w'" for bs a w w'
    by (simp add: datagram_def receiving_list_def quiet_env_def)
  then have here: "datagram quiet_env receiving_list ?bs addr0 (waiting 4 ?bs) world0"
    using waiting_datagram sent(2) by simp
  have order: "service_order receiving_list (cbc_bs sample_news) = [genAliveBroadcast 3 ''c'' ''127.0.0.1'' 6666, genSuspectBroadcast 3 ''b'' ''c'']"
    by (simp add: sample_news_def service_order_def gen_broadcast_defs Broadcast0_def receiving_list_def waiting_list_def sample_defs)
  have "0 \<le> fst (sys_write quiet_env (snd (handoffFd receiving_list)) [CHR 0x00] v)" for v
    by (simp add: quiet_env_def)
  from gossip_applied [OF quiet_codec sent(1,3,2) here this] show ?thesis
    by (rule wp_mono) (simp add: order)
qed

end
