(* ===== verification/Exchange.thy ===== *)
theory Exchange
  imports Invariants WireRoundtrip Recording
begin

text \<open>
  The exchange of whole states between two nodes: what one sends is its table, and what the
  other has learnt after merging it. The last theorem joins the table, the wire format and
  the node table of the receiver.
\<close>

section \<open>The state a node sends\<close>

definition wire_state :: "nodeState \<Rightarrow> PushNodeState" where
  "wire_state st = PushNodeState0\<lparr>pns_name := NName (N st), pns_addr := NAddr (N st), pns_port := ucast (NPort (N st)),
     pns_incarnation := Incarnation st, pns_state := state_number (State st)\<rparr>"

lemma wire_state_fields [simp]:
  "pns_name (wire_state st) = NName (N st)" "pns_state (wire_state st) = state_number (State st)"
  by (simp_all add: wire_state_def)

lemma local_state_eq:
  "local_state j m = MessageData0\<lparr>md_head := pushPullMsg, md_body := Some (BodyPushPull (PushPull0\<lparr>pp_join := j,
     pp_states := map (\<lambda>p. wire_state (heap m p)) (nodes m)\<rparr>))\<rparr>"
proof -
  have "foldl (\<lambda>md st. addPushNodeState md (NName (N st)) (NAddr (N st)) (ucast (NPort (N st)))
        (Incarnation st) (state_number (State st))) md sts =
      md\<lparr>md_body := Some (BodyPushPull (p\<lparr>pp_states := pp_states p @ map wire_state sts\<rparr>))\<rparr>"
    if "md_body md = Some (BodyPushPull p)" for md p sts
    using that
    by (induction sts arbitrary: md p) (simp_all add: addPushNodeState_def md_pushpull_def wire_state_def Let_def)
  from this [of "genPushPull j" "PushPull0\<lparr>pp_join := j\<rparr>"] show ?thesis
    by (simp add: local_state_def genPushPull_def PushPull0_def comp_def)
qed

lemma local_state_message:
  "md_head (local_state j m) = pushPullMsg"
  "pp_states (md_pushpull (local_state j m)) = map (\<lambda>p. wire_state (heap m p)) (nodes m)"
  by (simp_all add: local_state_eq md_pushpull_def)

section \<open>What merging teaches\<close>

lemma keeps_conj: "keeps A p \<Longrightarrow> keeps B p \<Longrightarrow> keeps (\<lambda>c. A c \<and> B c) p"
  by (simp add: keeps_def wp_def split_beta)

lemma keeps_knows_apply: "keeps (knows S) (alive_apply e a bs fd p u)"
  unfolding alive_apply_def Let_def by (intro keeps_knows)

lemma wp_aliveNode_learns:
  assumes "ml_inv m" and "\<not> (leave m \<and> n = localName m)"
  shows "wp (aliveNode e (genAliveBroadcast inc n addr port) bs fd) (onReturn (\<lambda>_ s. knows {n} (fst s))) (m, w)"
proof -
  let ?m = "m\<lparr>nodeMutex := True\<rparr>"
  have rest: "wp (alive_apply e a bs fd p u) (\<lambda>r s. knows {n} (fst s)) (m', w')" if "knows {n} m'" for a p u m' w'
    using keepsD [OF keeps_knows_apply, of "{n}" "(m', w')"] that by simp
  have "wp (alive_lookup e (getAlive inc n addr port)) (\<lambda>r s. \<forall>a. r = Inr a \<longrightarrow> knows {n} (fst s)) (?m, w)"
    by (rule wp_alive_lookup) (use assms(1) in \<open>auto simp: knows_def inserted_def getAlive_def\<close>)
  then have "wp (bindE (alive_lookup e (getAlive inc n addr port)) (\<lambda>found.
       case found of None \<Rightarrow> ret () | Some (p, u) \<Rightarrow> alive_apply e (getAlive inc n addr port) bs fd p u))
     (\<lambda>r s. r = Inr () \<longrightarrow> knows {n} (fst s)) (?m, w)"
    unfolding wp_bindE
    by (rule wp_mono) (auto simp: wp_simps intro: wp_mono [OF rest])
  note body = this
  have "alive_node (getAlive inc n addr port) = n"
    by (simp add: getAlive_def)
  then have "wp (bindE (obj id) (\<lambda>m. if leave m \<and> n = localName m then ret ()
       else bindE (alive_lookup e (getAlive inc n addr port)) (\<lambda>found.
         case found of None \<Rightarrow> ret () | Some (p, u) \<Rightarrow> alive_apply e (getAlive inc n addr port) bs fd p u)))
     (\<lambda>r s. r = Inr () \<longrightarrow> knows {n} (fst s)) (?m, w)"
    using body assms(2) by (auto simp add: wp_bindE [of "obj id"] wp_obj)
  then show ?thesis
    unfolding aliveNode_def
    by (auto simp: Let_def wp_node_lock \<open>alive_node _ = n\<close> onReturn_def split: sum.split elim!: wp_mono)
qed

text \<open>The names of the nodes a state reports alive, except our own once we are leaving.\<close>

definition reported :: "memberlist \<Rightarrow> PushNodeState list \<Rightarrow> string set" where
  "reported m sts = {pns_name x |x. x \<in> set sts \<and> pns_state x = PushStateAlive \<and> \<not> (leave m \<and> pns_name x = localName m)}"

lemma merge_learns:
  assumes "ml_inv m"
  shows "wp (forE sts (mergeNodeState e)) (onReturn (\<lambda>_ s. knows (reported m sts) (fst s))) (m, w)"
proof -
  define P where "P S = (\<lambda>m'. (ml_inv m' \<and> settled (\<lambda>x. x = outer m) m') \<and> knows S m')" for S
  have keeps_P: "keeps (P S) (mergeNodeState e x)" for S x
    unfolding P_def by (intro keeps_conj merged_state.keeps_table merged_state.keeps_settled memory.merge)
  have one: "wp (mergeNodeState e x) (onReturn (\<lambda>_ s. P (S \<union> reported m [x]) (fst s))) s" if s: "P S (fst s)" for S x s
  proof -
    have kept: "wp (mergeNodeState e x) (\<lambda>r s. P S (fst s)) s"
      using keepsD [OF keeps_P s] .
    show ?thesis
    proof (cases "reported m [x] = {}")
      case True
      then show ?thesis
        using kept by (auto elim!: wp_mono simp: onReturn_def split: sum.split)
    next
      case False
      then have x: "reported m [x] = {pns_name x}" "pns_state x = PushStateAlive" "\<not> (leave m \<and> pns_name x = localName m)"
        by (auto simp: reported_def)
      obtain m' w' where s': "s = (m', w')"
        by (cases s)
      have "wp (mergeNodeState e x) (onReturn (\<lambda>_ s. knows {pns_name x} (fst s))) s"
        using s x(2,3) wp_aliveNode_learns [of m' "pns_name x"]
        by (simp add: mergeNodeState_def P_def settled_def outer_def s')
      with kept have "wp (mergeNodeState e x) (\<lambda>r s'. P S (fst s') \<and> onReturn (\<lambda>_ s. knows {pns_name x} (fst s)) r s') s"
        by (simp add: wp_def split_beta)
      then show ?thesis
        unfolding x(1) by (rule wp_mono) (auto simp: onReturn_def P_def knows_def split: sum.split)
    qed
  qed
  have "wp (forE sts (mergeNodeState e)) (onReturn (\<lambda>_ s. P (S \<union> reported m sts) (fst s))) s" if "P S (fst s)" for S s
    using that
  proof (induction sts arbitrary: S s)
    case Nil
    then show ?case by (simp add: wp_simps reported_def)
  next
    case (Cons x sts)
    have "S \<union> reported m [x] \<union> reported m sts = S \<union> reported m (x # sts)"
      by (auto simp: reported_def)
    then show ?case
      unfolding forE.simps wp_thenE
      using Cons.IH [of "S \<union> reported m [x]"] by (intro wp_mono [OF one [OF Cons.prems]]) auto
  qed
  from this [of "{}" "(m, w)"] show ?thesis
    using assms by (auto simp: P_def knows_def settled_def onReturn_def elim!: wp_mono split: sum.splits)
qed

section \<open>A whole exchange\<close>

text \<open>The names of a table's live nodes.\<close>

definition live_names :: "memberlist \<Rightarrow> string set" where
  "live_names m = {NName (N (heap m p)) |p. p \<in> set (nodes m) \<and> State (heap m p) = StateAlive}"

lemma reported_local_state:
  "\<not> leave m \<Longrightarrow> reported m (pp_states (md_pushpull (local_state j m'))) = live_names m'"
proof -
  have "state_number s = PushStateAlive \<longleftrightarrow> s = StateAlive" for s
    by (cases s) simp_all
  then show "\<not> leave m \<Longrightarrow> ?thesis"
    by (force simp: reported_def live_names_def local_state_message)
qed

text \<open>
  What an answer of \<open>k\<close> bytes \<open>b\<close> teaches: the nodes in it, as far as the parser got, when it is a
  state at all. \<open>whole_answer\<close>: it is the complete serialisation of the message \<open>md\<close>, short enough for
  the receive buffer and free of zero bytes.
\<close>

definition answer_states :: "('w, 'e) env_scheme \<Rightarrow> int \<Rightarrow> bytes \<Rightarrow> PushNodeState list" where
  "answer_states e k b = (let md = fst (ParseFromString e (c_str (take (nat k) b)))
     in if md_head md = pushPullMsg then pp_states (md_pushpull md) else [])"

definition whole_answer :: "('w, 'e) env_scheme \<Rightarrow> MessageData \<Rightarrow> int \<Rightarrow> bytes \<Rightarrow> bool" where
  "whole_answer e md k b \<longleftrightarrow> b = beforeSend e md \<and> k = int (length b) \<and> MessageData_ok e md \<and> nul_free b \<and> length b < 1024"

lemma whole_answer_states:
  assumes "pb_codec e" and "whole_answer e (local_state j peer) k b"
  shows "answer_states e k b = pp_states (md_pushpull (local_state j peer))"
proof -
  have "fst (ParseFromString e (c_str (take (nat k) b))) = local_state j peer"
    using assms(2) pb_codec.parse_MessageData [OF assms(1), of "local_state j peer"]
    by (auto simp: whole_answer_def c_str_nul_free beforeSend_def ParseFromString_def)
  then show ?thesis
    by (simp add: answer_states_def local_state_message)
qed

lemma steady_exchange [steady_intros]: "steady log_of (sendLocalState (recording e) fd j)"
  "steady snd (set_transfer_timeouts (recording e) fd us)"
  unfolding sendLocalState_def set_transfer_timeouts_def recording_calls by (intro steady_intros)+

text \<open>Sending our own table changes nothing on our side.\<close>

lemma wp_sendLocalState_same:
  assumes "\<And>r w'. Q r (m, (w', l))"
  shows "wp (sendLocalState (recording e) fd j) Q (m, (w, l))"
proof (rule wp_log [where P = "\<lambda>r c. c = m"])
  show "wp (sendLocalState (recording e) fd j) (\<lambda>r s. fst s = m) (m, (w, l))"
    by (cases "nodeMutex m") (simp_all add: sendLocalState_def wp_simps encodeSendTCP_def Write_def)
qed (auto intro: steady_intros assms)

text \<open>
  The exchange makes one socket and reads once from it, at most 1024 bytes; what it does with the
  answer is to merge it.
\<close>

lemma wp_exchange_logged:
  assumes "\<And>x c w' l. Q (Inl x) (c, (w', l))"
    and "\<And>fd k b w' l. sockets_made e l = [fd] \<Longrightarrow> reads_made e l = [(fd, 1024, Some (k, b))] \<Longrightarrow>
      wp (forE (answer_states e k b) (mergeNodeState (recording e))) Q (m, (w', l))"
  shows "wp (pushPullNode (recording e) addr join) Q (m, (w, []))"
proof -
  have answer: "wp (decodeReceiveTCP (recording e) fd) R (w, l)"
    if "\<And>x s. R (Inl x) s" and "\<And>k b w' l'. sockets_made e l' = sockets_made e l \<Longrightarrow>
      reads_made e l' = reads_made e l @ [(fd, 1024, Some (k, b))] \<Longrightarrow>
      R (Inr (fst (ParseFromString e (c_str (take (nat k) b))))) (w', l')" for R fd w l
    unfolding decodeReceiveTCP_def Read_def
    by (auto simp: wp_simps logged_def recording_parse that(1) split: prod.splits intro!: that(2))
  have err: "wp (bindE p f) R s" if "wp p (\<lambda>r s'. \<forall>a. r = Inr a \<longrightarrow> wp (f a) R s') s" "\<And>x s. R (Inl x) s" for p f R s
    unfolding wp_bindE by (rule wp_mono [OF that(1)]) (simp add: that(2))
  have socket: "wp (Socket (recording e) d t q) R (w, l)"
    if "\<And>x s. R (Inl x) s" and "\<And>fd w' l'. sockets_made e l' = sockets_made e l @ [fd] \<Longrightarrow> reads_made e l' = reads_made e l \<Longrightarrow>
      R (Inr fd) (w', l')" for R d t q w l
    unfolding Socket_def by (auto simp: wp_simps logged_def that(1) split: prod.splits intro!: that(2))
  have rest: "wp (if md_head md = pushPullMsg then mergeRemoteState (recording e) (md_pushpull md) else ret ()) Q (m, (w', l))"
    if "sockets_made e l = [fd]" "reads_made e l = [(fd, 1024, Some (k, b))]"
      "md = fst (ParseFromString e (c_str (take (nat k) b)))" for md fd k b w' l
    using assms(2) [OF that(1,2), of w'] by (simp add: answer_states_def that(3) mergeRemoteState_def Let_def split: if_splits)
  have call: "wp (thenE (world p) q) R (m, (w, l))"
    if "steady snd p" "\<And>w'. wp q R (m, (w', l))" "\<And>x s. R (Inl x) s" for p q R w l
    unfolding thenE_def
    by (rule err, unfold wp_world fst_conv snd_conv, rule wp_steady [OF that(1)]) (simp_all add: that(2,3))
  let ?merge = "\<lambda>r s. \<forall>md. r = Inr md \<longrightarrow>
     wp (if md_head md = pushPullMsg then mergeRemoteState (recording e) (md_pushpull md) else ret ()) Q s"
  have "wp (sendAndReceiveState (recording e) addr join) ?merge (m, (w, []))"
    unfolding sendAndReceiveState_def
    by (rule err, unfold wp_obj, intro allI impI,
        rule err, unfold wp_world fst_conv snd_conv, rule socket, simp, intro allI impI, (rule call, intro steady_intros)+,
        unfold thenE_def [of "sendLocalState e fd j" for e fd j], rule err, rule wp_sendLocalState_same, intro allI impI,
        rule err, unfold wp_world fst_conv snd_conv, rule answer, simp, intro allI impI, rule call, intro steady_intros)
      (auto simp: wp_ret MessageData0_def dest: rest)
  then show ?thesis
    unfolding pushPullNode_def by (rule err) (simp add: assms(1) split_paired_all)
qed

text \<open>
  C22. What an exchange of states teaches. Whenever \<^verbatim>\<open>pushPullNode\<close> returns, this run has made one
  socket and read once from it, at most 1024 bytes of an answer; and every node is in the table
  that the answer reports alive, as far as it could be parsed (ourselves excepted when we are leaving). So when that one read
  brought the peer's whole table, which takes fewer than 1024 bytes and none of them zero, every node that is
  alive for the peer is known afterwards, unless we are leaving. Of a larger table, or one that arrives in
  several parts, only what the parser makes of the first read counts, which may be nothing:
  the call returns all the same.
\<close>

theorem pushPullNode_learns:
  assumes "pb_codec e" and "ml_inv m"
  shows "wp (pushPullNode (recording e) addr join) (onReturn (\<lambda>_ s. \<exists>fd k b. sockets_made e (log_of s) = [fd] \<and>
     reads_made e (log_of s) = [(fd, 1024, Some (k, b))] \<and>
     reported m (answer_states e k b) \<subseteq> dom (nodeMap (fst s)) \<and>
     (\<forall>j peer. whole_answer e (local_state j peer) k b \<longrightarrow> \<not> leave m \<longrightarrow> live_names peer \<subseteq> dom (nodeMap (fst s)))))
     (m, (w, []))"
proof (rule wp_exchange_logged)
  fix fd k b w' l
  assume l: "sockets_made e l = [fd]" "reads_made e l = [(fd, 1024, Some (k, b))]"
  have whole: "live_names peer = reported m (answer_states e k b)"
    if "whole_answer e (local_state j peer) k b" "\<not> leave m" for j peer
    using whole_answer_states [OF assms(1) that(1)] reported_local_state [OF that(2), of j peer] by simp
  have "steady log_of (forE (answer_states e k b) (mergeNodeState (recording e)))"
    unfolding mergeNodeState_def by (intro steady_intros)
  then show "wp (forE (answer_states e k b) (mergeNodeState (recording e))) (onReturn (\<lambda>_ s. \<exists>fd k b. sockets_made e (log_of s) = [fd] \<and>
     reads_made e (log_of s) = [(fd, 1024, Some (k, b))] \<and> reported m (answer_states e k b) \<subseteq> dom (nodeMap (fst s)) \<and>
     (\<forall>j peer. whole_answer e (local_state j peer) k b \<longrightarrow> \<not> leave m \<longrightarrow> live_names peer \<subseteq> dom (nodeMap (fst s))))) (m, (w', l))"
  proof (rule wp_log [where P = "\<lambda>r c. \<forall>a. r = Inr a \<longrightarrow> knows (reported m (answer_states e k b)) c"])
    show "wp (forE (answer_states e k b) (mergeNodeState (recording e)))
       (\<lambda>r s. \<forall>a. r = Inr a \<longrightarrow> knows (reported m (answer_states e k b)) (fst s)) (m, (w', l))"
      by (rule wp_mono [OF merge_learns [OF assms(2)]]) (auto simp: onReturn_def)
  qed (use l whole in \<open>auto simp: onReturn_def knows_def split: sum.split\<close>)
qed (simp add: onReturn_def)

text \<open>The reference system with a peer that always answers with the given bytes.\<close>

definition answering_env :: "bytes \<Rightarrow> ref_world env" where
  "answering_env bs = ref_env\<lparr>sys_read := (\<lambda>fd n w. (Some (int (length bs), bs), w))\<rparr>"

lemma answering_codec: "pb_codec (answering_env bs)"
  using ref.pb_codec_axioms unfolding pb_codec_def pb_encoding_def pb_codec_axioms_def answering_env_def by simp

definition sample_entry :: "string \<Rightarrow> PushNodeState" where
  "sample_entry n = \<lparr>unknown_fields = [], pns_name = n, pns_addr = ''127.0.0.1'', pns_port = 6666, pns_incarnation = 1,
     pns_state = 0\<rparr>"

lemma sample_local_state:
  "local_state False (sample_list StateAlive) = MessageData0\<lparr>md_head := pushPullMsg,
     md_body := Some (BodyPushPull (PushPull0\<lparr>pp_states := [sample_entry ''a'', sample_entry ''b'']\<rparr>))\<rparr>"
  by (simp add: local_state_eq sample_defs wire_state_def PushNodeState0_def PushPull0_def sample_entry_def)

lemma sample_entry_bytes:
  fixes rt :: "'r pb_runtime_scheme"
  assumes "pb_encoding rt"
  shows "PushNodeState_ByteSizeLong rt (sample_entry [c]) = 19"
    and "c \<noteq> CHR 0x00 \<Longrightarrow> nul_free (PushNodeState_InternalSerialize rt (sample_entry [c]))"
proof -
  have "length (varint 6666) = 2"
    by (subst varint.simps, simp)
  then show "PushNodeState_ByteSizeLong rt (sample_entry [c]) = 19"
    by (simp add: PushNodeState_ByteSizeLong_def sample_entry_def field_defs pb_encoding.size_uint32 [OF assms]
        pb_encoding.size_string [OF assms])
  show "nul_free (PushNodeState_InternalSerialize rt (sample_entry [c]))" if "c \<noteq> CHR 0x00"
    using that by (simp add: PushNodeState_InternalSerialize_def sample_entry_def enum_ok_def
        pb_encoding.nul_free_fields [OF assms]) (simp add: nul_free_def)
qed

lemma answering_serialize: "MessageData_InternalSerialize (answering_env bs) = MessageData_InternalSerialize ref_env"
proof -
  have leaves: "PushNodeState_InternalSerialize (answering_env bs) = PushNodeState_InternalSerialize ref_env"
    by (simp add: fun_eq_iff PushNodeState_InternalSerialize_def field_defs answering_env_def)
  have "PushPull_InternalSerialize (answering_env bs) = PushPull_InternalSerialize ref_env"
    by (simp add: fun_eq_iff PushPull_InternalSerialize_def leaves) (simp add: field_defs answering_env_def)
  moreover have "Broadcast_InternalSerialize (answering_env bs) = Broadcast_InternalSerialize ref_env"
    by (simp add: fun_eq_iff Broadcast_InternalSerialize_def Alive_InternalSerialize_def Dead_InternalSerialize_def
        Suspect_InternalSerialize_def field_defs answering_env_def split: option.split Content.split)
  ultimately show ?thesis
    by (simp add: fun_eq_iff MessageData_InternalSerialize_def ComBroadcast_InternalSerialize_def split: option.split Body.split)
      (simp add: Ping_InternalSerialize_def IndirectPing_InternalSerialize_def AckResp_InternalSerialize_def
        NackResp_InternalSerialize_def User_InternalSerialize_def ErrResp_InternalSerialize_def field_defs answering_env_def)
qed

lemma sample_state_sent:
  fixes e :: "('w, 'e) env_scheme"
  assumes "pb_encoding e" and "VerifyUTF8 e = VerifyUTF8 ref_env"
  defines "md \<equiv> local_state False (sample_list StateAlive)"
  shows "length (beforeSend e md) = 46" and "nul_free (beforeSend e md)" and "MessageData_ok e md"
proof -
  note laws = pb_encoding.length_PushPull [OF assms(1)] pb_encoding.length_MessageData [OF assms(1)]
    pb_encoding.length_leaf [OF assms(1)] pb_encoding.size_delimited [OF assms(1)] pb_encoding.size_enum [OF assms(1)]
    pb_encoding.nul_free_fields [OF assms(1)] sample_entry_bytes [OF assms(1)]
  have states: "md_body md = Some (BodyPushPull (PushPull0\<lparr>pp_states := [sample_entry ''a'', sample_entry ''b'']\<rparr>))"
    "md_head md = pushPullMsg" "unknown_fields md = []"
    by (simp_all add: md_def sample_local_state MessageData0_def)
  show "length (beforeSend e md) = 46"
    by (simp add: beforeSend_def laws MessageData_ByteSizeLong_def PushPull_ByteSizeLong_def states PushPull0_def MessageSize_def
        field_defs enum64_def)
  have "PushNodeState_InternalSerialize e (sample_entry [c]) \<noteq> []" for c
    using sample_entry_bytes(1) [OF assms(1), of c] pb_encoding.length_leaf(9) [OF assms(1), of "sample_entry [c]"] by force
  moreover have "InternalWriteMessage e 2 bs \<noteq> []" for bs
    using pb_encoding.length_write_message [OF assms(1), of 2 bs] by (force simp: MessageSize_def)
  ultimately show "nul_free (beforeSend e md)"
    by (simp add: beforeSend_def MessageData_InternalSerialize_def PushPull_InternalSerialize_def states PushPull0_def laws
        enum_ok_def)
  show "MessageData_ok e md"
    by (simp add: MessageData_ok_def Body_ok_def PushPull_ok_def PushNodeState_ok_def states PushPull0_def enum_ok_def laws
        length_ok_def PushPull_ByteSizeLong_def MessageSize_def field_defs)
      (simp add: sample_entry_def text_ok_def length_ok_def assms(2) ref_env_def std_runtime_def)
qed

theorem pushPullNode_learns_witness:
  "wp (pushPullNode (recording (answering_env (beforeSend ref_env (local_state False (sample_list StateAlive))))) addr0 True)
     (onReturn (\<lambda>_ s. live_names (sample_list StateAlive) \<subseteq> dom (nodeMap (fst s)))) (memberlist0 sample_config, (world0, []))"
proof -
  let ?bs = "beforeSend ref_env (local_state False (sample_list StateAlive))"
  let ?e = "answering_env ?bs"
  have "pb_encoding ?e" "VerifyUTF8 ?e = VerifyUTF8 ref_env"
    using answering_codec by (auto simp: pb_codec_def) (simp add: answering_env_def)
  note sent = sample_state_sent [OF this]
  have bytes: "beforeSend ?e = beforeSend ref_env"
    by (simp add: fun_eq_iff beforeSend_def answering_serialize)
  have whole: "whole_answer ?e (local_state False (sample_list StateAlive)) k b" if "reads_made ?e l = [(fd, 1024, Some (k, b))]" for fd k b l
    using that sent reads_made_answered [of fd 1024 "Some (k, b)" ?e l]
    by (auto simp: whole_answer_def bytes) (simp_all add: answering_env_def)
  have "ml_inv (memberlist0 sample_config)" "\<not> leave (memberlist0 sample_config)"
    by (simp_all add: ml_inv_def memberlist0_def)
  note learns = pushPullNode_learns [OF answering_codec this(1), of ?bs addr0 True world0]
  show ?thesis
  proof (rule wp_mono [OF learns])
    fix r and s :: "memberlist \<times> ref_world \<times> ref_world sys_call list"
    assume "onReturn (\<lambda>_ s. \<exists>fd k b. sockets_made ?e (log_of s) = [fd] \<and>
       reads_made ?e (log_of s) = [(fd, 1024, Some (k, b))] \<and>
       reported (memberlist0 sample_config) (answer_states ?e k b) \<subseteq> dom (nodeMap (fst s)) \<and>
       (\<forall>j peer. whole_answer ?e (local_state j peer) k b \<longrightarrow> \<not> leave (memberlist0 sample_config) \<longrightarrow>
          live_names peer \<subseteq> dom (nodeMap (fst s)))) r s"
    then show "onReturn (\<lambda>_ s. live_names (sample_list StateAlive) \<subseteq> dom (nodeMap (fst s))) r s"
      using whole \<open>\<not> leave (memberlist0 sample_config)\<close> by (cases r) (simp_all add: onReturn_def, blast)
  qed
qed

end
