(* ===== verification/Claims.thy ===== *)
theory Claims
  imports Exchange
begin

text \<open>
  Which claims about nodes a member list may hold and spread. A claim is a name with an
  incarnation number, in an alive message and in an exchanged state also with an address. It is
  vouched for when the node of that name advertises the address and has reached the incarnation.
  Every handler that is given vouched claims keeps every claim of its node vouched: no operation
  invents an incarnation or an address of another node.
\<close>

section \<open>Claims\<close>

text \<open>For each name, the node that has it and the incarnation it has reached.\<close>

type_synonym register = "string \<rightharpoonup> Node \<times> uint32"

definition accusable :: "register \<Rightarrow> string \<Rightarrow> uint32 \<Rightarrow> bool" where
  "accusable K x i = (case K x of None \<Rightarrow> False | Some (nd, j) \<Rightarrow> i \<le> j)"

definition vouched :: "register \<Rightarrow> string \<Rightarrow> string \<Rightarrow> uint32 \<Rightarrow> uint32 \<Rightarrow> bool" where
  "vouched K x addr port i =
     (case K x of None \<Rightarrow> False
      | Some (nd, j) \<Rightarrow> NName nd = x \<and> NAddr nd = addr \<and> ucast (NPort nd) = port \<and> i \<le> j)"

text \<open>A broadcast claims what its type says, whatever its content is.\<close>

definition genuine :: "register \<Rightarrow> Broadcast \<Rightarrow> bool" where
  "genuine K b =
     (if bc_type b = aliveMsg then
        (let a = bc_alive b in vouched K (alive_node a) (alive_addr a) (alive_port a) (alive_incarnation a))
      else if bc_type b = deadMsg then accusable K (dead_node (bc_dead b)) (dead_incarnation (bc_dead b))
      else if bc_type b = suspectMsg then
        accusable K (suspect_node (bc_suspect b)) (suspect_incarnation (bc_suspect b))
      else True)"

definition genuine_state :: "register \<Rightarrow> PushNodeState \<Rightarrow> bool" where
  "genuine_state K s = vouched K (pns_name s) (pns_addr s) (pns_port s) (pns_incarnation s)"

definition on_record :: "register \<Rightarrow> nodeState \<Rightarrow> bool" where
  "on_record K st = (case K (NName (N st)) of None \<Rightarrow> False | Some (nd, j) \<Rightarrow> N st = nd \<and> Incarnation st \<le> j)"

lemma vouched_accusable: "vouched K x addr port i \<Longrightarrow> accusable K x i"
  by (auto simp: vouched_def accusable_def split: option.splits)

lemma accusable_le: "accusable K x i \<Longrightarrow> j \<le> i \<Longrightarrow> accusable K x j"
  by (auto simp: accusable_def split: option.splits)

lemma genuine_gen [simp]:
  "genuine K (genAliveBroadcast i x a p) = vouched K x a p i"
  "genuine K (genAliveBroadcast' al) = vouched K (alive_node al) (alive_addr al) (alive_port al) (alive_incarnation al)"
  "genuine K (genDeadBroadcast i x f) = accusable K x i"
  "genuine K (genDeadBroadcast' d) = accusable K (dead_node d) (dead_incarnation d)"
  "genuine K (genSuspectBroadcast i x f) = accusable K x i"
  "genuine K (genSuspectBroadcast' s) = accusable K (suspect_node s) (suspect_incarnation s)"
  by (simp_all add: genuine_def)

text \<open>A register grows when its incarnations do.\<close>

definition grows :: "register \<Rightarrow> register \<Rightarrow> bool" where
  "grows K K' \<longleftrightarrow> (\<forall>x nd j. K x = Some (nd, j) \<longrightarrow> (\<exists>j'. K' x = Some (nd, j') \<and> j \<le> j'))"

lemma grows_refl [simp]: "grows K K"
  by (simp add: grows_def)

lemma grows_trans: "grows K K' \<Longrightarrow> grows K' K'' \<Longrightarrow> grows K K''"
  unfolding grows_def by (meson order_trans)

lemma grows_upd: "grows K K' \<Longrightarrow> i \<le> j \<Longrightarrow> grows (K(x \<mapsto> (nd, i))) (K'(x \<mapsto> (nd, j)))"
  by (simp add: grows_def)

lemma grows_claims:
  assumes "grows K K'"
  shows "accusable K x i \<Longrightarrow> accusable K' x i" and "vouched K x addr port i \<Longrightarrow> vouched K' x addr port i"
    and "on_record K st \<Longrightarrow> on_record K' st"
proof -
  have more: "\<exists>j'. K' y = Some (nd, j') \<and> j \<le> j'" if "K y = Some (nd, j)" for y nd j
    using assms that by (simp add: grows_def)
  show "accusable K x i \<Longrightarrow> accusable K' x i" and "vouched K x addr port i \<Longrightarrow> vouched K' x addr port i"
    by (auto simp: accusable_def vouched_def split: option.splits dest!: more)
  show "on_record K st \<Longrightarrow> on_record K' st"
    by (auto simp: on_record_def split: option.splits dest!: more)
qed

lemma grows_messages:
  assumes "grows K K'"
  shows "genuine K b \<Longrightarrow> genuine K' b" and "genuine_state K s \<Longrightarrow> genuine_state K' s"
  using grows_claims [OF assms] by (auto simp: genuine_def genuine_state_def Let_def)

section \<open>A member list whose claims are vouched for\<close>

text \<open>What the node itself adds to the register: its advertised address and its own incarnation.\<close>

definition advertised :: "Config \<Rightarrow> Node" where
  "advertised c = \<lparr>NName = Name c, NAddr = AdvertiseAddr c, NPort = AdvertisePort c\<rparr>"

definition own :: "memberlist \<Rightarrow> uint32" where
  "own m = (case nodeMap m (localName m) of None \<Rightarrow> 0 | Some p \<Rightarrow> Incarnation (heap m p))"

definition registered :: "register \<Rightarrow> memberlist \<Rightarrow> register" where
  "registered K m = K(localName m \<mapsto> (advertised (config m), own m))"

definition messages :: "broadcastQueue \<Rightarrow> Broadcast set" where
  "messages q = (\<lambda>x. mb_msg (lb_b x)) ` set (tq q)"

abbreviation queued :: "memberlist \<Rightarrow> Broadcast set" where
  "queued m \<equiv> messages (TransmitLimitedQueue m)"

text \<open>
  The table, the queue and the node's own entry, whose incarnation never exceeds the counter it
  is taken from.
\<close>

definition sound :: "register \<Rightarrow> memberlist \<Rightarrow> bool" where
  "sound K m \<longleftrightarrow> ml_inv m \<and> nodeMap m (localName m) \<noteq> None \<and> own m \<le> incarnation m \<and>
     (\<forall>x p. nodeMap m x = Some p \<longrightarrow> on_record (registered K m) (heap m p)) \<and>
     (\<forall>b \<in> queued m. genuine (registered K m) b)"

text \<open>What an operation may do to it.\<close>

definition advances :: "register \<Rightarrow> memberlist \<Rightarrow> memberlist \<Rightarrow> bool" where
  "advances K m m' \<longleftrightarrow> sound K m' \<and> config m' = config m \<and> own m \<le> own m' \<and> nodeMap m \<subseteq>\<^sub>m nodeMap m'"

lemma advances_refl: "sound K m \<Longrightarrow> advances K m m"
  by (simp add: advances_def)

lemma advances_trans: "advances K m m' \<Longrightarrow> advances K m' m'' \<Longrightarrow> advances K m m''"
  unfolding advances_def using map_le_trans by fastforce

lemma advances_sound: "advances K m m' \<Longrightarrow> sound K m'"
  by (simp add: advances_def)

lemma registered_grows: "advances K m m' \<Longrightarrow> grows (registered K m) (registered K m')"
  unfolding advances_def registered_def by (simp add: grows_upd)

section \<open>What the building blocks do\<close>

lemma own_same:
  assumes "config m' = config m" and "nodeMap m' = nodeMap m" and "heap m' = heap m"
  shows "own m' = own m" and "registered K m' = registered K m"
proof -
  show "own m' = own m"
    by (simp add: own_def assms cong: option.case_cong)
  then show "registered K m' = registered K m"
    by (simp add: registered_def assms)
qed

lemma own_quiet: "quiet m m' \<Longrightarrow> own m' = own m" "quiet m m' \<Longrightarrow> registered K m' = registered K m"
  using own_same [of m' m] by (simp_all add: quietD)

lemma sound_mutex [simp]:
  "own (m\<lparr>nodeMutex := b\<rparr>) = own m" "registered K (m\<lparr>nodeMutex := b\<rparr>) = registered K m"
  "sound K (m\<lparr>nodeMutex := b\<rparr>) = sound K m" "advances K m (m'\<lparr>nodeMutex := b\<rparr>) = advances K m m'"
  "advances K (m\<lparr>nodeMutex := b\<rparr>) m' = advances K m m'"
proof -
  show o [simp]: "own (m\<lparr>nodeMutex := b\<rparr>) = own m" "registered K (m\<lparr>nodeMutex := b\<rparr>) = registered K m" for m
    by (rule own_same; simp)+
  show s [simp]: "sound K (m\<lparr>nodeMutex := b\<rparr>) = sound K m" for m
    by (simp add: sound_def)
  show "advances K m (m'\<lparr>nodeMutex := b\<rparr>) = advances K m m'" "advances K (m\<lparr>nodeMutex := b\<rparr>) m' = advances K m m'"
    by (simp_all add: advances_def)
qed

lemma advances_quiet:
  assumes "sound K m" and "quiet m m'" and "queued m' \<subseteq> S \<union> queued m"
    and "\<And>b. b \<in> S \<Longrightarrow> genuine (registered K m) b"
  shows "advances K m m'"
  using assms ml_inv_quiet [OF assms(2)]
  by (auto simp: advances_def sound_def own_quiet [OF assms(2)] quietD [OF assms(2)])

lemma keeps_messages_delete: "keeps (\<lambda>q. messages q \<subseteq> S) (deleteItem e lb)"
  unfolding deleteItem_def messages_def
  by (intro keeps_intros) (auto dest!: subsetD [OF set_remove1_subset])

lemma wp_QueueBroadcast_messages:
  assumes "\<And>r q' w'. messages q' \<subseteq> insert (mb_msg b) (messages q) \<Longrightarrow> Q r (q', w')"
  shows "wp (QueueBroadcast e b) Q (q, w)"
proof -
  let ?P = "\<lambda>q'. messages q' \<subseteq> insert (mb_msg b) (messages q)"
  have "keeps ?P (QueueBroadcast e b)"
    unfolding QueueBroadcast_def queueBroadcast_def Let_def
    by (intro keeps_intros keeps_messages_delete)
      (auto simp: messages_def next_id_def addItem_def dest!: subsetD [OF lb.set_insert_subset])
  then have "wp (QueueBroadcast e b) (\<lambda>r s. ?P (fst s)) (q, w)"
    by (rule keepsD) auto
  then show ?thesis
    by (rule wp_mono) (auto intro: assms)
qed

lemma wp_notify_queued:
  assumes "\<And>r m' w'. quiet m m' \<Longrightarrow> queued m' \<subseteq> {b} \<union> queued m \<Longrightarrow> Q r (m', w')"
  shows "wp (BroadcastNotify e n b fd) Q (m, w)"
  unfolding BroadcastNotify_def on_queue_def wp_zoom
  by (simp, rule wp_QueueBroadcast_messages) (use assms in simp)

lemma wp_erase_queued:
  "(\<And>r m' w'. quiet m m' \<Longrightarrow> queued m' \<subseteq> {} \<union> queued m \<Longrightarrow> Q r (m', w')) \<Longrightarrow> wp (erase_timer n) Q (m, w)"
  by (simp add: erase_timer_def wp_simps)

lemma wp_start_queued:
  "(\<And>r m' w'. quiet m m' \<Longrightarrow> queued m' \<subseteq> {} \<union> queued m \<Longrightarrow> Q r (m', w')) \<Longrightarrow> wp (start_suspicion e s now) Q (m, w)"
  by (auto simp: start_suspicion_def wp_simps Let_def intro!: wp_new_suspicion)

lemma wp_refute_queued:
  assumes "\<And>r m' w'. quiet (refuted p acc m) m' \<Longrightarrow>
      queued m' \<subseteq> {genAliveBroadcast (incarnation (refuted p acc m)) (NName (N (heap m p))) (NAddr (N (heap m p)))
        (ucast (NPort (N (heap m p))))} \<union> queued m \<Longrightarrow> Q r (m', w')"
  shows "wp (refute e p acc) Q (m, w)"
  using assms unfolding refute_def onlyBroadcast_def
  by (auto simp: skipIncarnation_def set_node_def wp_simps Let_def refuted_def intro!: wp_notify_queued)

lemma wp_confirm_queued:
  assumes "nodeMutex m"
    and "\<And>r m' w'. quiet m m' \<Longrightarrow> queued m' \<subseteq> {genSuspectBroadcast' s} \<union> queued m \<Longrightarrow> Q r (m', w')"
  shows "wp (confirm_suspicion e s sus) Q (m, w)"
proof -
  have "Q r (m', w')" if "quiet (m\<lparr>nodeTimers := ts\<rparr>) m'" "queued m' \<subseteq> {genSuspectBroadcast' s} \<union> queued m" for r m' w' ts
    using that by (intro assms(2)) (auto simp: quiet_def)
  moreover have "Q r (m, w')" "Q r (m\<lparr>nodeTimers := ts\<rparr>, w')" for r w' ts
    by (intro assms(2); auto)+
  ultimately show ?thesis
    using assms(1) unfolding confirm_suspicion_def suspicion_callback_def onlyBroadcast_def
    by (simp add: wp_simps) (rule wpI, auto intro!: wp_notify_queued)
qed

section \<open>Changing the table\<close>

lemma sound_own:
  assumes "sound K m"
  obtains p where "nodeMap m (localName m) = Some p" and "own m = Incarnation (heap m p)"
    and "N (heap m p) = advertised (config m)"
proof -
  obtain p where p: "nodeMap m (localName m) = Some p"
    using assms by (auto simp: sound_def)
  moreover have "NName (N (heap m p)) = localName m"
    using p assms ml_name by (auto simp: sound_def)
  moreover have "on_record (registered K m) (heap m p)"
    using p assms by (simp add: sound_def)
  ultimately have "N (heap m p) = advertised (config m)"
    by (simp add: on_record_def registered_def)
  with p show thesis
    by (intro that) (simp_all add: own_def)
qed

lemma sound_record: "sound K m \<Longrightarrow> nodeMap m x = Some p \<Longrightarrow> on_record (registered K m) (heap m p)"
  by (simp add: sound_def)

lemma advances_set:
  assumes "sound K m" and "nodeMap m x = Some p" and "\<And>s. NName (N (f s)) = NName (N s)"
    and "x \<noteq> localName m \<Longrightarrow> on_record (registered K m) (f (heap m p))"
    and "x = localName m \<Longrightarrow> N (f (heap m p)) = N (heap m p) \<and> own m \<le> Incarnation (f (heap m p)) \<and>
      Incarnation (f (heap m p)) \<le> i \<and> incarnation m \<le> i"
    and "x \<noteq> localName m \<Longrightarrow> i = incarnation m"
  shows "advances K m (m\<lparr>incarnation := i, heap := (heap m)(p := f (heap m p))\<rparr>)"
proof -
  let ?m = "m\<lparr>incarnation := i, heap := (heap m)(p := f (heap m p))\<rparr>"
  obtain l where l: "nodeMap m (localName m) = Some l" "own m = Incarnation (heap m l)" "N (heap m l) = advertised (config m)"
    using assms(1) by (rule sound_own)
  have inv: "ml_inv m"
    using assms(1) by (simp add: sound_def)
  have lp: "l = p \<longleftrightarrow> x = localName m"
    using l(1) assms(2) ml_inj [OF inv] by fastforce
  have own': "own ?m = (if x = localName m then Incarnation (f (heap m p)) else own m)"
    using l lp by (simp add: own_def)
  then have le: "own m \<le> own ?m"
    using assms(5) by simp
  then have grow: "grows (registered K m) (registered K ?m)"
    by (simp add: registered_def grows_upd)
  have "on_record (registered K ?m) (heap ?m q)" if "nodeMap m y = Some q" for y q
  proof (cases "q = p")
    case False
    then show ?thesis
      using grows_claims(3) [OF grow sound_record [OF assms(1) that]] by simp
  next
    case True
    show ?thesis
    proof (cases "x = localName m")
      case other: False
      show ?thesis
        using True grows_claims(3) [OF grow assms(4) [OF other]] by simp
    next
      case self: True
      then show ?thesis
        using True own' assms(5) [OF self] l lp
        by (simp add: on_record_def registered_def advertised_def)
    qed
  qed
  moreover have "ml_inv ?m"
    using ml_inv_set_node [OF assms(3) inv] by (simp add: ml_inv_def)
  moreover have "own ?m \<le> incarnation ?m"
    using own' assms(1,5,6) by (cases "x = localName m") (simp_all add: sound_def)
  ultimately show ?thesis
    using assms(1) le grows_messages(1) [OF grow]
    by (simp add: advances_def sound_def)
qed

lemma advances_mark:
  assumes "sound K m" and "nodeMap m x = Some p" and "\<And>s. N (f s) = N s"
    and "x \<noteq> localName m \<Longrightarrow> accusable (registered K m) x (Incarnation (f (heap m p)))"
    and "x = localName m \<Longrightarrow> Incarnation (f (heap m p)) = own m"
  shows "advances K m (m\<lparr>heap := (heap m)(p := f (heap m p))\<rparr>)"
proof -
  have "NName (N (heap m p)) = x"
    using assms(1,2) ml_name by (auto simp: sound_def)
  then have "on_record (registered K m) (f (heap m p))" if "x \<noteq> localName m"
    using assms(4) [OF that] sound_record [OF assms(1,2)] assms(3)
    by (auto simp: on_record_def accusable_def split: option.splits)
  moreover have "own m \<le> incarnation m"
    using assms(1) by (simp add: sound_def)
  ultimately have "advances K m (m\<lparr>incarnation := incarnation m, heap := (heap m)(p := f (heap m p))\<rparr>)"
    using assms by (intro advances_set [of _ _ x]) auto
  then show ?thesis
    by (cases m) simp
qed

lemma advances_refuted:
  assumes "sound K m" and "nodeMap m (localName m) = Some p" and "acc \<noteq> UINT32_MAX"
  shows "advances K m (refuted p acc m)" and "own (refuted p acc m) = incarnation (refuted p acc m)"
proof -
  have own: "own m = Incarnation (heap m p)" "own m \<le> incarnation m"
    using assms(1,2) by (auto simp: sound_def own_def)
  have "acc < acc + 1"
    using assms(3) by (intro word_less_plus_one) simp
  then have "incarnation m \<le> (if acc \<ge> incarnation m then acc + 1 else incarnation m)"
    by auto
  then have "advances K m (m\<lparr>incarnation := (if acc \<ge> incarnation m then acc + 1 else incarnation m), heap := (heap m)(p :=
      (\<lambda>s. s\<lparr>Incarnation := (if acc \<ge> incarnation m then acc + 1 else incarnation m)\<rparr>) (heap m p))\<rparr>)"
    using own assms by (intro advances_set [of _ _ "localName m"]) auto
  then show "advances K m (refuted p acc m)"
    by (simp add: refuted_def Let_def)
  show "own (refuted p acc m) = incarnation (refuted p acc m)"
    using assms(2) by (simp add: own_def refuted_def Let_def)
qed

lemma keeps_adv_put:
  assumes "nodeMap m x = Some p" and "x \<noteq> localName m" and "\<And>s. NName (N (f s)) = NName (N s)"
    and "\<And>c. advances K m c \<Longrightarrow> nodeMap c x = Some p \<Longrightarrow> on_record (registered K c) (f (heap c p))"
  shows "keeps (advances K m) (set_node p f)"
  unfolding set_node_def
proof (rule keeps_upd)
  fix c assume c: "advances K m c"
  then have m: "nodeMap c x = Some p" "localName c = localName m" "sound K c"
    using assms(1) by (auto simp: advances_def map_le_def dom_def)
  then have "advances K c (c\<lparr>incarnation := incarnation c, heap := (heap c)(p := f (heap c p))\<rparr>)"
    using assms c by (intro advances_set [of _ _ x]) simp_all
  then have "advances K c (c\<lparr>heap := (heap c)(p := f (heap c p))\<rparr>)"
    by (cases c) simp
  with c show "advances K m (c\<lparr>heap := (heap c)(p := f (heap c p))\<rparr>)"
    by (rule advances_trans)
qed

lemma keeps_adv_set:
  assumes "nodeMap m x = Some p" and "x \<noteq> localName m" and "\<And>s. N (f s) = N s"
    and "\<And>s. Incarnation (f s) = Incarnation s \<or> accusable (registered K m) x (Incarnation (f s))"
  shows "keeps (advances K m) (set_node p f)"
proof (rule keeps_adv_put [OF assms(1,2)])
  fix c assume c: "advances K m c" "nodeMap c x = Some p"
  then have "NName (N (heap c p)) = x"
    using ml_name by (auto simp: advances_def sound_def)
  moreover have "Incarnation (f (heap c p)) = Incarnation (heap c p) \<or>
      accusable (registered K c) x (Incarnation (f (heap c p)))"
    using assms(4) grows_claims(1) [OF registered_grows [OF c(1)]] by blast
  ultimately show "on_record (registered K c) (f (heap c p))"
    using sound_record [OF advances_sound [OF c(1)] c(2)] assms(3)
    by (auto simp: on_record_def accusable_def split: option.splits)
qed (simp add: assms(3))

lemma keeps_adv_queue:
  shows "genuine (registered K m) b \<Longrightarrow> keeps (advances K m) (BroadcastNotify e n b fd)"
    and "keeps (advances K m) (erase_timer n)" and "keeps (advances K m) (start_suspicion e s now)"
proof -
  have adv: "advances K m c'" if "advances K m c" "quiet c c'" "queued c' \<subseteq> S \<union> queued c"
    "\<And>b. b \<in> S \<Longrightarrow> genuine (registered K m) b" for c c' S
  proof -
    have "advances K c c'"
      using grows_messages(1) [OF registered_grows [OF that(1)]] that(4)
      by (intro advances_quiet [OF advances_sound [OF that(1)] that(2,3)]) blast
    with that(1) show ?thesis
      by (rule advances_trans)
  qed
  show "genuine (registered K m) b \<Longrightarrow> keeps (advances K m) (BroadcastNotify e n b fd)"
    by (rule keepsI, rule wp_notify_queued) (auto intro: adv [where S = "{b}"])
  show "keeps (advances K m) (erase_timer n)"
    by (rule keepsI, rule wp_erase_queued) (auto intro: adv [where S = "{}"])
  show "keeps (advances K m) (start_suspicion e s now)"
    by (rule keepsI, rule wp_start_queued) (auto intro: adv [where S = "{}"])
qed

section \<open>The handlers\<close>

text \<open>
  A claim about the node itself must not use the last incarnation number, which refuting it
  would wrap around.
\<close>

definition safe :: "register \<Rightarrow> memberlist \<Rightarrow> string \<Rightarrow> uint32 \<Rightarrow> bool" where
  "safe K m x i \<longleftrightarrow> accusable (registered K m) x i \<and> (x = localName m \<longrightarrow> i \<noteq> UINT32_MAX)"

lemma safe_advances: "advances K m m' \<Longrightarrow> safe K m x i \<Longrightarrow> safe K m' x i"
  using grows_claims(1) [OF registered_grows] by (auto simp: safe_def advances_def)

lemma safe_mutex [simp]: "safe K (m\<lparr>nodeMutex := b\<rparr>) x i = safe K m x i"
  by (simp add: safe_def)

lemma wp_adv_lock:
  assumes "sound K m" and "wp p (\<lambda>r s. advances K m (fst s)) (m\<lparr>nodeMutex := True\<rparr>, w)"
  shows "wp (node_lock p) (\<lambda>r s. advances K m (fst s)) (m, w)"
  using assms by (auto simp: wp_node_lock advances_refl elim!: wp_mono)

lemma wp_adv_refute:
  assumes "sound K m" and "nodeMap m (localName m) = Some p" and "acc \<noteq> UINT32_MAX"
  shows "wp (refute e p acc) (\<lambda>r s. advances K m (fst s)) (m, w)"
proof (rule wp_refute_queued, simp)
  let ?m = "refuted p acc m" and ?n = "N (heap m p)"
  fix m' assume q: "quiet ?m m'"
    "queued m' \<subseteq> insert (genAliveBroadcast (incarnation ?m) (NName ?n) (NAddr ?n) (ucast (NPort ?n))) (queued m)"
  have adv: "advances K m ?m" "own ?m = incarnation ?m"
    using advances_refuted [OF assms] by simp_all
  have "?n = advertised (config m)"
    using assms(1,2) by (rule_tac sound_own) auto
  then have "vouched (registered K ?m) (NName ?n) (NAddr ?n) (ucast (NPort ?n)) (incarnation ?m)"
    using adv by (simp add: vouched_def registered_def advertised_def advances_def)
  then have "advances K ?m m'"
    using q by (intro advances_quiet [OF advances_sound [OF adv(1)] q(1), of
        "{genAliveBroadcast (incarnation ?m) (NName ?n) (NAddr ?n) (ucast (NPort ?n))}"])
      (auto simp: refuted_def Let_def)
  with adv(1) show "advances K m m'"
    by (rule advances_trans)
qed

lemma wp_adv_erase:
  assumes "sound K m" and "\<And>r m' w'. advances K m m' \<Longrightarrow> quiet m m' \<Longrightarrow> Q r (m', w')"
  shows "wp (erase_timer n) Q (m, w)"
  using assms by (auto intro!: wp_erase_queued dest: advances_quiet [of K m _ "{}"])

lemma keeps_adv_mark_dead:
  assumes "sound K m" and "nodeMap m (dead_node d) = Some p" and "accusable (registered K m) (dead_node d) (dead_incarnation d)"
    and "dead_node d \<noteq> localName m"
  shows "keeps (advances K m) (mark_dead e d p)"
  unfolding mark_dead_def onlyBroadcast_def using assms
  by (intro keeps_intros keeps_adv_queue keeps_adv_set) (auto intro: keeps_adv_set)

lemma wp_adv_mark_own_dead:
  assumes "sound K m" and p: "nodeMap m (localName m) = Some p"
    and d: "dead_node d = localName m" "dead_incarnation d = own m"
  shows "wp (mark_dead e d p) (\<lambda>r s. advances K m (fst s)) (m, w)"
proof -
  have notified: "advances K m m'" if "quiet m m'" "queued m' \<subseteq> {genDeadBroadcast' d} \<union> queued m" for m'
    using that assms by (intro advances_quiet [OF assms(1) that]) (simp add: accusable_def registered_def)
  have "advances K m (m'\<lparr>heap := (heap m')(p := (heap m' p)\<lparr>Incarnation := own m, State := st, StateChange := g\<rparr>)\<rparr>)"
    if "quiet m m'" "queued m' \<subseteq> {genDeadBroadcast' d} \<union> queued m" for m' st g
  proof (rule advances_trans)
    show adv: "advances K m m'"
      using notified [OF that] .
    show "advances K m' (m'\<lparr>heap := (heap m')(p := (heap m' p)\<lparr>Incarnation := own m, State := st, StateChange := g\<rparr>)\<rparr>)"
      using p quietD [OF that(1)] own_quiet(1) [OF that(1)] advances_mark [OF advances_sound [OF adv], of "localName m" p
          "\<lambda>s. s\<lparr>Incarnation := own m, State := st, StateChange := g\<rparr>"]
      by simp
  qed
  note marked = this
  have "NName (N (heap m p)) = localName m"
    using assms(1) p ml_name by (auto simp: sound_def)
  then have "mark_dead e d p (m, w) = thenE (BroadcastNotify e (dead_node d) (genDeadBroadcast' d) (snd (leaveFd m)))
     (thenE (set_node p (\<lambda>s. s\<lparr>Incarnation := dead_incarnation d,
        State := (if dead_node d = dead_from d then StateLeft else StateDead)\<rparr>))
     (bindE (now_us e) (\<lambda>now. set_node p (\<lambda>s. s\<lparr>StateChange := now\<rparr>)))) (m, w)"
    by (simp add: mark_dead_def bindE_def obj_def)
  moreover have "wp (thenE (BroadcastNotify e (dead_node d) (genDeadBroadcast' d) (snd (leaveFd m)))
     (thenE (set_node p (\<lambda>s. s\<lparr>Incarnation := dead_incarnation d,
        State := (if dead_node d = dead_from d then StateLeft else StateDead)\<rparr>))
     (bindE (now_us e) (\<lambda>now. set_node p (\<lambda>s. s\<lparr>StateChange := now\<rparr>))))) (\<lambda>r s. advances K m (fst s)) (m, w)"
    unfolding wp_thenE [of "BroadcastNotify e x y z" for x y z] set_node_def now_us_def
    by (rule wp_notify_queued, simp add: wp_simps d(2)) (blast intro: notified marked)
  ultimately show ?thesis
    by (simp add: wp_def)
qed

lemma wp_adv_deadNode:
  assumes "sound K m" and "safe K m (dead_node (bc_dead b)) (dead_incarnation (bc_dead b))"
  shows "wp (deadNode e b) (\<lambda>r s. advances K m (fst s)) (m, w)"
proof -
  let ?d = "bc_dead b"
  have "wp (dead_apply e ?d p) (\<lambda>r s. advances K c (fst s)) (c, w')"
    if c: "sound K c" "safe K c (dead_node ?d) (dead_incarnation ?d)" "nodeMap c (dead_node ?d) = Some p" for c p w'
  proof -
    have name: "NName (N (heap c p)) = dead_node ?d"
      using c ml_name by (auto simp: sound_def)
    have acc: "accusable (registered K c) (dead_node ?d) (dead_incarnation ?d)"
      using c(2) by (simp add: safe_def)
    have mark: "wp (mark_dead e ?d p) (\<lambda>r s. advances K c (fst s)) (c1, w1)"
      if c1: "advances K c c1" "quiet c c1" and newer: "\<not> dead_incarnation ?d < Incarnation (heap c p)" for c1 w1
    proof (cases "dead_node ?d = localName c")
      case False
      have "wp (mark_dead e ?d p) (\<lambda>r s. advances K c1 (fst s)) (c1, w1)"
        using False c quietD [OF c1(2)] advances_sound [OF c1(1)] acc
        by (intro keepsD [OF keeps_adv_mark_dead]) (simp_all add: advances_refl own_quiet [OF c1(2)])
      then show ?thesis
        by (rule wp_mono) (rule advances_trans [OF c1(1)])
    next
      case True
      have "own c = Incarnation (heap c p)"
        using True c(3) by (simp add: own_def)
      moreover have "dead_incarnation ?d \<le> own c"
        using True acc by (simp add: accusable_def registered_def)
      ultimately have "dead_incarnation ?d = own c1"
        using newer own_quiet(1) [OF c1(2)] by simp
      then have "wp (mark_dead e ?d p) (\<lambda>r s. advances K c1 (fst s)) (c1, w1)"
        using True c quietD [OF c1(2)] advances_sound [OF c1(1)] by (intro wp_adv_mark_own_dead) simp_all
      then show ?thesis
        by (rule wp_mono) (rule advances_trans [OF c1(1)])
    qed
    have answer: "wp (refute e p (dead_incarnation ?d)) (\<lambda>r s. advances K c (fst s)) (c1, w1)"
      if c1: "advances K c c1" "quiet c c1" and self: "dead_node ?d = localName c" for c1 w1
    proof -
      have "wp (refute e p (dead_incarnation ?d)) (\<lambda>r s. advances K c1 (fst s)) (c1, w1)"
        using self c quietD [OF c1(2)] advances_sound [OF c1(1)] by (intro wp_adv_refute) (simp_all add: safe_def)
      then show ?thesis
        by (rule wp_mono) (rule advances_trans [OF c1(1)])
    qed
    show ?thesis
      unfolding dead_apply_def
      using c(1) name mark answer
      by (auto simp: wp_bindE wp_obj wp_let wp_if wp_thenE wp_ret advances_refl intro!: wp_adv_erase)
  qed
  note body = this [of "m\<lparr>nodeMutex := True\<rparr>" _ w, simplified]
  show ?thesis
    using assms body unfolding deadNode_def Let_def
    by (intro wp_adv_lock) (auto simp: wp_bindE wp_obj wp_case_option wp_ret advances_refl)
qed

lemma sound_accusable:
  assumes "sound K m" and "nodeMap m x = Some p" and "i \<le> Incarnation (heap m p)" and "own m \<noteq> UINT32_MAX"
  shows "safe K m x i"
proof -
  have "NName (N (heap m p)) = x"
    using assms(1,2) ml_name by (auto simp: sound_def)
  then have "accusable (registered K m) x i"
    using sound_record [OF assms(1,2)] assms(3) by (auto simp: on_record_def accusable_def split: option.splits)
  moreover have "i \<noteq> UINT32_MAX" if "x = localName m"
  proof -
    have "i \<le> own m" "own m < UINT32_MAX"
      using assms that by (simp_all add: own_def word_order.not_eq_extremum)
    then show ?thesis
      by (metis leD)
  qed
  ultimately show ?thesis
    by (simp add: safe_def)
qed

lemma wp_adv_callback:
  assumes "sound K m" and "own m \<noteq> UINT32_MAX"
  shows "wp (suspicion_callback e f) (\<lambda>r s. advances K m (fst s)) (m, w)"
proof -
  have "wp (deadNode e (genDeadBroadcast (Incarnation (heap m p)) (NName (N (heap m p))) x)) (\<lambda>r s. advances K m (fst s))
      (m\<lparr>nodeMutex := False\<rparr>, w)" if "nodeMap m (st_node f) = Some p" for p x
    using wp_adv_deadNode [of K "m\<lparr>nodeMutex := False\<rparr>" "genDeadBroadcast (Incarnation (heap m p)) (NName (N (heap m p))) x" e w]
      sound_accusable [OF assms(1) that _ assms(2)] assms(1) that ml_name by (auto simp: sound_def)
  then show ?thesis
    unfolding suspicion_callback_def
    by (auto simp: wp_bindE wp_node_lock wp_obj wp_case_option wp_ret advances_refl assms(1) Let_def
        split: option.splits if_splits)
qed

lemma wp_adv_suspectNode:
  assumes "sound K m" and "safe K m (suspect_node (bc_suspect b)) (suspect_incarnation (bc_suspect b))"
  shows "wp (suspectNode e b) (\<lambda>r s. advances K m (fst s)) (m, w)"
proof -
  let ?s = "bc_suspect b"
  have "wp (suspect_apply e ?s p) (\<lambda>r s. advances K c (fst s)) (c, w')"
    if c: "sound K c" "safe K c (suspect_node ?s) (suspect_incarnation ?s)" "nodeMap c (suspect_node ?s) = Some p" "nodeMutex c"
    for c p w'
  proof -
    have name: "NName (N (heap c p)) = suspect_node ?s"
      using c ml_name by (auto simp: sound_def)
    have acc: "accusable (registered K c) (suspect_node ?s) (suspect_incarnation ?s)"
      using c(2) by (simp add: safe_def)
    have "wp (confirm_suspicion e ?s sus) (\<lambda>r s. advances K c (fst s)) (c, w')" for sus
      by (rule wp_confirm_queued [OF c(4)]) (use acc in \<open>auto intro!: advances_quiet [OF c(1), of _ "{genSuspectBroadcast' ?s}"]\<close>)
    moreover have "wp (refute e p (suspect_incarnation ?s)) (\<lambda>r s. advances K c (fst s)) (c, w')"
      if "suspect_node ?s = localName c"
      using that c by (intro wp_adv_refute) (simp_all add: safe_def)
    moreover have "keeps (advances K c) (mark_suspect e ?s p)" if "suspect_node ?s \<noteq> localName c"
      unfolding mark_suspect_def onlyBroadcast_def using that c acc
      by (intro keeps_intros keeps_adv_queue) (auto intro: keeps_adv_set keeps_now)
    then have "wp (mark_suspect e ?s p) (\<lambda>r s. advances K c (fst s)) (c, w')" if "suspect_node ?s \<noteq> localName c"
      using that c(1) by (intro keepsD) (simp_all add: advances_refl)
    ultimately show ?thesis
      unfolding suspect_apply_def
      using c(1) name by (auto simp: wp_bindE wp_obj wp_let wp_if wp_ret wp_case_option advances_refl)
  qed
  note body = this [of "m\<lparr>nodeMutex := True\<rparr>" _ w, simplified]
  show ?thesis
    using assms body unfolding suspectNode_def Let_def
    by (intro wp_adv_lock) (auto simp: wp_bindE wp_obj wp_case_option wp_ret advances_refl)
qed

text \<open>
  An alive message about another node must be vouched for; about the node itself, anything below
  the last incarnation number will do, since it is refuted.
\<close>

definition safe_alive :: "register \<Rightarrow> memberlist \<Rightarrow> Alive \<Rightarrow> bool" where
  "safe_alive K m a \<longleftrightarrow>
     (if alive_node a = localName m then alive_incarnation a \<noteq> UINT32_MAX
      else vouched (registered K m) (alive_node a) (alive_addr a) (alive_port a) (alive_incarnation a))"

lemma vouched_record:
  assumes "vouched K x addr port i" and "NName (N st) = x" and "NAddr (N st) = addr" and "NPort (N st) = ucast port"
    and "Incarnation st \<le> i"
  shows "on_record K st"
proof -
  obtain nd j where nd: "K x = Some (nd, j)" "NName nd = x" "NAddr nd = addr" "ucast (NPort nd) = port" "i \<le> j"
    using assms(1) by (auto simp: vouched_def split: option.splits)
  then have "NPort (N st) = NPort nd"
    using assms(4) ucast_port by metis
  then have "N st = nd"
    using nd assms(2,3) by simp
  then show ?thesis
    using nd assms(5) by (simp add: on_record_def)
qed

lemma safe_alive_advances: "advances K m m' \<Longrightarrow> safe_alive K m a \<Longrightarrow> safe_alive K m' a"
  using grows_claims(2) [OF registered_grows] by (auto simp: safe_alive_def advances_def)

lemma advances_inserted:
  assumes "sound K m" and "nodeMap m x = None" and "ml_inv (inserted x st ns m)" and "on_record (registered K m) st"
  shows "advances K m (inserted x st ns m)"
proof -
  let ?m = "inserted x st ns m"
  have fresh: "q \<noteq> heapNext m" if "nodeMap m y = Some q" for y q
  proof -
    have "ml_inv m"
      using assms(1) by (simp add: sound_def)
    from ml_mem [OF this that] this show ?thesis
      by (auto simp: ml_inv_def)
  qed
  obtain l where l: "nodeMap m (localName m) = Some l" "own m = Incarnation (heap m l)"
    using assms(1) by (rule sound_own)
  have "own ?m = own m"
    using l fresh [OF l(1)] assms(2) by (auto simp: own_def inserted_def)
  moreover from this have "registered K ?m = registered K m"
    by (simp add: registered_def inserted_def)
  moreover have "on_record (registered K m) (heap ?m q)" if "nodeMap ?m y = Some q" for y q
    using that fresh assms(4) sound_record [OF assms(1)] by (auto simp: inserted_def split: if_splits)
  moreover have "nodeMap m \<subseteq>\<^sub>m nodeMap ?m"
    using assms(2) by (auto simp: inserted_def map_le_def)
  ultimately show ?thesis
    using assms(1,3) by (auto simp: advances_def sound_def inserted_def)
qed

lemma wp_adv_alive_lookup:
  assumes "sound K m" and "safe_alive K m a"
    and "\<And>x w' m'. advances K m m' \<Longrightarrow> (\<And>p u. x = Inr (Some (p, u)) \<Longrightarrow> nodeMap m' (alive_node a) = Some p) \<Longrightarrow> Q x (m', w')"
  shows "wp (alive_lookup e a) Q (m, w)"
proof (rule wp_alive_lookup)
  fix st ns w'
  assume st: "nodeMap m (alive_node a) = None" "Incarnation st = 0" "ml_inv (inserted (alive_node a) st ns m)"
    "N st = \<lparr>NName = alive_node a, NAddr = alive_addr a, NPort = ucast (alive_port a)\<rparr>"
  then have "alive_node a \<noteq> localName m"
    using assms(1) by (auto simp: sound_def)
  then have "on_record (registered K m) st"
    using assms(2) st by (intro vouched_record [of _ "alive_node a" "alive_addr a" "alive_port a" "alive_incarnation a"])
      (simp_all add: safe_alive_def)
  then show "Q (Inr (Some (heapNext m, False))) (inserted (alive_node a) st ns m, w')"
    using advances_inserted [OF assms(1) st(1,3)] by (intro assms(3)) (auto simp: inserted_def)
qed (use assms(1) in \<open>auto simp: sound_def intro!: assms(3) advances_refl\<close>)

lemma wp_adv_alive_apply:
  assumes "sound K m" and "safe_alive K m a" and p: "nodeMap m (alive_node a) = Some p"
  shows "wp (alive_apply e a False fd p u) (\<lambda>r s. advances K m (fst s)) (m, w)"
proof -
  have name: "NName (N (heap m p)) = alive_node a"
    using assms(1) p ml_name by (auto simp: sound_def)
  have answer: "wp (refute e p (alive_incarnation a)) (\<lambda>r s. advances K m (fst s)) (m1, w1)"
    if "advances K m m1" "alive_node a = localName m" for m1 w1
  proof -
    have "nodeMap m1 (localName m1) = Some p"
      using that p by (auto simp: advances_def map_le_def dom_def)
    then have "wp (refute e p (alive_incarnation a)) (\<lambda>r s. advances K m1 (fst s)) (m1, w1)"
      using that assms(2) by (intro wp_adv_refute [OF advances_sound [OF that(1)]]) (simp_all add: safe_alive_def)
    then show ?thesis
      by (rule wp_mono) (rule advances_trans [OF that(1)])
  qed
  let ?update = "thenE (BroadcastNotify e (alive_node a) (genAliveBroadcast' a) fd)
     (thenE (set_node p (\<lambda>s. s\<lparr>Incarnation := alive_incarnation a,
        N := (N s)\<lparr>NAddr := alive_addr a, NPort := ucast (alive_port a)\<rparr>\<rparr>))
     (if State (heap m p) \<noteq> StateAlive then
        thenE (set_node p (\<lambda>s. s\<lparr>State := StateAlive\<rparr>))
        (bindE (now_us e) (\<lambda>now. set_node p (\<lambda>s. s\<lparr>StateChange := now\<rparr>)))
      else ret ()))"
  have update: "keeps (advances K m) ?update" if other: "alive_node a \<noteq> localName m"
  proof -
    have v: "vouched (registered K m) (alive_node a) (alive_addr a) (alive_port a) (alive_incarnation a)"
      using other assms(2) by (simp add: safe_alive_def)
    have "keeps (advances K m) (set_node p (\<lambda>s. s\<lparr>Incarnation := alive_incarnation a,
        N := (N s)\<lparr>NAddr := alive_addr a, NPort := ucast (alive_port a)\<rparr>\<rparr>))"
    proof (rule keeps_adv_put [OF p other])
      fix c assume c: "advances K m c" "nodeMap c (alive_node a) = Some p"
      then have "NName (N (heap c p)) = alive_node a"
        using ml_name by (auto simp: advances_def sound_def)
      then show "on_record (registered K c) ((heap c p)\<lparr>Incarnation := alive_incarnation a,
          N := (N (heap c p))\<lparr>NAddr := alive_addr a, NPort := ucast (alive_port a)\<rparr>\<rparr>)"
        using grows_claims(2) [OF registered_grows [OF c(1)] v] by (elim vouched_record) simp_all
    qed simp
    then show ?thesis
      using v by (intro keeps_intros keeps_adv_queue) (auto intro: keeps_adv_set [OF p other])
  qed
  show ?thesis
    unfolding alive_apply_def
    using assms(1) name answer keepsD [OF update]
    by (auto simp: wp_bindE [of "obj f" for f] wp_obj wp_let wp_if wp_ret wp_thenE [of "erase_timer n" for n] advances_refl
        intro!: wp_adv_erase)
qed

lemma wp_adv_aliveNode:
  assumes "sound K m" and "safe_alive K m (bc_alive b)"
  shows "wp (aliveNode e b False fd) (\<lambda>r s. advances K m (fst s)) (m, w)"
proof -
  let ?a = "bc_alive b" and ?m = "m\<lparr>nodeMutex := True\<rparr>"
  have applied: "wp (alive_apply e ?a False fd p u) (\<lambda>r s. advances K m (fst s)) (m1, w1)"
    if "advances K m m1" "nodeMap m1 (alive_node ?a) = Some p" for m1 p u w1
    by (rule wp_mono [OF wp_adv_alive_apply [OF advances_sound [OF that(1)] safe_alive_advances [OF that(1) assms(2)] that(2)]])
      (rule advances_trans [OF that(1)])
  have "wp (alive_lookup e ?a) (\<lambda>r s. advances K m (fst s) \<and>
      (\<forall>p u. r = Inr (Some (p, u)) \<longrightarrow> nodeMap (fst s) (alive_node ?a) = Some p)) (?m, w)"
    using assms by (intro wp_adv_alive_lookup [of K]) (simp_all add: safe_alive_def)
  then have "wp (bindE (alive_lookup e ?a) (\<lambda>found. case found of None \<Rightarrow> ret ()
      | Some (p, u) \<Rightarrow> alive_apply e ?a False fd p u)) (\<lambda>r s. advances K m (fst s)) (?m, w)"
    unfolding wp_bindE by (rule wp_mono) (auto simp: wp_ret wp_case_option wp_case_prod intro: applied)
  then show ?thesis
    using assms(1) unfolding aliveNode_def Let_def
    by (intro wp_adv_lock) (simp_all add: wp_bindE [of "obj f" for f] wp_obj wp_if wp_ret advances_refl)
qed

lemma wp_adv_merge_one:
  assumes "sound K m" and "genuine_state (registered K m) s" and "pns_name s = localName m \<longrightarrow> pns_incarnation s \<noteq> UINT32_MAX"
  shows "wp (mergeNodeState e s) (\<lambda>r s. advances K m (fst s)) (m, w)"
  using assms vouched_accusable [OF assms(2) [unfolded genuine_state_def]] unfolding mergeNodeState_def
  by (auto simp: wp_if wp_bindE wp_obj wp_ret genuine_state_def advances_refl safe_def safe_alive_def
      intro!: wp_adv_aliveNode wp_adv_deadNode wp_adv_suspectNode)

lemma wp_adv_merge:
  assumes "sound K m" and "\<And>s. s \<in> set (pp_states pp) \<Longrightarrow> genuine_state (registered K m) s" and "own m \<noteq> UINT32_MAX"
  shows "wp (mergeRemoteState e pp) (\<lambda>r s. advances K m (fst s)) (m, w)"
proof -
  have last: "own m < UINT32_MAX"
    using assms(3) by (simp add: word_order.not_eq_extremum)
  have "wp (mergeNodeState e s) (\<lambda>r c'. advances K m (fst c')) c" if s: "s \<in> set (pp_states pp)" and c: "advances K m (fst c)" for s c
  proof -
    have "pns_incarnation s \<noteq> UINT32_MAX" if "pns_name s = localName m"
      using assms(2) [OF s] that last by (auto simp: genuine_state_def vouched_def registered_def)
    moreover have "localName (fst c) = localName m"
      using c by (simp add: advances_def)
    ultimately have "wp (mergeNodeState e s) (\<lambda>r c'. advances K (fst c) (fst c')) (fst c, snd c)"
      using grows_messages(2) [OF registered_grows [OF c] assms(2) [OF s]]
      by (intro wp_adv_merge_one [OF advances_sound [OF c]]) simp_all
    then show ?thesis
      by (auto elim!: wp_mono intro: advances_trans [OF c])
  qed
  then show ?thesis
    unfolding mergeRemoteState_def using assms(1) by (intro wp_forE) (simp_all add: advances_refl)
qed

lemma wp_adv_dispatch:
  assumes "sound K m" and "genuine (registered K m) b" and "own m \<noteq> UINT32_MAX"
  shows "wp (dispatch_broadcast e b) (\<lambda>r s. advances K m (fst s)) (m, w)"
proof -
  have last: "\<not> accusable (registered K m) (localName m) UINT32_MAX"
    using assms(3) by (simp add: accusable_def registered_def word_order.extremum_unique)
  then have "\<not> vouched (registered K m) (localName m) addr port UINT32_MAX" for addr port
    using vouched_accusable by blast
  note last = last this
  show ?thesis
    unfolding dispatch_broadcast_def handleAlive_def handleDead_def handleSuspect_def
    using assms(1,2) last
    by (auto simp: wp_if wp_ret genuine_def Let_def safe_def safe_alive_def advances_refl dest: vouched_accusable
        intro!: wp_adv_aliveNode wp_adv_deadNode wp_adv_suspectNode)
qed

section \<open>Leaving and updating\<close>

lemma sound_leave [simp]: "sound K (m\<lparr>leave := l\<rparr>) = sound K m" "advances K (m\<lparr>leave := l\<rparr>) m' = advances K m m'"
  "advances K m (m'\<lparr>leave := l\<rparr>) = advances K m m'" "own (m\<lparr>leave := l\<rparr>) = own m"
proof -
  show o [simp]: "own (m\<lparr>leave := l\<rparr>) = own m" for m
    by (rule own_same(1)) simp_all
  have "registered K (m\<lparr>leave := l\<rparr>) = registered K m" for m
    by (rule own_same(2)) simp_all
  then show s [simp]: "sound K (m\<lparr>leave := l\<rparr>) = sound K m" for m
    by (simp add: sound_def)
  show "advances K (m\<lparr>leave := l\<rparr>) m' = advances K m m'" "advances K m (m'\<lparr>leave := l\<rparr>) = advances K m m'"
    by (simp_all add: advances_def)
qed

lemma keeps_adv_anyAlive: "keeps (advances K m) anyAlive"
  unfolding anyAlive_def by (intro keeps_node_lock keeps_intros) simp

lemma wp_adv_Leave:
  assumes "sound K m" and "own m \<noteq> UINT32_MAX"
  shows "wp (Leave e t) (\<lambda>r s. advances K m (fst s)) (m, w)"
proof -
  let ?m = "m\<lparr>leave := True, nodeMutex := False\<rparr>"
  have rest: "wp (bindE anyAlive (\<lambda>any. if any then world (await_pipe e fd t) else ret ())) (\<lambda>r s. advances K m (fst s)) (c, w')"
    if "advances K m c" for c fd w'
    by (rule keepsD) (use that in \<open>auto intro!: keeps_intros keeps_adv_anyAlive\<close>)
  have "wp (deadNode e (genDeadBroadcast (Incarnation (heap m p)) (NName (N (heap m p))) x)) (\<lambda>r s. advances K m (fst s)) (?m, w')"
    if "nodeMap m (localName m) = Some p" for p x w'
  proof -
    have "NName (N (heap m p)) = localName m"
      using assms(1) that ml_name by (auto simp: sound_def)
    then show ?thesis
      using wp_adv_deadNode [of K ?m "genDeadBroadcast (Incarnation (heap m p)) (NName (N (heap m p))) x" e w']
        sound_accusable [of K ?m "localName m" p] assms that by simp
  qed
  note dead = wp_mono [OF this]
  show ?thesis
    unfolding Leave_def
    using assms(1)
    by (auto simp: wp_bindE [of "obj f" for f] wp_bindE [of "node_lock f" for f] wp_obj wp_if wp_ret wp_raise wp_node_lock wp_upd
        wp_thenE [of "upd f" for f] wp_thenE [of "deadNode e b" for b] wp_case_option advances_refl
        intro!: dead rest)
qed

lemma advances_counter:
  assumes "sound K m" and "incarnation m \<noteq> UINT32_MAX"
  shows "advances K m (m\<lparr>incarnation := incarnation m + 1\<rparr>)"
proof -
  have "incarnation m < incarnation m + 1"
    using assms(2) by (intro word_less_plus_one) simp
  moreover have "own (m\<lparr>incarnation := incarnation m + 1\<rparr>) = own m"
    "registered K (m\<lparr>incarnation := incarnation m + 1\<rparr>) = registered K m"
    by (rule own_same; simp)+
  ultimately show ?thesis
    using assms(1) by (auto simp: advances_def sound_def)
qed

lemma wp_adv_UpdateNode:
  assumes "sound K m" and "incarnation m \<noteq> UINT32_MAX" and "incarnation m + 1 \<noteq> UINT32_MAX"
  shows "wp (UpdateNode e t) (\<lambda>r s. advances K m (fst s)) (m, w)"
proof -
  let ?inc = "incarnation m + 1"
  have alive: "keeps (advances K m) (aliveNode e (genAliveBroadcast ?inc (localName c) addr port) False fd)"
    if c: "advances K m c" for c addr port fd
  proof (rule keepsI)
    fix c1 w assume c1: "advances K m c1"
    have "wp (aliveNode e (genAliveBroadcast ?inc (localName c) addr port) False fd) (\<lambda>r s. advances K c1 (fst s)) (c1, w)"
      using c c1 assms(3) by (intro wp_adv_aliveNode [OF advances_sound [OF c1]]) (simp add: safe_alive_def advances_def)
    then show "wp (aliveNode e (genAliveBroadcast ?inc (localName c) addr port) False fd) (\<lambda>r s. advances K m (fst s)) (c1, w)"
      by (rule wp_mono) (rule advances_trans [OF c1])
  qed
  have rest: "wp (bindE (obj id) (\<lambda>m. bindE (world (Pipe e)) (\<lambda>fds.
       thenE (aliveNode e (genAliveBroadcast ?inc (localName m) (NAddr (N (heap m p))) (ucast (NPort (N (heap m p))))) False (snd fds))
       (bindE anyAlive (\<lambda>any. if any then thenE (world (await_pipe e (fst fds) t))
          (thenE (world (Close e (fst fds))) (bindE (world (Close e (snd fds))) (\<lambda>_. ret ()))) else ret ())))))
     (\<lambda>r s. advances K m (fst s)) (c, w')" if c: "advances K m c" for c p w'
    unfolding wp_bindE [of "obj f" for f] wp_obj
    by (simp, rule keepsD) (use c alive in \<open>auto intro!: keeps_intros keeps_adv_anyAlive\<close>)
  obtain l where l: "nodeMap m (localName m) = Some l"
    using assms(1) by (rule sound_own)
  have entry: "wp local_entry Q (m, w)" if "Q (Inl Deadlock) (m, w)" "Q (Inr l) (m\<lparr>nodeMutex := False\<rparr>, w)" for Q
    using that l by (simp add: local_entry_def wp_simps)
  show ?thesis
    unfolding UpdateNode_def nextIncarnation_def wp_bindE [of local_entry]
    using assms(1) advances_counter [of K "m\<lparr>nodeMutex := False\<rparr>"] assms(2)
    by (intro entry) (auto simp: wp_bindE [of "thenE f g" for f g] wp_upd wp_obj wp_raise wp_thenE [of "upd f" for f] wp_if
        advances_refl intro!: rest)
qed

section \<open>What a node says\<close>

text \<open>
  A gossip packet holds only what was queued. The search of \<^verbatim>\<open>GetBroadcasts\<close> finds an item whenever
  its two bounds differ.
\<close>

lemma tier_cur_mem:
  assumes "i < 2 ^ 31" and "lower_bound lb_less (search_lo i free) items \<noteq> upper_bound lb_less (search_up i) items"
  shows "items ! lower_bound lb_less (search_lo i free) items \<in> set items"
proof -
  let ?lo = "lower_bound lb_less (search_lo i free) items"
  have "?lo \<noteq> length items"
  proof
    assume "?lo = length items"
    then have lo: "\<forall>x \<in> set items. lb_less x (search_lo i free)"
      unfolding lower_bound_def by (metis (no_types) set_takeWhileD takeWhile_eq_all_conv takeWhile_eq_take take_all_iff le_refl)
    have "i < i + 1"
      using assms(1) by (intro word_less_plus_one) auto
    then have "\<not> lb_less (search_up i) x" if "lb_less x (search_lo i free)" for x
      using that by (auto simp: lb_less_def search_lo_def search_up_def split: if_splits)
    then have "upper_bound lb_less (search_up i) items = length items"
      using lo by (simp add: upper_bound_def takeWhile_eq_all_conv [THEN iffD2])
    with assms(2) \<open>?lo = length items\<close> show False
      by simp
  qed
  then show ?thesis
    using lb.lower_bound_le [of "search_lo i free" items] by (intro nth_mem) simp
qed

text \<open>The local variables of the loops hold messages of the queue, too.\<close>

definition drawn :: "Broadcast set \<Rightarrow> gb_locals \<Rightarrow> bool" where
  "drawn S l \<longleftrightarrow> set (cbc_bs (gb_cbc l)) \<subseteq> S \<and> (\<lambda>x. mb_msg (lb_b x)) ` set (reinsert l) \<subseteq> S"

lemma drawn_simps [simp]:
  "drawn S (l\<lparr>haveMsg := h, gb_cbc := addBroadCast (gb_cbc l) b, bytesUsed := n\<rparr>) \<longleftrightarrow> drawn S l \<and> b \<in> S"
  "drawn S (l\<lparr>haveMsg := h, gb_cbc := addBroadCast (gb_cbc l) b, bytesUsed := n, reinsert := reinsert l @ [x]\<rparr>) \<longleftrightarrow>
     drawn S l \<and> b \<in> S \<and> mb_msg (lb_b x) \<in> S"
  by (auto simp: drawn_def addBroadCast_def)

lemma wp_tier_drawn:
  assumes "i < 2 ^ 31" and "messages q \<subseteq> S" and "drawn S l"
  shows "wp (tier_loop fuel e oh cap tr i l)
     (\<lambda>r s. messages (fst s) \<subseteq> S \<and> (\<forall>f l'. r = Inr (f, l') \<longrightarrow> drawn S l')) (q, w)"
  using assms(2,3)
proof (induction fuel arbitrary: q l w)
  case 0
  then show ?case by (simp add: wp_raise)
next
  case (Suc fuel)
  let ?free = "cap - oh - bytesUsed l"
  let ?cur = "tq q ! lower_bound lb_less (search_lo i ?free) (tq q)"
  let ?Q = "\<lambda>r s. messages (fst s) \<subseteq> S \<and> (\<forall>f l'. r = Inr (f, l') \<longrightarrow> drawn S l')"
  have "wp (thenE (deleteItem e ?cur)
      (let l1 = l\<lparr>haveMsg := True, gb_cbc := addBroadCast (gb_cbc l) (mb_msg (lb_b ?cur)), bytesUsed := bytesUsed l + msgLen ?cur\<rparr>;
           cur1 = ?cur\<lparr>transmits := transmits ?cur + 1\<rparr>
       in if transmits cur1 \<ge> tr then thenE (world (Finished e (lb_b cur1))) (tier_loop fuel e oh cap tr i l1)
          else tier_loop fuel e oh cap tr i (l1\<lparr>reinsert := reinsert l1 @ [cur1]\<rparr>))) ?Q (q, w)"
    if ne: "lower_bound lb_less (search_lo i ?free) (tq q) \<noteq> upper_bound lb_less (search_up i) (tq q)"
  proof -
    have cur: "mb_msg (lb_b ?cur) \<in> S"
      using tier_cur_mem [OF assms(1) ne] Suc.prems(1) by (auto simp: messages_def)
    have "wp (deleteItem e ?cur) (\<lambda>r s. messages (fst s) \<subseteq> S) (q, w)"
      by (rule keepsD [OF keeps_messages_delete]) (simp add: Suc.prems(1))
    then show ?thesis
      unfolding wp_thenE [of "deleteItem e x" for x]
      using cur Suc.prems(2)
      by (elim wp_mono) (auto simp: wp_simps Finished_def Write_def intro!: Suc.IH)
  qed
  then show ?case
    using Suc.prems unfolding tier_loop.simps Let_def
    by (simp add: wp_if wp_ret wp_bindE [of "obj f" for f] wp_obj Let_def)
qed

lemma wp_tiers_drawn:
  assumes "\<And>i. i \<in> set is \<Longrightarrow> i < 2 ^ 31" and "messages q \<subseteq> S" and "drawn S l"
  shows "wp (tiers_loop is fuel e oh cap tr l)
     (\<lambda>r s. messages (fst s) \<subseteq> S \<and> (\<forall>l'. r = Inr l' \<longrightarrow> drawn S l')) (q, w)"
  using assms
proof (induction "is" arbitrary: q l w)
  case Nil
  then show ?case by (simp add: wp_ret)
next
  case (Cons i "is")
  then have "wp (tier_loop fuel e oh cap tr i l)
     (\<lambda>r s. messages (fst s) \<subseteq> S \<and> (\<forall>f l'. r = Inr (f, l') \<longrightarrow> drawn S l')) (q, w)"
    by (intro wp_tier_drawn) simp_all
  then show ?case
    unfolding tiers_loop.simps wp_bindE
    using Cons by (elim wp_mono) (auto simp: wp_simps)
qed

lemma wp_GetBroadcasts_drawn:
  assumes "messages q \<subseteq> S" and "set (cbc_bs cbc) \<subseteq> S"
  shows "wp (GetBroadcasts e n oh cap cbc)
     (\<lambda>r s. messages (fst s) \<subseteq> S \<and> (\<forall>b cbc'. r = Inr (b, cbc') \<longrightarrow> set (cbc_bs cbc') \<subseteq> S)) (q, w)"
proof -
  have reinserted: "wp (forE xs (\<lambda>x. upd (addItem x))) (\<lambda>r s. messages (fst s) \<subseteq> S) s"
    if "messages (fst s) \<subseteq> S" "(\<lambda>x. mb_msg (lb_b x)) ` set xs \<subseteq> S" for xs s
    using that by (intro wp_forE)
      (auto simp: wp_upd messages_def addItem_def dest!: subsetD [OF lb.set_insert_subset])
  have small: "j < 2 ^ 31" if "j \<in> set (tier_range a b)" "\<not> 2 ^ 31 - 1 \<le> unat b" for j a b
    using that by (simp add: set_tier_range word_le_nat_alt word_less_nat_alt)
  show ?thesis
    unfolding GetBroadcasts_def
    using assms
    by (auto simp: wp_simps Let_def split: sum.split
        intro!: wp_mono [OF wp_tiers_drawn [where S = S]] small wp_mono [OF reinserted])
      (auto simp: drawn_def)
qed

lemma wp_adv_getBroadcasts:
  assumes "sound K m"
  shows "wp (getBroadcasts e oh cap ComBroadcast0)
     (\<lambda>r s. advances K m (fst s) \<and> (\<forall>b cbc. r = Inr (b, cbc) \<longrightarrow> set (cbc_bs cbc) \<subseteq> queued m)) (m, w)"
proof -
  have adv: "advances K m (m\<lparr>TransmitLimitedQueue := q\<rparr>)" if "messages q \<subseteq> queued m" for q
    using that by (intro advances_quiet [OF assms, of _ "{}"]) simp_all
  show ?thesis
    unfolding getBroadcasts_def on_queue_def wp_bindE wp_obj wp_zoom
    by (simp, rule wp_mono [OF wp_GetBroadcasts_drawn [where S = "queued m"]]) (auto simp: ComBroadcast0_def intro: adv)
qed

lemma local_state_genuine:
  assumes "sound K m" and "s \<in> set (pp_states (md_pushpull (local_state j m)))"
  shows "genuine_state (registered K m) s"
proof -
  obtain p where p: "p \<in> set (nodes m)" "s = wire_state (heap m p)"
    using assms(2) by (auto simp: local_state_message)
  then have "nodeMap m (NName (N (heap m p))) = Some p"
    using assms(1) ml_mapped by (auto simp: sound_def)
  from sound_record [OF assms(1) this] show ?thesis
    by (auto simp: p(2) genuine_state_def on_record_def vouched_def wire_state_def split: option.splits)
qed

end
