(* ===== verification/Refutation.thy ===== *)
theory Refutation
  imports NodeTable
begin

text \<open>
  What refuting is for: the alive message an accused node answers with outranks the accusation
  on every other node. The two nodes have object and platform of their own.
\<close>

section \<open>An alive message about a node that is known\<close>

text \<open>
  It revives the node when it is newer than what is on record: alive with the incarnation of the
  message, its suspicion ended, and the message queued for gossip; nothing else changes.
\<close>

lemma aliveNode_run:
  assumes "\<not> nodeMutex m" and "0 < bq_room (TransmitLimitedQueue m)"
    and "nodeMap m n = Some p" and "n \<noteq> localName m" and "NName (N (heap m p)) = n"
    and "Incarnation (heap m p) < inc" and "silent n m" and "erasable n m"
  shows "wp (aliveNode e (genAliveBroadcast inc n (NAddr (N (heap m p))) (ucast (NPort (N (heap m p))))) False (-1))
     (\<lambda>r s. r = Inr () \<and> (\<exists>now.
        heap (fst s) = (heap m)(p := (heap m p)\<lparr>Incarnation := inc, State := StateAlive,
          StateChange := (if State (heap m p) = StateAlive then StateChange (heap m p) else now)\<rparr>) \<and>
        nodes (fst s) = nodes m \<and> nodeMap (fst s) = nodeMap m \<and> map_of (nodeTimers (fst s)) n = None \<and>
        bq_pending (TransmitLimitedQueue (fst s)) n =
          Some \<lparr>mb_node = n, mb_msg = genAliveBroadcast inc n (NAddr (N (heap m p))) (ucast (NPort (N (heap m p)))),
            mb_notifyFd = -1\<rparr>)) (m, w)"
proof -
  have g: "genAliveBroadcast' (getAlive inc n addr port) = genAliveBroadcast inc n addr port" for addr port
    by (simp add: gen_broadcast_defs getAlive_def)
  have nl: "\<not> inc \<le> Incarnation (heap m p)"
    using assms(6) by simp
  show ?thesis
    using assms nl
    apply (simp add: aliveNode_def alive_lookup_def alive_apply_def set_node_def now_us_def wp_simps Let_def g)
    apply (intro impI wp_erase_timer_gone)
     apply simp_all
    apply (rule wp_BroadcastNotify_pending)
      apply (auto simp: ucast_port delete_conv' fun_eq_iff)
    done
qed

section \<open>Two nodes\<close>

text \<open>
  The accused node, alive in its own table, can answer; the other node has it on record, under the
  same address, with an incarnation the accusation does not exceed.
\<close>

definition can_answer :: "memberlist \<Rightarrow> nat \<Rightarrow> uint32 \<Rightarrow> bool" where
  "can_answer m p inc \<longleftrightarrow> \<not> nodeMutex m \<and> 0 < bq_room (TransmitLimitedQueue m) \<and> \<not> leave m \<and>
     nodeMap m (localName m) = Some p \<and> NName (N (heap m p)) = localName m \<and> State (heap m p) = StateAlive \<and>
     Incarnation (heap m p) \<le> inc \<and> map_of (nodeTimers m) (localName m) = None \<and> silent (localName m) m"

definition has_on_record :: "Node \<Rightarrow> memberlist \<Rightarrow> nat \<Rightarrow> uint32 \<Rightarrow> bool" where
  "has_on_record nd m p inc \<longleftrightarrow> \<not> nodeMutex m \<and> 0 < bq_room (TransmitLimitedQueue m) \<and>
     nodeMap m (NName nd) = Some p \<and> NName nd \<noteq> localName m \<and> N (heap m p) = nd \<and>
     Incarnation (heap m p) \<le> inc \<and> silent (NName nd) m \<and> erasable (NName nd) m"

text \<open>
  What an accused node queues is an alive message with an incarnation above the accused one, and it
  makes the node alive again wherever an incarnation up to the accused one is on record.
\<close>

lemma refutation_sent:
  assumes "can_answer ma pa inc" and "inc \<noteq> UINT32_MAX" and "has_on_record (N (heap ma pa)) mb pb inc"
    and "b = genSuspectBroadcast inc (localName ma) from \<and> h = suspectNode ea b \<or>
         b = genDeadBroadcast inc (localName ma) from \<and> h = deadNode ea b"
  shows "wp h (\<lambda>r sa. r = Inr () \<and>
     (\<exists>bc. bq_pending (TransmitLimitedQueue (fst sa)) (localName ma) = Some bc \<and>
        (\<exists>inc' addr port. mb_msg bc = genAliveBroadcast inc' (localName ma) addr port \<and> inc < inc') \<and>
        (\<forall>wb. wp (aliveNode eb (mb_msg bc) False (-1)) (\<lambda>r sb. r = Inr () \<and>
           State (heap (fst sb) pb) = StateAlive \<and> inc < Incarnation (heap (fst sb) pb) \<and>
           map_of (nodeTimers (fst sb)) (localName ma) = None) (mb, wb)))) (ma, wa)"
proof -
  note a = assms(1) [unfolded can_answer_def] and b = assms(3) [unfolded has_on_record_def]
  have "wp h (\<lambda>r s. r = Inr () \<and> State (heap (fst s) pa) = StateAlive \<and> inc < Incarnation (heap (fst s) pa) \<and>
     bq_pending (TransmitLimitedQueue (fst s)) (localName ma) =
       Some \<lparr>mb_node = localName ma, mb_msg = genAliveBroadcast (Incarnation (heap (fst s) pa)) (localName ma)
               (NAddr (N (heap ma pa))) (ucast (NPort (N (heap ma pa)))), mb_notifyFd = -1\<rparr>) (ma, wa)"
    using a assms(2,4) by (intro accusation_answered) auto
  moreover have "wp (aliveNode eb (genAliveBroadcast inc' (localName ma) (NAddr (N (heap ma pa)))
       (ucast (NPort (N (heap ma pa))))) False (-1))
     (\<lambda>r sb. r = Inr () \<and> State (heap (fst sb) pb) = StateAlive \<and> inc < Incarnation (heap (fst sb) pb) \<and>
        map_of (nodeTimers (fst sb)) (localName ma) = None) (mb, wb)" if "inc < inc'" for inc' wb
  proof -
    have "Incarnation (heap mb pb) < inc'"
      using b that by (auto intro: le_less_trans)
    then show ?thesis
      using aliveNode_run [of mb "localName ma" pb inc' eb wb] a b that by (auto elim!: wp_mono)
  qed
  ultimately show ?thesis
    by (auto elim!: wp_mono) blast
qed

end
