(* ===== verification/Cluster.thy ===== *)
theory Cluster
  imports Claims Runs Refutation
begin

text \<open>
  A cluster: several member lists and what they have said to one another. The network may lose,
  delay, reorder and repeat messages, but it forges none. A node acts by the operations of the
  program: it takes in a broadcast or a whole state that some node has sent, suspects a node of
  its table, lets a suspicion time out, updates its own entry, leaves, gossips and shows its
  state; it may stop for good at any moment. What a message goes through between
  \<^verbatim>\<open>SerializeToString\<close> and \<^verbatim>\<open>ParseFromString\<close>, and the stacks between the listeners and the
  handlers, are subjects of their own (\<^verbatim>\<open>WireRoundtrip\<close>, \<^verbatim>\<open>Reception\<close>): here a
  message is the decoded one. Names are not reused.
\<close>

section \<open>The cluster\<close>

text \<open>\<open>up\<close> are the nodes that still run; \<open>said\<close> and \<open>shown\<close> grow with everything ever sent.\<close>

record cluster =
  member :: "string \<rightharpoonup> memberlist"
  up :: "string set"
  said :: "Broadcast set"
  shown :: "PushPull set"

definition nobody :: cluster where
  "nobody = \<lparr>member = Map.empty, up = {}, said = {}, shown = {}\<rparr>"

datatype deed =
    Hears Broadcast
  | Merges PushPull
  | Accuses string uint32
  | TimesOut suspicionTask
  | Updates int
  | Leaves int

fun perform :: "('w, 'e) env_scheme \<Rightarrow> string \<Rightarrow> deed \<Rightarrow> ('w, unit) mprog" where
  "perform e n (Hears b) = dispatch_broadcast e b"
| "perform e n (Merges pp) = mergeRemoteState e pp"
| "perform e n (Accuses x i) = suspectNode e (genSuspectBroadcast i x n)"
| "perform e n (TimesOut f) = suspicion_callback e f"
| "perform e n (Updates t) = UpdateNode e t"
| "perform e n (Leaves t) = Leave e t"

text \<open>
  A probe reads the entry it probes before it waits and accuses it at the incarnation it read,
  which the entry may have passed by then.
\<close>

fun possible :: "cluster \<Rightarrow> memberlist \<Rightarrow> deed \<Rightarrow> bool" where
  "possible c m (Hears b) = (b \<in> said c)"
| "possible c m (Merges pp) = (pp \<in> shown c)"
| "possible c m (Accuses x i) = (case nodeMap m x of None \<Rightarrow> False | Some p \<Rightarrow> i \<le> Incarnation (heap m p))"
| "possible c m d = True"

text \<open>The operations wrap around at the end of the incarnation numbers; a node that near it no longer acts.\<close>

definition counting :: "memberlist \<Rightarrow> bool" where
  "counting m \<longleftrightarrow> incarnation m < UINT32_MAX - 1"

text \<open>
  When a deed leaves its node running. An exchange of states catches the exceptions of the system calls
  (the loop of \<^verbatim>\<open>Join\<close>, \<^verbatim>\<open>pushPull\<close>), and the caller of a public operation may catch them and those of the
  library; what the listeners' and the timers' threads throw ends the program. A caller that
  catches nothing is the step \<open>stops\<close>, which may always follow.
\<close>

fun outlives :: "deed \<Rightarrow> exn + unit \<Rightarrow> bool" where
  "outlives d (Inr _) = True"
| "outlives (Merges pp) (Inl x) = (case x of WrapException n \<Rightarrow> True | StdException s \<Rightarrow> True | _ \<Rightarrow> False)"
| "outlives (Updates t) (Inl x) = (case x of WrapException n \<Rightarrow> True | StdException s \<Rightarrow> True | _ \<Rightarrow> False)"
| "outlives (Leaves t) (Inl x) = (case x of WrapException n \<Rightarrow> True | StdException s \<Rightarrow> True | _ \<Rightarrow> False)"
| "outlives d (Inl x) = False"

definition acted :: "string \<Rightarrow> memberlist \<Rightarrow> bool \<Rightarrow> cluster \<Rightarrow> cluster" where
  "acted n m runs c = c\<lparr>member := (member c)(n \<mapsto> m), up := (if runs then up c else up c - {n})\<rparr>"

inductive cluster_step :: "('w, 'e) env_scheme \<Rightarrow> cluster \<Rightarrow> cluster \<Rightarrow> bool" for e where
  starts: "member c (Name cf) = None \<Longrightarrow> memberlist_ctor e cf (memberlist0 cf, w) = (Inr (), (m, w')) \<Longrightarrow>
     cluster_step e c (c\<lparr>member := (member c)(Name cf \<mapsto> m), up := insert (Name cf) (up c)\<rparr>)"
| acts: "n \<in> up c \<Longrightarrow> member c n = Some m \<Longrightarrow> counting m \<Longrightarrow> possible c m d \<Longrightarrow>
     perform e n d (m, w) = (r, (m', w')) \<Longrightarrow> cluster_step e c (acted n m' (outlives d r) c)"
| gossips: "n \<in> up c \<Longrightarrow> member c n = Some m \<Longrightarrow>
     getBroadcasts e oh cap ComBroadcast0 (m, w) = (Inr (some, cbc), (m', w')) \<Longrightarrow>
     cluster_step e c ((acted n m' True c)\<lparr>said := said c \<union> set (cbc_bs cbc)\<rparr>)"
| shows_state: "n \<in> up c \<Longrightarrow> member c n = Some m \<Longrightarrow>
     cluster_step e c (c\<lparr>shown := insert (md_pushpull (local_state j m)) (shown c)\<rparr>)"
| stops: "cluster_step e c (c\<lparr>up := up c - {n}\<rparr>)"

inductive network :: "('w, 'e) env_scheme \<Rightarrow> cluster \<Rightarrow> bool" for e where
  nobody: "network e nobody"
| moves: "network e c \<Longrightarrow> cluster_step e c c' \<Longrightarrow> network e c'"

section \<open>Every claim in the cluster is vouched for\<close>

definition roster :: "cluster \<Rightarrow> register" where
  "roster c n = map_option (\<lambda>m. (advertised (config m), own m)) (member c n)"

definition authentic :: "cluster \<Rightarrow> bool" where
  "authentic c \<longleftrightarrow>
     (\<forall>n m. member c n = Some m \<longrightarrow> localName m = n \<and> sound (roster c) m) \<and>
     (\<forall>b \<in> said c. genuine (roster c) b) \<and>
     (\<forall>pp \<in> shown c. \<forall>s \<in> set (pp_states pp). genuine_state (roster c) s)"

lemma registered_roster: "member c (localName m) = Some m \<Longrightarrow> registered (roster c) m = roster c"
  by (auto simp: registered_def roster_def fun_eq_iff)

lemma sound_grows:
  assumes "sound K m" and "grows K K'"
  shows "sound K' m"
proof -
  have "grows (registered K m) (registered K' m)"
    using assms(2) by (simp add: registered_def grows_upd)
  then show ?thesis
    using assms(1) grows_claims(3) grows_messages(1) unfolding sound_def by blast
qed

lemma sound_registered: "sound (registered K m) m = sound K m"
proof -
  have "registered (registered K m) m = registered K m"
    by (simp add: registered_def)
  then show ?thesis
    by (simp add: sound_def)
qed

text \<open>One member takes the place of what it was, or of nothing.\<close>

lemma authentic_member:
  fixes u :: "string set"
  assumes c: "authentic c" and m: "sound (roster c) m"
    and old: "\<And>m0. member c (localName m) = Some m0 \<Longrightarrow> config m0 = config m \<and> own m0 \<le> own m"
  defines "c' \<equiv> c\<lparr>member := (member c)(localName m \<mapsto> m), up := u\<rparr>"
  shows "authentic c'" and "grows (roster c) (roster c')" and "roster c' = registered (roster c) m"
proof -
  show r: "roster c' = registered (roster c) m"
    by (auto simp: c'_def roster_def registered_def fun_eq_iff)
  show g: "grows (roster c) (roster c')"
    unfolding r grows_def registered_def using old by (auto simp: roster_def)
  have "sound (roster c') m"
    using m by (simp add: r sound_registered)
  then show "authentic c'"
    using c sound_grows [OF _ g] grows_messages [OF g] by (auto simp: authentic_def c'_def)
qed

lemma authentic_advances:
  assumes "authentic c" and "member c n = Some m" and "advances (roster c) m m'"
  shows "authentic (acted n m' r c)" and "grows (roster c) (roster (acted n m' r c))"
    and "roster (acted n m' r c) = registered (roster c) m'"
proof -
  have n: "localName m' = n" "sound (roster c) m'" "config m = config m'" "own m \<le> own m'"
    using assms by (auto simp: authentic_def advances_def)
  then have "config m0 = config m' \<and> own m0 \<le> own m'" if "member c (localName m') = Some m0" for m0
    using that assms(2) by simp
  from authentic_member [OF assms(1) n(2) this, of "if r then up c else up c - {n}"] n(1)
  show "authentic (acted n m' r c)" "grows (roster c) (roster (acted n m' r c))"
    "roster (acted n m' r c) = registered (roster c) m'"
    by (simp_all add: acted_def)
qed

text \<open>A node that starts claims only itself.\<close>

lemma born_sound:
  assumes "born c m"
  shows "config m = c" and "own m = 1" and "sound K m"
proof -
  have b: "ml_inv m" "config m = c" "nodeMap m = [Name c \<mapsto> 1]" "Incarnation (heap m 1) = 1" "N (heap m 1) = advertised c"
    "incarnation m = 1" "bq_inv (TransmitLimitedQueue m)"
    "bq_pending (TransmitLimitedQueue m) = [Name c \<mapsto> \<lparr>mb_node = Name c,
       mb_msg = genAliveBroadcast 1 (Name c) (AdvertiseAddr c) (ucast (AdvertisePort c)), mb_notifyFd = -1\<rparr>]"
    using assms by (auto simp: born_def ml_ok_def history_def first_node_def advertised_def bq_room_def split: if_splits)
  show "config m = c" by (rule b(2))
  show own: "own m = 1"
    using b(2-4) by (simp add: own_def)
  have "lb_b x = \<lparr>mb_node = Name c, mb_msg = genAliveBroadcast 1 (Name c) (AdvertiseAddr c) (ucast (AdvertisePort c)), mb_notifyFd = -1\<rparr>"
    if "x \<in> set (tq (TransmitLimitedQueue m))" for x
    using bq_pending_unique [OF b(7), of "lb_name x" "lb_b x"] that b(8) by (auto split: if_splits)
  then have "genuine (registered K m) y" if "y \<in> queued m" for y
    using that b(2) own by (auto simp: messages_def registered_def vouched_def advertised_def)
  moreover have "on_record (registered K m) (heap m p)" if "nodeMap m x = Some p" for x p
    using that b own by (auto simp: on_record_def registered_def advertised_def split: if_splits)
  ultimately show "sound K m"
    using b own by (simp add: sound_def)
qed

lemma start_sound:
  assumes "memberlist_ctor e c (memberlist0 c, w) = (Inr (), (m, w'))"
  shows "config m = c" and "sound K m"
  using born_sound [OF start_born [OF assms]] by simp_all

text \<open>What the node's deeds do to it.\<close>

lemma counting_room:
  assumes "i < UINT32_MAX - 1" and "j \<le> i"
  shows "j \<noteq> UINT32_MAX" and "i + 1 \<noteq> UINT32_MAX"
proof -
  show "j \<noteq> UINT32_MAX"
    using assms by (auto simp: word_order.extremum_unique)
  show "i + 1 \<noteq> UINT32_MAX"
    using assms(1) by (metis add_diff_cancel_right' less_irrefl)
qed

lemma deed_advances:
  assumes "authentic c" and "member c n = Some m" and "counting m" and "possible c m d"
    and "perform e n d (m, w) = (r, (m', w'))"
  shows "advances (roster c) m m'"
proof -
  have m: "localName m = n" "sound (roster c) m"
    using assms(1,2) by (simp_all add: authentic_def)
  then have r: "registered (roster c) m = roster c"
    using assms(2) by (intro registered_roster) simp
  have "own m \<le> incarnation m" "incarnation m < UINT32_MAX - 1"
    using m(2) assms(3) by (simp_all add: sound_def counting_def)
  then have room: "own m \<noteq> UINT32_MAX" "incarnation m \<noteq> UINT32_MAX" "incarnation m + 1 \<noteq> UINT32_MAX"
    using counting_room by blast+
  have "wp (perform e n d) (\<lambda>r s. advances (roster c) m (fst s)) (m, w)"
  proof (cases d)
    case (Accuses x i)
    then show ?thesis
      using assms(4) sound_accusable [OF m(2) _ _ room(1), of x _ i]
        wp_adv_suspectNode [OF m(2), of "genSuspectBroadcast i x n" e w]
      by (auto split: option.splits)
  qed (use assms(1,4) m(2) room r in \<open>auto simp: authentic_def intro!: wp_adv_dispatch wp_adv_merge wp_adv_callback
      wp_adv_UpdateNode wp_adv_Leave\<close>)
  from wp_run [OF this assms(5)] show ?thesis
    by simp
qed

lemma authentic_more:
  "authentic c \<Longrightarrow> (\<And>b. b \<in> B \<Longrightarrow> genuine (roster c) b) \<Longrightarrow> authentic (c\<lparr>said := said c \<union> B\<rparr>)"
  "authentic c \<Longrightarrow> (\<And>s. s \<in> set (pp_states pp) \<Longrightarrow> genuine_state (roster c) s) \<Longrightarrow>
   authentic (c\<lparr>shown := insert pp (shown c)\<rparr>)"
  "authentic c \<Longrightarrow> authentic (c\<lparr>up := U\<rparr>)"
proof -
  have "roster (c\<lparr>said := B\<rparr>) = roster c" "roster (c\<lparr>shown := P\<rparr>) = roster c" "roster (c\<lparr>up := U\<rparr>) = roster c" for B P U
    by (simp_all add: roster_def fun_eq_iff)
  then show "authentic c \<Longrightarrow> (\<And>b. b \<in> B \<Longrightarrow> genuine (roster c) b) \<Longrightarrow> authentic (c\<lparr>said := said c \<union> B\<rparr>)"
    "authentic c \<Longrightarrow> (\<And>s. s \<in> set (pp_states pp) \<Longrightarrow> genuine_state (roster c) s) \<Longrightarrow>
     authentic (c\<lparr>shown := insert pp (shown c)\<rparr>)"
    "authentic c \<Longrightarrow> authentic (c\<lparr>up := U\<rparr>)"
    by (auto simp: authentic_def)
qed

lemma step_authentic:
  assumes "authentic c" and "cluster_step e c c'"
  shows "authentic c'"
  using assms(2)
proof cases
  case (starts cf w m w')
  then show ?thesis
    using assms(1) start_sound [OF starts(3)] authentic_member(1) [of c m] by auto
next
  case (acts n m d w r m' w')
  show ?thesis
    unfolding acts(1) by (rule authentic_advances(1) [OF assms(1) acts(3) deed_advances [OF assms(1) acts(3,4,5,6)]])
next
  case (gossips n m oh cap w some cbc m' w')
  have m: "localName m = n" "sound (roster c) m"
    using assms(1) gossips by (simp_all add: authentic_def)
  note ran = wp_run [OF wp_adv_getBroadcasts [OF m(2)] gossips(4), simplified]
  note adv = authentic_advances [OF assms(1) gossips(3) conjunct1 [OF ran], where r = True]
  have "genuine (roster c) b" if "b \<in> queued m" for b
    using m that gossips(3) registered_roster [of c m] by (simp add: sound_def)
  then have "genuine (roster (acted n m' True c)) b" if "b \<in> set (cbc_bs cbc)" for b
    using ran grows_messages(1) [OF adv(2)] that by blast
  from authentic_more(1) [OF adv(1) this] show ?thesis
    by (simp add: gossips(1) acted_def)
next
  case (shows_state n m j)
  have m: "localName m = n" "sound (roster c) m"
    using assms(1) shows_state by (simp_all add: authentic_def)
  then show ?thesis
    using assms(1) shows_state local_state_genuine [OF m(2)] registered_roster [of c m] by (auto intro: authentic_more)
next
  case (stops n)
  then show ?thesis using assms(1) by (simp add: authentic_more)
qed

lemma network_authentic: "network e c \<Longrightarrow> authentic c"
  by (induction rule: network.induct) (simp add: authentic_def nobody_def, rule step_authentic)

section \<open>What no node can say of another\<close>

text \<open>The entry a node keeps for itself.\<close>

lemma network_member:
  assumes "network e c" and "member c n = Some m"
  obtains p where "localName m = n" "nodeMap m n = Some p" "Incarnation (heap m p) = own m" "N (heap m p) = advertised (config m)"
    "ml_inv m" "sound (roster c) m" "registered (roster c) m = roster c"
proof -
  have m: "localName m = n" "sound (roster c) m"
    using network_authentic [OF assms(1)] assms(2) by (simp_all add: authentic_def)
  obtain p where "nodeMap m (localName m) = Some p" "own m = Incarnation (heap m p)" "N (heap m p) = advertised (config m)"
    using m(2) by (rule sound_own)
  then show thesis
    using m registered_roster [of c m] assms(2) by (intro that) (simp_all add: sound_def)
qed

lemma network_record:
  assumes "network e c" and "member c n = Some m" and "nodeMap m x = Some p"
  obtains mx where "member c x = Some mx" "N (heap m p) = advertised (config mx)" "Incarnation (heap m p) \<le> own mx"
proof -
  obtain l where m: "sound (roster c) m" "registered (roster c) m = roster c" "ml_inv m"
    using assms(1,2) by (rule network_member)
  then have "on_record (roster c) (heap m p)" "NName (N (heap m p)) = x"
    using sound_record [OF m(1) assms(3)] assms(3) ml_name by auto
  then show thesis
    by (auto simp: on_record_def roster_def split: option.splits intro: that)
qed

text \<open>
  C3. No node of a cluster ever has anything of another on record that the other has not said
  of itself. Whatever was lost, delayed, reordered or repeated on the way and however many nodes
  have stopped: a node in some table is a member of the cluster, under the address it
  advertises, and with an incarnation it has reached in its own table.
\<close>

theorem nothing_invented:
  assumes "network e c" and "member c n = Some m" and "nodeMap m x = Some p"
  shows "\<exists>mx px. member c x = Some mx \<and> nodeMap mx x = Some px \<and> N (heap m p) = N (heap mx px) \<and>
     N (heap m p) = \<lparr>NName = x, NAddr = AdvertiseAddr (config mx), NPort = AdvertisePort (config mx)\<rparr> \<and>
     Incarnation (heap m p) \<le> Incarnation (heap mx px)"
proof -
  obtain mx where mx: "member c x = Some mx" "N (heap m p) = advertised (config mx)" "Incarnation (heap m p) \<le> own mx"
    using assms by (rule network_record)
  obtain px where "localName mx = x" "nodeMap mx x = Some px" "Incarnation (heap mx px) = own mx"
    "N (heap mx px) = advertised (config mx)"
    using assms(1) mx(1) by (rule network_member)
  then show ?thesis
    using mx by (auto simp: advertised_def)
qed

section \<open>A refutation outranks every record\<close>

lemma dispatch_gen:
  "dispatch_broadcast e (genSuspectBroadcast i x f) = suspectNode e (genSuspectBroadcast i x f)"
  "dispatch_broadcast e (genDeadBroadcast i x f) = deadNode e (genDeadBroadcast i x f)"
  "dispatch_broadcast e (genAliveBroadcast i x a p) = aliveNode e (genAliveBroadcast i x a p) False (-1)"
  by (simp_all add: dispatch_broadcast_def handleSuspect_def handleDead_def handleAlive_def)

text \<open>What a node must be able to do locally to answer, and to take the answer in.\<close>

definition can_refute :: "memberlist \<Rightarrow> bool" where
  "can_refute m \<longleftrightarrow> \<not> nodeMutex m \<and> 0 < bq_room (TransmitLimitedQueue m) \<and> \<not> leave m \<and> local_alive m \<and>
     map_of (nodeTimers m) (localName m) = None \<and> silent (localName m) m"

definition can_learn :: "string \<Rightarrow> memberlist \<Rightarrow> bool" where
  "can_learn x m \<longleftrightarrow> \<not> nodeMutex m \<and> 0 < bq_room (TransmitLimitedQueue m) \<and> silent x m \<and> erasable x m"

text \<open>
  C4. A refutation prevails in the whole cluster. When a node is accused, by a suspect or a dead
  message with an incarnation that is not older than its own, the answer it queues makes it alive
  again on every other node that has it on record, without a suspicion and with a higher
  incarnation than before, in whatever state that node had it and whatever it has missed or heard
  in the wrong order. The exception is an accusation at the largest incarnation.
\<close>

theorem refutation_prevails:
  assumes "network e c" and "member c x = Some mx" and "can_refute mx" and "own mx \<le> i" and "i \<noteq> UINT32_MAX"
    and "b = genSuspectBroadcast i x from \<or> b = genDeadBroadcast i x from"
    and "member c n = Some m" and "n \<noteq> x" and "nodeMap m x = Some p" and "can_learn x m"
  shows "wp (dispatch_broadcast e b) (\<lambda>r s. r = Inr () \<and>
     (\<exists>bc. bq_pending (TransmitLimitedQueue (fst s)) x = Some bc \<and>
        (\<forall>w'. wp (dispatch_broadcast e (mb_msg bc)) (\<lambda>r' s'. r' = Inr () \<and> State (heap (fst s') p) = StateAlive \<and>
           Incarnation (heap m p) < Incarnation (heap (fst s') p) \<and>
           map_of (nodeTimers (fst s')) x = None) (m, w')))) (mx, w)"
proof -
  obtain px where px: "localName mx = x" "nodeMap mx x = Some px" "Incarnation (heap mx px) = own mx"
    "N (heap mx px) = advertised (config mx)"
    using assms(1,2) by (rule network_member)
  have rec: "N (heap m p) = advertised (config mx)" "Incarnation (heap m p) \<le> own mx"
    using assms(1,7,9) by (rule network_record; use assms(2) in simp)+
  have n: "localName m = n"
    using assms(1,7) by (rule network_member)
  have answer: "can_answer mx px i"
    using assms(3,4) px by (simp add: can_refute_def can_answer_def local_alive_def advertised_def)
  have held: "has_on_record (N (heap mx px)) m p i"
    using assms(4,8,9,10) px rec n by (auto simp: has_on_record_def can_learn_def advertised_def)
  let ?h = "if b = genSuspectBroadcast i x from then suspectNode e b else deadNode e b"
  have kind: "b = genSuspectBroadcast i (localName mx) from \<and> ?h = suspectNode e b \<or>
      b = genDeadBroadcast i (localName mx) from \<and> ?h = deadNode e b"
    using assms(6) px(1) by auto
  have "dispatch_broadcast e b = ?h"
    using assms(6) by (auto simp: dispatch_gen)
  moreover have "Incarnation (heap m p) < j" if "i < j" for j
    using rec(2) assms(4) that by (meson le_less_trans)
  ultimately show ?thesis
    using refutation_sent [OF answer assms(5) held kind, of e w] px(1)
    by (auto simp: dispatch_gen elim!: wp_mono) (rule wp_mono, erule spec, auto)+
qed

section \<open>Two nodes that have met\<close>

lemma started_member:
  "\<exists>m w'. memberlist_ctor ref_env c (memberlist0 c, world0) = (Inr (), (m, w')) \<and> born c m"
proof -
  have "wp (memberlist_ctor ref_env c) (\<lambda>r s. r = Inr () \<and> born c (fst s)) (memberlist0 c, world0)"
    by (rule wp_ctor) (simp_all add: ref_calls_succeed)
  then show ?thesis
    by (auto simp: wp_def split: prod.splits)
qed

lemma born_can_refute: "born c m \<Longrightarrow> can_refute m"
  by (auto simp: can_refute_def born_def ml_ok_def history_def silent_def)

lemma two_nodes:
  obtains c m mx p where "network ref_env c" and "up c = {''a'', ''b''}"
    and "member c ''b'' = Some mx" and "born (sample_config\<lparr>Name := ''b''\<rparr>) mx"
    and "member c ''a'' = Some m" and "nodeMap m ''b'' = Some p" and "can_learn ''b'' m" and "State (heap m p) = StateAlive"
    and "Incarnation (heap m p) = 1" and "incarnation m = 1"
proof -
  let ?b = "sample_config\<lparr>Name := ''b''\<rparr>"
  obtain ma w1 where a: "memberlist_ctor ref_env sample_config (memberlist0 sample_config, world0) = (Inr (), (ma, w1))"
    and ma: "born sample_config ma"
    using started_member by blast
  obtain mb w2 where b: "memberlist_ctor ref_env ?b (memberlist0 ?b, world0) = (Inr (), (mb, w2))" and mb: "born ?b mb"
    using started_member by blast
  let ?c1 = "nobody\<lparr>member := [''a'' \<mapsto> ma], up := {''a''}\<rparr>"
  let ?c2 = "nobody\<lparr>member := [''a'' \<mapsto> ma, ''b'' \<mapsto> mb], up := {''b'', ''a''}\<rparr>"
  let ?pp = "md_pushpull (local_state False mb)"
  let ?c3 = "?c2\<lparr>shown := {?pp}\<rparr>"
  have "network ref_env ?c1"
    using network.moves [OF network.nobody cluster_step.starts [OF _ a]] by (simp add: nobody_def sample_config_def)
  then have "network ref_env ?c2"
    using network.moves [OF _ cluster_step.starts [OF _ b], of ?c1] by (simp add: nobody_def sample_config_def)
  then have c3: "network ref_env ?c3"
    using network.moves [OF _ cluster_step.shows_state [of "''b''" ?c2 mb ref_env False]] by (simp add: nobody_def)
  obtain now where "heap mb 1 = first_node ?b now" "nodes mb = [1]"
    using mb by (auto simp: born_def)
  then have "pp_states ?pp = [wire_state (first_node ?b now)]"
    by (simp add: local_state_message)
  then have merge: "perform ref_env ''a'' (Merges ?pp) = thenE (aliveNode ref_env (genAliveBroadcast 1 ''b''
      (AdvertiseAddr sample_config) (ucast (AdvertisePort sample_config))) False (-1)) (ret ())"
    by (simp add: mergeRemoteState_def mergeNodeState_def wire_state_def first_node_def)
  have ma': "\<not> nodeMutex ma" "ml_inv ma" "nodeMap ma = [''a'' \<mapsto> 1]" "config ma = sample_config" "nodeTimers ma = []"
    "2 ^ 31 \<le> bq_room (TransmitLimitedQueue ma)" "incarnation ma = 1" "localName ma = ''a''"
    "silent ''b'' ma" and pending: "bq_pending (TransmitLimitedQueue ma) ''b'' = None"
    using ma by (auto simp: born_def ml_ok_def history_def silent_def sample_config_def)
  have "wp (perform ref_env ''a'' (Merges ?pp)) (\<lambda>r s. r = Inr () \<and> incarnation (fst s) = 1 \<and> can_learn ''b'' (fst s) \<and>
      (\<exists>p. nodeMap (fst s) ''b'' = Some p \<and> State (heap (fst s) p) = StateAlive \<and> Incarnation (heap (fst s) p) = 1)) (ma, world0)"
    unfolding merge wp_thenE
    by (rule wp_mono [OF aliveNode_added])
      (use ma' in \<open>auto simp: wp_ret can_learn_def silent_def erasable_def\<close>)
  then obtain m w where ran: "perform ref_env ''a'' (Merges ?pp) (ma, world0) = (Inr (), (m, w))"
    and m: "incarnation m = 1" "can_learn ''b'' m"
      "\<exists>p. nodeMap m ''b'' = Some p \<and> State (heap m p) = StateAlive \<and> Incarnation (heap m p) = 1"
    by (auto simp: wp_def split: prod.splits)
  have "network ref_env (acted ''a'' m True ?c3)"
    by (rule network.moves [OF c3 cluster_step.acts [OF _ _ _ _ ran, unfolded outlives.simps(1)]])
      (use ma' in \<open>simp_all add: nobody_def counting_def word_less_alt\<close>)
  then show thesis
    using that [of "acted ''a'' m True ?c3" mb m] m mb by (auto simp: acted_def)
qed

theorem nothing_invented_witness:
  "\<exists>c m p mx px. network ref_env c \<and> member c ''a'' = Some m \<and> nodeMap m ''b'' = Some p \<and>
     member c ''b'' = Some mx \<and> nodeMap mx ''b'' = Some px \<and> N (heap m p) = N (heap mx px) \<and>
     Incarnation (heap m p) \<le> Incarnation (heap mx px)"
proof -
  obtain c m mx p where c: "network ref_env c" "member c ''a'' = Some m" "nodeMap m ''b'' = Some p"
    by (rule two_nodes)
  from nothing_invented [OF this] c show ?thesis
    by blast
qed

theorem refutation_prevails_witness:
  "\<exists>c m mx p. network ref_env c \<and> member c ''b'' = Some mx \<and> member c ''a'' = Some m \<and>
     wp (dispatch_broadcast ref_env (genSuspectBroadcast 1 ''b'' ''a'')) (\<lambda>r s. r = Inr () \<and>
     (\<exists>bc. bq_pending (TransmitLimitedQueue (fst s)) ''b'' = Some bc \<and>
        (\<forall>w'. wp (dispatch_broadcast ref_env (mb_msg bc)) (\<lambda>r' s'. r' = Inr () \<and> State (heap (fst s') p) = StateAlive \<and>
           Incarnation (heap m p) < Incarnation (heap (fst s') p) \<and>
           map_of (nodeTimers (fst s')) ''b'' = None) (m, w')))) (mx, world0)"
proof -
  obtain c m mx p where c: "network ref_env c" "member c ''b'' = Some mx" "born (sample_config\<lparr>Name := ''b''\<rparr>) mx"
    "member c ''a'' = Some m" "nodeMap m ''b'' = Some p" "can_learn ''b'' m"
    by (rule two_nodes)
  have "own mx \<le> 1"
    by (simp add: born_sound(2) [OF c(3)])
  from refutation_prevails [OF c(1,2) born_can_refute [OF c(3)] this _ _ c(4) _ c(5,6), of "genSuspectBroadcast 1 ''b'' ''a''" "''a''"
      world0] c
  show ?thesis by auto
qed

end
