(* ===== verification/Departure.thy ===== *)
theory Departure
  imports Cluster Lifetime
begin

text \<open>
  A departure is final: once a node has left and another has taken its farewell in, nothing that
  happens in the cluster brings it back there.
\<close>

section \<open>An entry that stays gone\<close>

text \<open>The entry of \<open>x\<close> on node \<open>l\<close> is dead or left, and if it is its own it is leaving.\<close>

definition gone :: "string \<Rightarrow> string \<Rightarrow> nat \<Rightarrow> nodeState \<Rightarrow> memberlist \<Rightarrow> bool" where
  "gone l x p st0 m \<longleftrightarrow> ml_inv m \<and> nodeMap m x = Some p \<and> heap m p = st0 \<and> DeadOrLeft st0 \<and>
     localName m = l \<and> nodeMap m l \<noteq> None \<and> (x = l \<longrightarrow> leave m)"

lemma gone_quiet: "quiet m m' \<Longrightarrow> gone l x p st0 m' = gone l x p st0 m"
  by (simp add: gone_def quietD ml_inv_quiet)

lemma gone_fields [simp]:
  "gone l x p st0 (m\<lparr>nodeMutex := b\<rparr>) = gone l x p st0 m" "gone l x p st0 (m\<lparr>incarnation := k\<rparr>) = gone l x p st0 m"
  "gone l x p st0 (m\<lparr>TransmitLimitedQueue := q\<rparr>) = gone l x p st0 m"
  "gone l x p st0 (m\<lparr>nodeTimers := ts\<rparr>) = gone l x p st0 m"
  by (simp_all add: gone_def)

lemmas gone_blocks = keeps_quiet [of "gone l x p st0" for l x p st0, OF gone_quiet]

lemma keeps_gone_set:
  "q \<noteq> p \<Longrightarrow> (\<And>s. NName (N (f s)) = NName (N s)) \<Longrightarrow> keeps (gone l x p st0) (set_node q f)"
  unfolding set_node_def by (rule keeps_upd) (simp add: gone_def ml_inv_set_node)

lemma keeps_gone_refute: "q \<noteq> p \<Longrightarrow> keeps (gone l x p st0) (refute e q acc)"
  by (rule keepsI, rule wp_refute)
    (auto simp: gone_quiet, simp add: gone_def ml_inv_refuted, simp add: refuted_def Let_def)

text \<open>Two names never share an entry.\<close>

lemma gone_other: "gone l x p st0 m \<Longrightarrow> nodeMap m y = Some q \<Longrightarrow> q = p \<longleftrightarrow> y = x"
  using ml_inj by (fastforce simp: gone_def)

lemma keeps_gone_deadNode: "keeps (gone l x p st0) (deadNode e b)"
proof -
  let ?d = "bc_dead b"
  have other: "keeps (gone l x p st0) (dead_apply e ?d q)" if "q \<noteq> p" for q
    unfolding dead_apply_def mark_dead_def Let_def
    by (intro keeps_intros gone_blocks keeps_gone_refute keeps_gone_set that) simp_all
  have self: "wp (dead_apply e ?d p) (\<lambda>r s. gone l x p st0 (fst s)) (m, w)" if "gone l x p st0 m" for m w
    using that unfolding dead_apply_def
    by (auto simp: wp_bindE [of "obj f" for f] wp_obj wp_let wp_if wp_ret wp_thenE [of "erase_timer n" for n] gone_def
        intro!: wp_erase_timer simp: quietD ml_inv_quiet)
  have "wp (dead_apply e ?d q) (\<lambda>r s. gone l x p st0 (fst s)) (m, w)" if "gone l x p st0 m" for q m w
    using keepsD [OF other, of q "(m, w)"] self [OF that] that by (cases "q = p") auto
  then show ?thesis
    unfolding deadNode_def Let_def
    by (intro keeps_node_lock keeps_read) (auto simp: wp_case_option wp_ret)
qed

lemma keeps_gone_callback: "keeps (gone l x p st0) (suspicion_callback e f)"
  unfolding suspicion_callback_def by (intro keeps_intros keeps_gone_deadNode) simp

lemma keeps_gone_suspectNode: "keeps (gone l x p st0) (suspectNode e b)"
proof -
  let ?s = "bc_suspect b"
  have confirm: "keeps (gone l x p st0) (confirm_suspicion e ?s sus)" for sus
    unfolding confirm_suspicion_def case_prod_beta
    by (intro keeps_intros keeps_gone_callback gone_blocks) simp
  have mark: "keeps (gone l x p st0) (mark_suspect e ?s q)" "keeps (gone l x p st0) (refute e q acc)" if "q \<noteq> p" for q acc
    unfolding mark_suspect_def by (intro keeps_intros gone_blocks keeps_gone_set keeps_gone_refute that; simp)+
  have "wp (suspect_apply e ?s q) (\<lambda>r s. gone l x p st0 (fst s)) (m, w)" if "gone l x p st0 m" for q m w
    using keepsD [OF confirm, of "(m, w)"] keepsD [OF mark(1), of q "(m, w)"] keepsD [OF mark(2), of q "(m, w)"] that
    unfolding suspect_apply_def
    by (cases "q = p")
      (auto simp: wp_bindE wp_obj wp_let wp_if wp_ret wp_case_option, auto simp: gone_def DeadOrLeft_def)
  then show ?thesis
    unfolding suspectNode_def Let_def
    by (intro keeps_node_lock keeps_read) (auto simp: wp_case_option wp_ret)
qed

lemma gone_inserted:
  assumes "gone l x p st0 m" and "nodeMap m y = None" and "ml_inv (inserted y st ns m)"
  shows "gone l x p st0 (inserted y st ns m)"
proof -
  have "p \<in> set (nodes m)"
    using assms(1) ml_mem by (auto simp: gone_def)
  then have "p \<noteq> heapNext m"
    using assms(1) by (auto simp: gone_def ml_inv_def)
  then show ?thesis
    using assms by (auto simp: gone_def inserted_def)
qed

text \<open>An alive message about another node must give the address on record and no newer incarnation.\<close>

definition outdated :: "string \<Rightarrow> string \<Rightarrow> nodeState \<Rightarrow> Alive \<Rightarrow> bool" where
  "outdated l x st a \<longleftrightarrow> alive_node a = x \<longrightarrow> x \<noteq> l \<longrightarrow>
     alive_addr a = NAddr (N st) \<and> alive_port a = ucast (NPort (N st)) \<and> alive_incarnation a \<le> Incarnation st"

lemma wp_gone_aliveNode:
  assumes "gone l x p st0 m" and "outdated l x st0 (bc_alive b)"
  shows "wp (aliveNode e b False fd) (\<lambda>r s. gone l x p st0 (fst s)) (m, w)"
proof -
  let ?a = "bc_alive b" and ?m = "m\<lparr>nodeMutex := True\<rparr>"
  have other: "keeps (gone l x p st0) (alive_apply e ?a False fd q u)" if "q \<noteq> p" for q u
    unfolding alive_apply_def Let_def
    by (intro keeps_intros gone_blocks keeps_gone_refute keeps_gone_set that) simp_all
  have inv: "ml_inv ?m" "gone l x p st0 ?m"
    using assms(1) by (simp_all add: gone_def)
  have st: "heap m p = st0" "localName m = l" "x = l \<longrightarrow> leave m"
    using assms(1) by (simp_all add: gone_def)
  have looked: "wp (alive_lookup e ?a) (\<lambda>r s. gone l x p st0 (fst s) \<and>
      (\<forall>q u. r = Inr (Some (q, u)) \<longrightarrow> q = p \<longrightarrow> alive_node ?a = x \<and> \<not> u \<and> fst s = ?m)) (?m, w)"
    if "\<not> (leave m \<and> alive_node ?a = localName m)"
  proof (rule wp_alive_lookup [OF inv(1)])
    fix st ns w'
    assume "nodeMap ?m (alive_node ?a) = None" "ml_inv (inserted (alive_node ?a) st ns ?m)"
    then have "gone l x p st0 (inserted (alive_node ?a) st ns ?m)" "nodeMap m (alive_node ?a) = None"
      using gone_inserted [OF inv(2)] by simp_all
    moreover have "heapNext m \<noteq> p"
      using assms(1) ml_mem [of m x p] by (auto simp: gone_def ml_inv_def)
    ultimately show "gone l x p st0 (fst (inserted (alive_node ?a) st ns ?m, w')) \<and>
       (\<forall>q u. Inr (Some (heapNext ?m, False)) = Inr (Some (q, u)) \<longrightarrow> q = p \<longrightarrow>
          alive_node ?a = x \<and> \<not> u \<and> fst (inserted (alive_node ?a) st ns ?m, w') = ?m)"
      by simp
  qed (use inv(2) st gone_other [OF assms(1), of "alive_node ?a"] assms(2) that in \<open>auto simp: outdated_def split: if_splits\<close>)
  have self: "wp (alive_apply e ?a False fd p False) (\<lambda>r s. gone l x p st0 (fst s)) (?m, w')"
    if "alive_node ?a = x" "\<not> (leave m \<and> x = localName m)" for w'
  proof -
    have "NName (N (heap m p)) = x"
      using assms(1) ml_name by (auto simp: gone_def)
    then show ?thesis
      using assms st that unfolding alive_apply_def
      by (auto simp: wp_bindE [of "obj f" for f] wp_obj wp_let wp_if wp_ret outdated_def split: if_splits)
  qed
  have applied: "wp (alive_apply e ?a False fd q u) (\<lambda>r s. gone l x p st0 (fst s)) (m', w')"
    if "gone l x p st0 m'" "q = p \<longrightarrow> alive_node ?a = x \<and> \<not> u \<and> m' = ?m" "\<not> (leave m \<and> alive_node ?a = localName m)" for q u m' w'
    using self keepsD [OF other, of q "(m', w')" u] that by (cases "q = p") auto
  have "wp (bindE (alive_lookup e ?a) (\<lambda>found. case found of None \<Rightarrow> ret ()
      | Some (q, u) \<Rightarrow> alive_apply e ?a False fd q u)) (\<lambda>r s. gone l x p st0 (fst s)) (?m, w)"
    if "\<not> (leave m \<and> alive_node ?a = localName m)"
    unfolding wp_bindE using looked [OF that] that
    by (elim wp_mono) (auto simp: wp_ret wp_case_option wp_case_prod intro: applied)
  then have "wp (bindE (obj id) (\<lambda>m. if leave m \<and> alive_node ?a = localName m then ret ()
      else bindE (alive_lookup e ?a) (\<lambda>found. case found of None \<Rightarrow> ret ()
      | Some (q, u) \<Rightarrow> alive_apply e ?a False fd q u))) (\<lambda>r s. gone l x p st0 (fst s)) (?m, w)"
    using inv by (simp add: wp_bindE [of "obj f" for f] wp_obj wp_if wp_ret)
  then show ?thesis
    using assms(1) unfolding aliveNode_def Let_def by (auto simp: wp_node_lock elim!: wp_mono)
qed

lemma keeps_gone_merge:
  assumes "outdated l x st0 (getAlive (pns_incarnation s) (pns_name s) (pns_addr s) (pns_port s))"
  shows "keeps (gone l x p st0) (mergeNodeState e s)"
proof (rule keepsI)
  fix m w assume m: "gone l x p st0 m"
  note keep = keepsD [where P = "gone l x p st0" and s = "(m, w)", simplified, OF _ m]
  show "wp (mergeNodeState e s) (\<lambda>r s. gone l x p st0 (fst s)) (m, w)"
    unfolding mergeNodeState_def using m assms
    by (auto simp: wp_if wp_bindE wp_obj wp_ret intro!: keep [OF keeps_gone_deadNode] keep [OF keeps_gone_suspectNode]
        wp_gone_aliveNode)
qed

lemma keeps_gone_dispatch:
  assumes "bc_type b = aliveMsg \<longrightarrow> outdated l x st0 (bc_alive b)"
  shows "keeps (gone l x p st0) (dispatch_broadcast e b)"
proof -
  have "keeps (gone l x p st0) (aliveNode e b False (-1))" if "bc_type b = aliveMsg"
    using assms that by (intro keepsI wp_gone_aliveNode) simp_all
  then show ?thesis
    unfolding dispatch_broadcast_def handleAlive_def handleDead_def handleSuspect_def
    by (auto intro!: keeps_intros keeps_gone_deadNode keeps_gone_suspectNode)
qed

lemma keeps_gone_anyAlive: "keeps (gone l x p st0) anyAlive"
  unfolding anyAlive_def by (intro keeps_intros) simp

lemma keeps_gone_Leave: "keeps (gone l x p st0) (Leave e t)"
  unfolding Leave_def
  by (intro keeps_intros keeps_gone_deadNode keeps_gone_anyAlive) (simp_all, simp add: gone_def ml_inv_def)

lemma keeps_gone_UpdateNode: "keeps (gone l x p st0) (UpdateNode e t)"
proof -
  have entry: "keeps (gone l x p st0) local_entry"
    unfolding local_entry_def
    by (intro keeps_node_lock keeps_read) (auto simp: wp_simps, simp add: gone_def)
  have "keeps (gone l x p st0) (aliveNode e (genAliveBroadcast inc (localName m) addr port) False fd)"
    if "gone l x p st0 m" for m inc addr port fd
    using that by (intro keepsI wp_gone_aliveNode) (auto simp: outdated_def gone_def)
  then have "keeps (gone l x p st0) (bindE (world (Pipe e)) (\<lambda>fds.
       thenE (aliveNode e (genAliveBroadcast inc (localName m) addr port) False (snd fds))
       (bindE anyAlive (\<lambda>any. if any then thenE (world (await_pipe e (fst fds) t))
          (thenE (world (Close e (fst fds))) (bindE (world (Close e (snd fds))) (\<lambda>_. ret ()))) else ret ()))))"
    if "gone l x p st0 m" for m inc addr port
    using that by (intro keeps_intros keeps_gone_anyAlive)
  note rest = keepsD [OF this]
  show ?thesis
    unfolding UpdateNode_def nextIncarnation_def
    by (intro keeps_bindE [OF entry] keeps_bindE [OF keeps_thenE] keeps_upd keeps_if keeps_read keeps_atomic rest) simp_all
qed

lemma keeps_gone_getBroadcasts: "keeps (gone l x p st0) (getBroadcasts e oh cap cbc)"
  unfolding getBroadcasts_def on_queue_def by (intro keeps_intros) simp

section \<open>In the cluster\<close>

lemma gone_outdated:
  assumes "K x = Some (N st, Incarnation st)" and "alive_node a = x \<longrightarrow> vouched K x (alive_addr a) (alive_port a) (alive_incarnation a)"
  shows "outdated l x st a"
  using assms by (simp add: outdated_def vouched_def)

lemma deed_gone:
  assumes "authentic c" and "possible c m d" and "roster c x = Some (N st0, Incarnation st0)"
  shows "keeps (gone l x p st0) (perform e n d)"
proof (cases d)
  case (Hears b)
  then have "genuine (roster c) b"
    using assms(1,2) by (simp add: authentic_def)
  then have "outdated l x st0 (bc_alive b)" if "bc_type b = aliveMsg"
    using that by (intro gone_outdated [where K = "roster c", OF assms(3)]) (auto simp: genuine_def Let_def)
  then show ?thesis
    using Hears by (simp add: keeps_gone_dispatch)
next
  case (Merges pp)
  then have "genuine_state (roster c) s" if "s \<in> set (pp_states pp)" for s
    using assms(1,2) that by (auto simp: authentic_def)
  then have "keeps (gone l x p st0) (mergeNodeState e s)" if "s \<in> set (pp_states pp)" for s
    using that by (intro keeps_gone_merge gone_outdated [where K = "roster c", OF assms(3)]) (auto simp: genuine_state_def)
  then show ?thesis
    using Merges by (simp add: mergeRemoteState_def keeps_forE)
qed (simp_all add: keeps_gone_suspectNode keeps_gone_callback keeps_gone_UpdateNode keeps_gone_Leave)

lemma step_gone:
  assumes "authentic c" and "cluster_step e c c'" and "roster c x = Some (N st0, Incarnation st0)"
    and "member c n = Some m" and "gone n x p st0 m"
  shows "\<exists>m'. member c' n = Some m' \<and> gone n x p st0 m'"
  using assms(2)
proof cases
  case (acts k mk d w r m' w')
  then show ?thesis
    using assms(4,5) keeps_run [OF deed_gone [OF assms(1) acts(5) assms(3)] _ acts(6), of n p]
    by (cases "k = n") (auto simp: acted_def)
next
  case (gossips k mk oh cap w some cbc m' w')
  then show ?thesis
    using assms(4,5) keeps_run [OF keeps_gone_getBroadcasts _ gossips(4), of n x p st0]
    by (cases "k = n") (auto simp: acted_def)
qed (use assms(4,5) in auto)

lemma gone_roster:
  assumes "authentic c" and "member c x = Some mx" and "gone x x px stx mx"
  shows "roster c x = Some (N stx, Incarnation stx)"
proof -
  have mx: "localName mx = x" "sound (roster c) mx" "nodeMap mx x = Some px" "heap mx px = stx"
    using assms by (auto simp: authentic_def gone_def)
  obtain q where "nodeMap mx (localName mx) = Some q" "own mx = Incarnation (heap mx q)" "N (heap mx q) = advertised (config mx)"
    using mx(2) by (rule sound_own)
  then show ?thesis
    using mx assms(2) by (simp add: roster_def)
qed

lemma steps_gone:
  assumes "(cluster_step e)\<^sup>*\<^sup>* c c'" and "authentic c" and "N st0 = N stx" and "Incarnation st0 = Incarnation stx"
    and "\<exists>mx. member c x = Some mx \<and> gone x x px stx mx" and "\<exists>m. member c n = Some m \<and> gone n x p st0 m"
  shows "authentic c' \<and> (\<exists>mx. member c' x = Some mx \<and> gone x x px stx mx) \<and> (\<exists>m. member c' n = Some m \<and> gone n x p st0 m)"
  using assms(1)
proof induction
  case base
  then show ?case using assms(2,5,6) by blast
next
  case (step c1 c2)
  then obtain mx m where c1: "authentic c1" "member c1 x = Some mx" "gone x x px stx mx" "member c1 n = Some m" "gone n x p st0 m"
    by blast
  have "roster c1 x = Some (N stx, Incarnation stx)"
    using c1(1-3) by (rule gone_roster)
  then show ?case
    using step_gone [OF c1(1) step.hyps(2) _ c1(2,3)] step_gone [OF c1(1) step.hyps(2) _ c1(4,5), unfolded assms(3,4)]
      step_authentic [OF c1(1) step.hyps(2)] by simp
qed

text \<open>
  C5. A departure is final. Once a node has left, and another node has its departure on record,
  no message that is lost, delayed, repeated or out of order, and nothing that any node of the
  cluster does later, changes that record again.
\<close>

theorem departure_final:
  assumes "network e c" and "member c x = Some mx" and "leave mx" and "nodeMap mx x = Some px" and "DeadOrLeft (heap mx px)"
    and "member c n = Some m" and "n \<noteq> x" and "nodeMap m x = Some p" and "DeadOrLeft (heap m p)"
    and "Incarnation (heap m p) = Incarnation (heap mx px)" and "(cluster_step e)\<^sup>*\<^sup>* c c'"
  shows "\<exists>m'. member c' n = Some m' \<and> nodeMap m' x = Some p \<and> heap m' p = heap m p"
proof -
  obtain q where mx: "localName mx = x" "nodeMap mx x = Some q" "N (heap mx q) = advertised (config mx)" "ml_inv mx"
    using assms(1,2) by (rule network_member)
  obtain l where m: "localName m = n" "nodeMap m n = Some l" "ml_inv m"
    using assms(1,6) by (rule network_member)
  have "N (heap m p) = advertised (config mx)"
    using assms(1,6,8) by (rule network_record) (use assms(2) in simp)
  then have same: "N (heap m p) = N (heap mx px)"
    using mx(2,3) assms(4) by simp
  have "gone x x px (heap mx px) mx" "gone n x p (heap m p) m"
    using assms mx m by (simp_all add: gone_def)
  then have "\<exists>m'. member c' n = Some m' \<and> gone n x p (heap m p) m'"
    using steps_gone [OF assms(11) network_authentic [OF assms(1)] same assms(10)] assms(2,6) by blast
  then show ?thesis
    by (auto simp: gone_def)
qed

section \<open>A departure that is heard of\<close>

text \<open>A node that is still alone leaves.\<close>

lemma alone_leaves:
  assumes "born c m"
  shows "wp (Leave e t) (\<lambda>r s. r = Inr () \<and> leave (fst s) \<and> nodes (fst s) = [1] \<and> nodeMap (fst s) = [Name c \<mapsto> 1] \<and>
     Incarnation (heap (fst s) 1) = 1 \<and> State (heap (fst s) 1) = StateLeft \<and> NName (N (heap (fst s) 1)) = Name c) (m, w)"
proof -
  obtain now where b: "\<not> leave m" "\<not> shutdown m" "\<not> nodeMutex m" "nodes m = [1]" "nodeMap m = [Name c \<mapsto> 1]" "config m = c"
    "heap m 1 = first_node c now" "nodeTimers m = []" "0 < bq_room (TransmitLimitedQueue m)" "silent (Name c) m"
    using assms by (auto simp: born_def history_def silent_def)
  let ?m = "m\<lparr>leave := True, nodeMutex := False\<rparr>"
  have dead: "wp (deadNode e (genDeadBroadcast 1 (Name c) (Name c))) Q (?m, w)"
    if "\<And>q now w'. Q (Inr ()) (?m\<lparr>nodeTimers := [], TransmitLimitedQueue := q,
      heap := (heap m)(1 := (heap m 1)\<lparr>State := StateLeft, StateChange := now\<rparr>), nodeMutex := False\<rparr>, w')" for Q w
    using wp_deadNode_leaving [of ?m 1 Q e w] b that
    by (simp add: first_node_def DeadOrLeft_def erasable_def)
  show ?thesis
    unfolding Leave_def using b
    by (simp add: wp_bindE [of "obj f" for f] wp_bindE [of "node_lock f" for f] wp_obj wp_if wp_ret wp_node_lock wp_upd
        wp_thenE [of "upd f" for f] wp_thenE [of "deadNode e b" for b] first_node_def)
      (rule dead, simp add: anyAlive_def wp_simps DeadOrLeft_def)
qed

theorem departure_final_witness:
  "\<exists>c m mx p m'. network ref_env c \<and> member c ''b'' = Some mx \<and> leave mx \<and> member c ''a'' = Some m \<and>
     nodeMap m ''b'' = Some p \<and> State (heap m p) = StateLeft \<and>
     member (c\<lparr>up := up c - {''b''}\<rparr>) ''a'' = Some m' \<and> heap m' p = heap m p"
proof -
  obtain c m mx p where c: "network ref_env c" "up c = {''a'', ''b''}" "member c ''b'' = Some mx"
      "born (sample_config\<lparr>Name := ''b''\<rparr>) mx" "member c ''a'' = Some m"
    and m: "nodeMap m ''b'' = Some p" "can_learn ''b'' m" "State (heap m p) = StateAlive" "Incarnation (heap m p) = 1"
      "incarnation m = 1"
    by (rule two_nodes)
  obtain mb w1 where leaves: "perform ref_env ''b'' (Leaves 0) (mx, world0) = (Inr (), (mb, w1))"
    and mb: "leave mb" "nodes mb = [1]" "nodeMap mb = [''b'' \<mapsto> 1]" "Incarnation (heap mb 1) = 1"
      "State (heap mb 1) = StateLeft" "NName (N (heap mb 1)) = ''b''"
    using alone_leaves [OF c(4), of ref_env 0 world0] by (auto simp: wp_def split: prod.splits)
  let ?c1 = "acted ''b'' mb True c" and ?pp = "md_pushpull (local_state False mb)"
  let ?c2 = "?c1\<lparr>shown := insert ?pp (shown ?c1)\<rparr>"
  have room: "counting mx" "counting m"
    using c(4) m(5) by (simp_all add: counting_def born_def word_less_alt)
  have "network ref_env ?c1"
    by (rule network.moves [OF c(1) cluster_step.acts [OF _ c(3) room(1) _ leaves, unfolded outlives.simps(1)]]) (simp_all add: c(2))
  then have c2: "network ref_env ?c2"
    by (rule network.moves [OF _ cluster_step.shows_state [where n = "''b''"]]) (simp_all add: acted_def c(2))
  have merge: "perform ref_env ''a'' (Merges ?pp) = thenE (deadNode ref_env (genDeadBroadcast 1 ''b'' ''b'')) (ret ())"
    using mb by (simp add: local_state_message mergeRemoteState_def mergeNodeState_def wire_state_def)
  obtain l where la: "localName m = ''a''" "nodeMap m ''a'' = Some l" "ml_inv m"
    using c(1,5) by (rule network_member)
  have "wp (perform ref_env ''a'' (Merges ?pp)) (\<lambda>r s. r = Inr () \<and> nodeMap (fst s) ''b'' = Some p \<and>
      State (heap (fst s) p) = StateLeft \<and> Incarnation (heap (fst s) p) = 1) (m, world0)"
    unfolding merge wp_thenE
    by (rule wp_mono [OF deadNode_run]) (use m la ml_name [OF la(3) m(1)] in \<open>auto simp: can_learn_def DeadOrLeft_def wp_ret\<close>)
  then obtain ma w2 where merged: "perform ref_env ''a'' (Merges ?pp) (m, world0) = (Inr (), (ma, w2))"
    and ma: "nodeMap ma ''b'' = Some p" "State (heap ma p) = StateLeft" "Incarnation (heap ma p) = 1"
    by (auto simp: wp_def split: prod.splits)
  let ?c3 = "acted ''a'' ma True ?c2"
  have c3: "network ref_env ?c3"
    by (rule network.moves [OF c2 cluster_step.acts [OF _ _ room(2) _ merged, unfolded outlives.simps(1)]]) (simp_all add: acted_def c(2,5))
  have at: "member ?c3 ''b'' = Some mb" "member ?c3 ''a'' = Some ma"
    by (simp_all add: acted_def)
  have "(cluster_step ref_env)\<^sup>*\<^sup>* ?c3 (?c3\<lparr>up := up ?c3 - {''b''}\<rparr>)"
    by (rule r_into_rtranclp) (rule cluster_step.stops)
  from departure_final [OF c3 at(1) mb(1) _ _ at(2) _ ma(1) _ _ this] mb ma c3 at
  show ?thesis
    by (fastforce simp: DeadOrLeft_def)
qed

end
