(* ===== verification/Experiments.thy ===== *)
theory Experiments
  imports WireRoundtrip Util
begin

text \<open>
  The experiments of \<^verbatim>\<open>src/temp\<close>: a server that prints every message it receives over TCP or UDP,
  a client that sends one over UDP, and two threads around a pipe. Each pass of the server's loops is one
  round. What the experiments print is their result, so here the console is part of the world.
\<close>

section \<open>The console\<close>

text \<open>\<^verbatim>\<open>DebugString\<close> is the text the protobuf library makes of a message.\<close>

record 'w console = "'w env" +
  DebugString :: "MessageData \<Rightarrow> string"
  sys_print :: "string \<Rightarrow> 'w \<Rightarrow> 'w"

definition print_line :: "('w, 'e) console_scheme \<Rightarrow> string \<Rightarrow> ('w, unit) prog" where
  "print_line e s = modify (sys_print e (s @ [CHR 0x0A]))"

section \<open>The server\<close>

definition server_sockets :: "('w, 'e) console_scheme \<Rightarrow> ('w, int \<times> int) prog" where
  "server_sockets e =
     bindE (Socket e AF_INET SOCK_STREAM 0) (\<lambda>tcp.
     bindE (Socket e AF_INET SOCK_DGRAM 0) (\<lambda>udp.
     let local_addr = \<lparr>sin_family = AF_INET, sin_port = htons 8888, sin_addr = 0\<rparr>
     in bindE (Bind e tcp local_addr) (\<lambda>_.
        bindE (Bind e udp local_addr) (\<lambda>_.
        bindE (Listen e tcp 1) (\<lambda>_. ret (tcp, udp))))))"

text \<open>
  A buffer is terminated, parsed as far as possible and printed, as in
  \<^verbatim>\<open>net.cpp\<close> but for the message about a failure.
\<close>

definition server_show :: "('w, 'e) console_scheme \<Rightarrow> int \<Rightarrow> bytes \<Rightarrow> ('w, unit) prog" where
  "server_show e n buf = bindE (parse_buffer e n buf) (\<lambda>md. print_line e (DebugString e md))"

text \<open>
  The TCP thread serves one client at a time: it waits for one, then reads from it until it gets
  nothing more. The port is printed by the format of a single byte.
\<close>

definition server_tcp_round :: "('w, 'e) console_scheme \<Rightarrow> int \<Rightarrow> int option \<Rightarrow> ('w, int option) prog" where
  "server_tcp_round e fd serving =
     (case serving of
        None \<Rightarrow>
          bindE (Accept e fd) (\<lambda>(client_fd, remote_addr).
          thenE (print_line e (''Accept TCP Link from '' @ inet_ntop4 e (sin_addr remote_addr) @ '':'' @
            to_string (unat (htons (sin_port remote_addr)) mod 256)))
          (ret (Some client_fd)))
      | Some client_fd \<Rightarrow>
          bindE (Read e client_fd 1024) (\<lambda>(n, buf).
          if n > 0 then thenE (server_show e n buf) (ret (Some client_fd))
          else bindE (Close e client_fd) (\<lambda>_. ret None)))"

text \<open>An empty datagram leaves the inner loop of the UDP thread, and the outer one enters it again.\<close>

definition server_udp_round :: "('w, 'e) console_scheme \<Rightarrow> int \<Rightarrow> ('w, unit) prog" where
  "server_udp_round e fd =
     bindE (Recvfrom e fd 1024) (\<lambda>(n, buf, _).
     if n > 0 then server_show e n buf else ret ())"

section \<open>The client\<close>

definition client_message :: MessageData where
  "client_message = MessageData0\<lparr>md_head := pingMsg, md_body := Some (BodyPing (Ping0\<lparr>ping_seqno := 1,
     ping_node := ''as'', ping_sourceaddr := ''asa'', ping_sourcenode := ''af'', ping_sourceport := 123\<rparr>))\<rparr>"

text \<open>
  The address of the server is the first argument. One that cannot be read sets \<^verbatim>\<open>errno\<close> to the value
  of the comparison and leaves what the stack held.
\<close>

definition client_addr :: "('w, 'e) console_scheme \<Rightarrow> string list \<Rightarrow> ('w, sockaddr_in) prog" where
  "client_addr e args =
     (case args of
        [] \<Rightarrow> raise Undefined
      | a # _ \<Rightarrow>
          bindE (call (sys_garbage e)) (\<lambda>g.
          case inet_pton4 e (c_str a) of
            Some x \<Rightarrow> ret \<lparr>sin_family = AF_INET, sin_port = htons 8888, sin_addr = x\<rparr>
          | None \<Rightarrow>
              thenE (modify (sys_set_errno e 1))
              (ret \<lparr>sin_family = AF_INET, sin_port = htons 8888, sin_addr = word_of_int g\<rparr>)))"

text \<open>
  The client up to its last statement, which calls \<^verbatim>\<open>encodeSendTCP\<close> with an address where the function takes
  a descriptor and so does not compile.
\<close>

definition client_udp :: "('w, 'e) console_scheme \<Rightarrow> string list \<Rightarrow> ('w, unit) prog" where
  "client_udp e args =
     bindE (client_addr e args) (\<lambda>server_addr.
     thenE (print_line e (DebugString e client_message))
     (bindE (Socket e AF_INET SOCK_DGRAM 0) (\<lambda>fd.
     thenE (encodeSendUDP e fd server_addr client_message)
     (encodeSendUDP e fd server_addr client_message))))"

section \<open>The pipe\<close>

text \<open>The thread that writes twice, three seconds apart.\<close>

definition pipe_writer :: "('w, 'e) console_scheme \<Rightarrow> int \<Rightarrow> ('w, unit) prog" where
  "pipe_writer e fdin =
     thenE (modify (sys_sleep e (seconds 3)))
     (bindE (Write e fdin ''1231'') (\<lambda>_.
     thenE (modify (sys_sleep e (seconds 3)))
     (bindE (Write e fdin ''1231'') (\<lambda>_. ret ()))))"

text \<open>
  The main thread reads once and closes both ends. The buffer it prints is not terminated:
  after the bytes read comes what the stack held, up to its first zero byte.
\<close>

definition pipe_reader :: "('w, 'e) console_scheme \<Rightarrow> int \<times> int \<Rightarrow> bytes \<Rightarrow> ('w, unit) prog" where
  "pipe_reader e fd stack =
     bindE (Read e (fst fd) 1024) (\<lambda>(n, buf).
     bindE (call (sys_close e (fst fd))) (\<lambda>_.
     bindE (call (sys_close e (snd fd))) (\<lambda>_.
     print_line e (c_str (take (nat n) buf @ drop (nat n) stack)))))"

section \<open>What they do\<close>

text \<open>
  The server prints exactly the message the client sent, over either transport, when its bytes
  arrive together, are fewer than 1024 and none of them is zero.
\<close>

lemma server_prints_sent:
  assumes "pb_codec e" and "MessageData_ok e md" and "nul_free (beforeSend e md)" and "length (beforeSend e md) < 1024"
    and "beforeSend e md \<noteq> []"
  shows "sys_recvfrom e fd 1024 w = (Some (int (length (beforeSend e md)), beforeSend e md, peer), w') \<Longrightarrow>
       server_udp_round e fd w = (Inr (), sys_print e (DebugString e md @ [CHR 0x0A]) w')"
    and "sys_read e c 1024 w = (Some (int (length (beforeSend e md)), beforeSend e md), w') \<Longrightarrow>
       server_tcp_round e fd (Some c) w = (Inr (Some c), sys_print e (DebugString e md @ [CHR 0x0A]) w')"
  using parse_sent [OF assms(1-4)] assms(5)
  by (simp_all add: server_udp_round_def server_tcp_round_def server_show_def print_line_def Recvfrom_def Read_def
      checked_def call_blocking_def bindE_def thenE_def ret_def raise_def modify_def gets_def)

text \<open>A full buffer is terminated behind its end.\<close>

lemma server_full_buffer:
  assumes "sys_recvfrom e fd 1024 w = (Some (1024, buf, peer), w')"
  shows "fst (server_udp_round e fd w) = Inl Undefined"
  using assms
  by (simp add: server_udp_round_def server_show_def parse_buffer_def Recvfrom_def checked_def call_blocking_def bindE_def thenE_def ret_def raise_def modify_def gets_def)

text \<open>
  The writer's second write comes after the reader has closed its end: the exception that follows
  ends the process while it waits for the thread.
\<close>

lemma pipe_writer_throws:
  assumes "sys_write e fd ''1231'' (sys_sleep e (seconds 3) w) = (4, w1)"
    and "sys_write e fd ''1231'' (sys_sleep e (seconds 3) w1) = (-1, w2)"
  shows "pipe_writer e fd w = (Inl (WrapException (sys_errno e w2)), w2)"
  using assms
  by (simp add: pipe_writer_def Write_def checked_def throwErrno_def call_def bindE_def thenE_def ret_def raise_def modify_def gets_def)

end
