(* ===== verification/Spec2Isabelle.thy ===== *)
theory Spec2Isabelle
  imports Demo Lifetime Dissemination Reception Departure Experiments
begin

text \<open>
  Verification of cpp-gossip, a C++ library for cluster membership: every node keeps a table of
  the nodes it knows, spreads changes of it by gossip over UDP, exchanges whole tables over TCP,
  probes one node after the other, and suspects and then declares dead a node that does not
  answer.

  \<^bold>\<open>The program and its parts.\<close> All of it lives in one object, the class \<^verbatim>\<open>memberlist\<close>
  (\<^verbatim>\<open>src/include/memberlist/memberlist.h\<close>). Its constructor opens the sockets, announces the local
  node and starts the threads: one listener each for TCP and UDP, one that serves messages
  handed over by the UDP listener, and the timers for probing, gossip and state exchange. All of them
  work on the node table under \<^verbatim>\<open>nodeMutex\<close>. The handlers of the membership messages change the
  table and put what they learnt on the broadcast queue; gossip takes packets from that queue.
  The theories follow these parts, from the bottom up (paths below \<^verbatim>\<open>src/src\<close>, with the
  header of the same name below \<^verbatim>\<open>src/include\<close>):

  \<^item> \<open>Prelude\<close>: outcomes and programs. A program takes a state to a result and a new state; the
    result is a value or an \<open>exn\<close>: a C++ exception, \<^verbatim>\<open>abort\<close>, \<^verbatim>\<open>std::terminate\<close>, undefined
    behaviour, a deadlock, or the end of a loop's bound. Every early end keeps the state it ends
    in. The theory has a weakest-precondition calculus (\<open>wp\<close>), the judgement that a program keeps
    a predicate however it ends (\<open>keeps\<close>), and the one that bounds how it may end (\<open>may\<close>).
  \<^item> \<open>Platform\<close>: what is not in the repository, as records of parameters: the protobuf
    runtime (\<open>pb_runtime\<close>) and the operating system, clock, random source and the rounding of
    \<^verbatim>\<open>double\<close> (\<open>env\<close>). \<open>Reference\<close> is one concrete platform, on which witnesses evaluate.
  \<^item> \<open>Wrapped\<close>: the system-call wrappers of \<^verbatim>\<open>mynet/wrapped.cpp\<close>, with \<^verbatim>\<open>ConnectTimeout\<close> branch by
    branch. \<open>Net\<close>: sending and receiving in \<^verbatim>\<open>mynet/net.cpp\<close>.
  \<^item> \<open>Messages\<close>: the messages of \<^verbatim>\<open>type/msgtype.pb.h\<close> as records and the constructors of
    \<^verbatim>\<open>type/genmsg.cpp\<close>. \<open>Wire\<close> and \<open>WireParse\<close>: serialisation, sizes and parsers of the fifteen messages in
    \<^verbatim>\<open>type/msgtype.pb.cc\<close>; \<open>WireMerge\<close>: clearing, merging and copying them. \<open>WireRoundtrip\<close>: that
    parsing undoes serialising, through the receive buffer as well, and that parsing several
    serialisations behind each other is merging.
  \<^item> \<open>Recording\<close>: a platform that answers as another one does and keeps a log of the pipes and
    sockets a run makes and of what it reads, so that theorems can speak of this run's own descriptors.
  \<^item> \<open>Scaling\<close> and \<open>Util\<close>: \<^verbatim>\<open>misc/util.cpp\<close> and the scaling of the push/pull interval, with
    \<^verbatim>\<open>double\<close> arithmetic over a rounding function.
  \<^item> \<open>Node\<close>: \<^verbatim>\<open>misc/config.cpp\<close> and \<^verbatim>\<open>misc/node.h\<close>. \<open>Timer\<close>: \<^verbatim>\<open>misc/timer.cpp\<close>,
    \<^verbatim>\<open>ackHandler\<close> of \<^verbatim>\<open>misc/node.cpp\<close> and \<^verbatim>\<open>misc/suspicion.cpp\<close>. A thread is data: what it is
    doing, in particular whether a cancellation point or a lock of \<^verbatim>\<open>nodeMutex\<close> comes first, decides
    whether joining it returns, terminates the program or never ends.
  \<^item> \<open>Ordered_Set\<close>: \<^verbatim>\<open>std::set\<close> under a comparison. \<open>BroadcastQueue\<close>: \<^verbatim>\<open>misc/broadcastQueue.cpp\<close>
    and the broadcasts of \<^verbatim>\<open>mynet/broadcast.cpp\<close>; \<open>Dissemination\<close> adds how long a message stays in the queue.
  \<^item> \<open>Memberlist\<close>: the record \<open>memberlist\<close> with the fields of the class, and \<^verbatim>\<open>aliveNode\<close>,
    \<^verbatim>\<open>suspectNode\<close>, \<^verbatim>\<open>deadNode\<close>, \<^verbatim>\<open>refute\<close>, the suspicion callback and \<^verbatim>\<open>mergeState\<close> of
    \<^verbatim>\<open>memberlist/state.cpp\<close>. The vector and the map of the class share their node objects, so
    both hold addresses into a heap. \<open>NodeTable\<close> has what these operations guarantee, \<open>Refutation\<close>
    what an accused node answers and does elsewhere.
  \<^item> \<open>Protocol\<close>: probing, gossip, state exchange and acknowledgements of \<^verbatim>\<open>memberlist/state.cpp\<close>,
    and every handler and listener of \<^verbatim>\<open>memberlist/handlemsg.cpp\<close>. \<open>Rounds\<close> and \<open>Exchange\<close> have
    what a round of each achieves; \<open>Probing\<close>, \<open>Answering\<close> and \<open>Reception\<close> follow a probe, its
    answers and a gossip packet from one node to the next.
  \<^item> \<open>Lifecycle\<close>: constructor, destructor and public operations of
    \<^verbatim>\<open>memberlist/memberlist.cpp\<close>; \<open>Lifetime\<close> has what they achieve.
  \<^item> \<open>Invariants\<close>, \<open>Timeouts\<close>, \<open>Locking\<close>, \<open>Outcomes\<close> and \<open>Runs\<close>: the whole node, as a step relation
    between its states. A timer fires on its own thread, which wakes before and ends or sleeps again after it.
  \<^item> \<open>Claims\<close> and \<open>Cluster\<close>: several nodes over a network that may lose, delay, reorder and repeat messages
    but forges none. \<open>Claims\<close> has what every handler does to the incarnations and addresses a node
    holds and spreads, \<open>Cluster\<close> the nodes, their steps and the invariant of all of them, and \<open>Departure\<close>
    what becomes of a node that has left.
  \<^item> \<open>Demo\<close>: \<^verbatim>\<open>main.cpp\<close>, over a list of input lines. \<open>Experiments\<close>: the programs of \<^verbatim>\<open>temp\<close>, up to
    the lines that announce threads and descriptors, and up to the statement of the client that does not compile.

  \<^bold>\<open>State and operations.\<close> An operation of the class is a program over the pair of the object
  and the world, named as in the source; a helper the source inlines has a name of its own and
  its lines in the source. Machine integers are words of the width the source declares, except
  container sizes and indices. Taking \<^verbatim>\<open>nodeMutex\<close> while it is held is the outcome \<open>Deadlock\<close>; a
  callback is a value that says what its closure captured; a detached thread is recorded with
  what it captured and is a program of its own.

  \<^bold>\<open>Interfaces.\<close> Contracts between components are locales, each interpreted on the model:
  \<open>pb_encoding\<close> and \<open>pb_codec\<close> (what the generated code needs of the protobuf runtime),
  \<open>strict_weak_order\<close> (what \<^verbatim>\<open>std::set\<close> needs of its comparison), \<open>throwing_call\<close> (the wrappers),
  \<open>timer_class\<close> (both timers), \<open>node_queue\<close> (the broadcast queue as a map from nodes to their
  latest message), \<open>message_handler\<close> (what every handler of a membership message keeps), and
  \<open>program_invariant\<close> (from the handlers keeping a predicate to every task, listener, thread and
  public operation keeping it; interpreted for the consistency of the table, for what never is
  undone, for the nodes that are known, and for the map of suspicions).

  \<^bold>\<open>What the theorems show.\<close>
  \<^item> Whole runs: in every reachable state the table is consistent, its mutex free and the local node alive unless
    it is leaving; leaving, shutting down and knowing a node are final; every step of every
    thread ends without exhausting the bound of a loop.
  \<^item> Node table: what each membership message does on each branch: it adds, marks, refutes or
    ignores, and changes no other node. An accusation never succeeds against the local node, and
    the refutation outranks it unless the 32-bit incarnation wraps.
  \<^item> Probing: a round suspects its target exactly when what it read from its own pipes was silence;
    when a read fails it throws, and when nothing is ever written to the pipe it reads, as to the third one with pings over TCP turned off, it never returns; a ping is
    acknowledged and the acknowledgement reaches its probe, also through a third node; one entry
    with an address that cannot be read stops the program.
  \<^item> Clusters: no node ever has anything of another on record, incarnation or address, that the other has not
    announced; so what an accused node answers outranks the record of every node and makes it alive
    there again, and the record of a departure never changes again. A node runs on after the exceptions that the
    program or the caller of an operation may catch. Names are taken to be unique and not reused, and a node is taken to stop before its
    32-bit incarnation numbers run out. A cluster exchanges decoded messages; that they arrive as they
    were sent is the subject of \<open>WireRoundtrip\<close> and \<open>Reception\<close>.
  \<^item> Failure of the failure detector: whenever a suspicion runs out while it is current it joins
    its own thread, so the program terminates before the node is marked dead; a confirmation that leaves no time deadlocks.
    Shutting down deadlocks with a timer thread that waits for the mutex or is on its way to it, and an update is never reported as sent.
  \<^item> Broadcast queue: it refines a map from nodes to messages; a packet is greedy and within its
    budget; each message is sent as often as the retransmission limit says and then dropped.
  \<^item> Wire format: sizes are lengths, parsing undoes serialising and merges what is concatenated, and a packet arrives as it was sent when it has fewer
    than 1024 bytes and no zero byte, which is what the receive buffer lets through.
  \<^item> Exchange and rounds: who is probed next, what merging a remote state teaches, of which one read of at most 1024 bytes brings what it can;
    and in which order the broadcasts of a gossip packet are served, every one of them if the packet fits the receive buffer, has no
    zero byte, and finds the hand-over stacks empty and deep enough.
  \<^item> Limits: retransmissions, suspicion timeouts and push/pull intervals with their bounds, also
    under rounding. The suspicion timeout is the one \<^verbatim>\<open>config.h\<close> documents from nine nodes on and a longer one below.

  \<^bold>\<open>Bounds of loops.\<close> Four loops carry a bound on their rounds and end in \<open>OutOfFuel\<close> beyond it:
  choosing items of one tier (number of queued items plus one; a round removes an item or ends),
  finding the node to probe (number of nodes plus one; the source counts its checks up to the number of nodes), draining the
  hand-over stacks (their joint length plus one; a round pops a message and serving pushes none), and
  parsing (number of bytes; a field consumes at least its tag). \<open>Runs.events_end\<close> shows that none is
  ever exhausted. A listener is given by one round of its endless loop.

  \<^bold>\<open>Not modelled.\<close> The programs in \<^verbatim>\<open>test\<close>, which try out the standard library, the system
  or single calls and check nothing themselves; \<^verbatim>\<open>memberlist_temp\<close>, which nothing uses; logging, and \<^verbatim>\<open>orderedView\<close>,
  which only prints; \<^verbatim>\<open>Inet_pton\<close> and \<^verbatim>\<open>Inet_ntop\<close>, which no header declares; reflection, arenas
  and \<^verbatim>\<open>Swap\<close> of the generated code, which rest on the protobuf library; the
  join of the listener threads at the end of the destructor, which changes nothing and returns
  once they have found the shutdown pipe closed, while the destructor is running; and
  interleavings inside one step of a thread: the steps of \<open>Runs\<close> run one after the other, so races
  on what \<^verbatim>\<open>nodeMutex\<close> does not protect are outside the theorems.
\<close>

end
